(* ===== verification/Xv6_Prelude.thy ===== *)
theory Xv6_Prelude
  imports Main "HOL-Library.Word"
begin

text \<open>
  Shared vocabulary of the development: the outcome of a kernel routine, the constants of
  \<^verbatim>\<open>kernel/param.h\<close>, the C integer types of \<^verbatim>\<open>kernel/types.h\<close>, and the generic
  lemmas on outcomes, functions and lists that the component theories use.
\<close>

section \<open>Outcomes of kernel code\<close>

text \<open>
  A kernel routine returns (\<open>Ok\<close>), calls \<^verbatim>\<open>panic(msg)\<close> (\<open>Panic msg\<close>), does what C leaves
  undefined (\<open>Fault\<close>: it dereferences a null pointer, divides by zero, or indexes outside an
  array), or does not return in the given state (\<open>Hang\<close>): it spins on a lock held by
  another CPU, or runs through more iterations than the fuel of its loop allows.
\<close>

datatype 'a res = Ok 'a | Panic string | Fault | Hang

fun rbind :: "'a res \<Rightarrow> ('a \<Rightarrow> 'b res) \<Rightarrow> 'b res" where
  "rbind (Ok x) f = f x"
| "rbind (Panic m) f = Panic m"
| "rbind Fault f = Fault"
| "rbind Hang f = Hang"

text \<open>Dereferencing a pointer: \<open>None\<close> is the null pointer.\<close>

definition deref :: "'p option \<Rightarrow> ('p \<Rightarrow> 'b res) \<Rightarrow> 'b res" where
  "deref p f = (case p of None \<Rightarrow> Fault | Some x \<Rightarrow> f x)"

text \<open>Division of C \<^verbatim>\<open>int\<close>s truncates towards zero.\<close>

definition cdiv :: "int \<Rightarrow> int \<Rightarrow> int res" where
  "cdiv a b = (if b = 0 then Fault else Ok (sgn a * sgn b * (\<bar>a\<bar> div \<bar>b\<bar>)))"

lemma cdiv_pos [simp]: "0 \<le> a \<Longrightarrow> 0 < b \<Longrightarrow> cdiv a b = Ok (a div b)"
  by (cases "a = 0") (simp_all add: cdiv_def)

lemma deref_Some [simp]: "deref (Some x) f = f x"
  by (simp add: deref_def)

lemma deref_None [simp]: "deref None f = Fault"
  by (simp add: deref_def)

lemma rbind_Ok_iff: "rbind m f = Ok y \<longleftrightarrow> (\<exists>x. m = Ok x \<and> f x = Ok y)"
  by (cases m) auto

lemma rbind_OkE:
  assumes "rbind m f = Ok y"
  obtains x where "m = Ok x" and "f x = Ok y"
  using assms by (auto simp: rbind_Ok_iff)

lemma rbind_assoc: "rbind (rbind m f) g = rbind m (\<lambda>x. rbind (f x) g)"
  by (cases m) auto

lemma rbind_cong [fundef_cong]:
  assumes "m = m'" and "\<And>x. m' = Ok x \<Longrightarrow> f x = f' x"
  shows "rbind m f = rbind m' f'"
  using assms by (cases m') auto

lemma deref_cong [fundef_cong]:
  assumes "p = p'" and "\<And>x. p' = Some x \<Longrightarrow> f x = f' x"
  shows "deref p f = deref p' f'"
  using assms by (cases p') auto

section \<open>C integer types and the constants of param.h\<close>

type_synonym uchar = "8 word"
type_synonym ushort = "16 word"
type_synonym uint = "32 word"
type_synonym uint64 = "64 word"

definition NPROC :: nat where "NPROC = 64"
definition NCPU :: nat where "NCPU = 8"
definition NOFILE :: nat where "NOFILE = 16"
definition NFILE :: nat where "NFILE = 100"
definition NINODE :: nat where "NINODE = 50"
definition NDEV :: nat where "NDEV = 10"
definition ROOTDEV :: nat where "ROOTDEV = 1"
definition MAXARG :: nat where "MAXARG = 32"
definition MAXOPBLOCKS :: nat where "MAXOPBLOCKS = 10"
definition LOGSIZE :: nat where "LOGSIZE = MAXOPBLOCKS * 3"
definition NBUF :: nat where "NBUF = MAXOPBLOCKS * 3"
definition FSSIZE :: nat where "FSSIZE = 2000"
definition MAXPATH :: nat where "MAXPATH = 128"

lemmas param_defs = NPROC_def NCPU_def NOFILE_def NFILE_def NINODE_def NDEV_def ROOTDEV_def
  MAXARG_def MAXOPBLOCKS_def LOGSIZE_def NBUF_def FSSIZE_def MAXPATH_def

end
