(* ===== verification/Spinlock.thy ===== *)
theory Spinlock
  imports Xv6_Prelude
begin

text \<open>
  \<^verbatim>\<open>kernel/spinlock.c\<close>: spin locks with interrupt-disable nesting. The first part translates
  every function of the file; the second gives \<open>acquire\<close> and \<open>release\<close> as interleaved atomic
  instructions of several CPUs and proves mutual exclusion for every interleaving.
\<close>

section \<open>Data: struct spinlock, struct cpu\<close>

record spinlock =
  locked :: uint
  lk_name :: string
  lk_cpu :: "nat option"

text \<open>The registers \<^verbatim>\<open>swtch\<close> saves and restores, \<^verbatim>\<open>struct context\<close> of \<^verbatim>\<open>proc.h\<close>.\<close>

record context_regs =
  cx_ra :: uint64
  cx_sp :: uint64
  cx_s0 :: uint64
  cx_s1 :: uint64
  cx_s2 :: uint64
  cx_s3 :: uint64
  cx_s4 :: uint64
  cx_s5 :: uint64
  cx_s6 :: uint64
  cx_s7 :: uint64
  cx_s8 :: uint64
  cx_s9 :: uint64
  cx_s10 :: uint64
  cx_s11 :: uint64

definition zero_context :: context_regs where
  "zero_context = \<lparr>cx_ra = 0, cx_sp = 0, cx_s0 = 0, cx_s1 = 0, cx_s2 = 0, cx_s3 = 0, cx_s4 = 0,
     cx_s5 = 0, cx_s6 = 0, cx_s7 = 0, cx_s8 = 0, cx_s9 = 0, cx_s10 = 0, cx_s11 = 0\<rparr>"

text \<open>
  \<open>intr\<close> is the SIE bit of the hart's \<^verbatim>\<open>sstatus\<close>, read by \<^verbatim>\<open>intr_get\<close>, and \<open>hregs\<close> are the hart's own
  callee-saved registers; the other fields are those of \<^verbatim>\<open>struct cpu\<close>.
\<close>

record cpu =
  cpu_proc :: "nat option"
  cpu_context :: context_regs
  noff :: int
  intena :: bool
  intr :: bool
  hregs :: context_regs

text \<open>The part of the machine the lock code touches: one \<open>cpu\<close> per hart.\<close>

record machine =
  cpus :: "nat \<Rightarrow> cpu"

definition initlock :: "spinlock \<Rightarrow> string \<Rightarrow> spinlock" where
  "initlock lk nm = lk\<lparr>lk_name := nm, locked := 0, lk_cpu := None\<rparr>"

section \<open>push_off and pop_off\<close>

definition upd_cpu :: "nat \<Rightarrow> (cpu \<Rightarrow> cpu) \<Rightarrow> 'a machine_scheme \<Rightarrow> 'a machine_scheme" where
  "upd_cpu c f m = m\<lparr>cpus := (cpus m)(c := f (cpus m c))\<rparr>"

definition intr_get :: "nat \<Rightarrow> 'a machine_scheme \<Rightarrow> bool" where
  "intr_get c m = intr (cpus m c)"

definition intr_off :: "nat \<Rightarrow> 'a machine_scheme \<Rightarrow> 'a machine_scheme" where
  "intr_off c m = upd_cpu c (\<lambda>x. x\<lparr>intr := False\<rparr>) m"

definition intr_on :: "nat \<Rightarrow> 'a machine_scheme \<Rightarrow> 'a machine_scheme" where
  "intr_on c m = upd_cpu c (\<lambda>x. x\<lparr>intr := True\<rparr>) m"

definition push_off :: "nat \<Rightarrow> 'a machine_scheme \<Rightarrow> 'a machine_scheme" where
  "push_off c m =
     (let old = intr_get c m;
          m1 = intr_off c m;
          m2 = (if noff (cpus m1 c) = 0 then upd_cpu c (\<lambda>x. x\<lparr>intena := old\<rparr>) m1 else m1)
      in upd_cpu c (\<lambda>x. x\<lparr>noff := noff x + 1\<rparr>) m2)"

definition pop_off :: "nat \<Rightarrow> 'a machine_scheme \<Rightarrow> 'a machine_scheme res" where
  "pop_off c m =
     (if intr_get c m then Panic ''pop_off - interruptible''
      else if noff (cpus m c) < 1 then Panic ''pop_off''
      else let m1 = upd_cpu c (\<lambda>x. x\<lparr>noff := noff x - 1\<rparr>) m
           in Ok (if noff (cpus m1 c) = 0 \<and> intena (cpus m1 c) then intr_on c m1 else m1))"

section \<open>acquire, release, holding\<close>

definition holding :: "nat \<Rightarrow> spinlock \<Rightarrow> bool" where
  "holding c lk \<longleftrightarrow> locked lk \<noteq> 0 \<and> lk_cpu lk = Some c"

text \<open>
  \<^verbatim>\<open>acquire\<close> run to completion by CPU \<open>c\<close> while no other CPU moves: the atomic swap either
  finds the lock free, or the loop spins for ever (\<open>Hang\<close>).
\<close>

definition acquire ::
  "nat \<Rightarrow> 'a machine_scheme \<Rightarrow> spinlock \<Rightarrow> ('a machine_scheme \<times> spinlock) res" where
  "acquire c m lk =
     (let m1 = push_off c m
      in if holding c lk then Panic ''acquire''
         else if locked lk \<noteq> 0 then Hang
         else Ok (m1, lk\<lparr>locked := 1, lk_cpu := Some c\<rparr>))"

definition release ::
  "nat \<Rightarrow> 'a machine_scheme \<Rightarrow> spinlock \<Rightarrow> ('a machine_scheme \<times> spinlock) res" where
  "release c m lk =
     (if \<not> holding c lk then Panic ''release''
      else let lk1 = lk\<lparr>lk_cpu := None\<rparr>;
               lk2 = lk1\<lparr>locked := 0\<rparr>
           in rbind (pop_off c m) (\<lambda>m1. Ok (m1, lk2)))"


section \<open>Sequential laws: a lock bracket restores lock and interrupt state\<close>

text \<open>
  \<open>cpu_ok\<close> is the discipline of \<^verbatim>\<open>push_off\<close>/\<^verbatim>\<open>pop_off\<close>: the nesting depth is never negative,
  and interrupts are off whenever it is positive.
\<close>

definition cpu_ok :: "cpu \<Rightarrow> bool" where
  "cpu_ok x \<longleftrightarrow> 0 \<le> noff x \<and> (0 < noff x \<longrightarrow> \<not> intr x)"

definition lock_free :: "spinlock \<Rightarrow> bool" where
  "lock_free lk \<longleftrightarrow> locked lk = 0 \<and> lk_cpu lk = None"

text \<open>The only trace a matched pair leaves: \<open>intena\<close> records the interrupt flag.\<close>

definition after_lock :: "nat \<Rightarrow> 'a machine_scheme \<Rightarrow> 'a machine_scheme" where
  "after_lock c m =
     upd_cpu c (\<lambda>x. x\<lparr>intena := (if noff x = 0 then intr x else intena x)\<rparr>) m"

lemmas cpu_defs = upd_cpu_def intr_get_def intr_off_def intr_on_def

lemma push_off_cpu:
  "cpus (push_off c m) c =
     (cpus m c)\<lparr>intr := False, noff := noff (cpus m c) + 1,
       intena := (if noff (cpus m c) = 0 then intr (cpus m c) else intena (cpus m c))\<rparr>"
  by (simp add: push_off_def cpu_defs Let_def)

lemma push_off_other: "d \<noteq> c \<Longrightarrow> cpus (push_off c m) d = cpus m d"
  by (simp add: push_off_def cpu_defs Let_def)

lemma push_off_ok: "cpu_ok (cpus m c) \<Longrightarrow> cpu_ok (cpus (push_off c m) c)"
  by (simp add: push_off_cpu cpu_ok_def)

lemma push_off_upd:
  "push_off c m = m\<lparr>cpus := (cpus m)(c := (cpus m c)\<lparr>intr := False, noff := noff (cpus m c) + 1,
       intena := (if noff (cpus m c) = 0 then intr (cpus m c) else intena (cpus m c))\<rparr>)\<rparr>"
  by (rule machine.equality)
     (auto simp: push_off_def cpu_defs Let_def intro!: ext cpu.equality)

lemma pop_push_off: "cpu_ok (cpus m c) \<Longrightarrow> pop_off c (push_off c m) = Ok (after_lock c m)"
  by (auto simp: push_off_upd pop_off_def after_lock_def cpu_defs Let_def cpu_ok_def
      intro!: machine.equality ext cpu.equality split: if_splits)

lemma after_lock_cpu:
  "cpu_ok (cpus (after_lock c m) d) = cpu_ok (cpus m d)"
  "intr (cpus (after_lock c m) d) = intr (cpus m d)"
  "noff (cpus (after_lock c m) d) = noff (cpus m d)"
  by (auto simp: after_lock_def cpu_defs cpu_ok_def)

lemma acquire_free:
  "lock_free lk \<Longrightarrow> acquire c m lk = Ok (push_off c m, lk\<lparr>locked := 1, lk_cpu := Some c\<rparr>)"
  by (simp add: acquire_def lock_free_def holding_def)

lemma release_held:
  assumes "cpu_ok (cpus m c)" and "lock_free lk"
  shows "release c (push_off c m) (lk\<lparr>locked := 1, lk_cpu := Some c\<rparr>) = Ok (after_lock c m, lk)"
  using assms by (simp add: release_def holding_def pop_push_off lock_free_def)

section \<open>Interleaved execution by several CPUs\<close>

text \<open>
  The program points of a CPU that uses one lock, one per shared-memory access of
  \<^verbatim>\<open>acquire\<close> and \<^verbatim>\<open>release\<close>. \<open>Critical\<close> is the code between the two calls.
\<close>

datatype lpc = Outside | AcqCheck | AcqSwap | AcqSetCpu | Critical | RelSwap | RelPop
  | LPanic string

record lock_state = machine +
  slk :: spinlock
  pc :: "nat \<Rightarrow> lpc"

inductive lock_step :: "lock_state \<Rightarrow> lock_state \<Rightarrow> bool" where
  acq_push: "pc s c = Outside \<Longrightarrow>
     lock_step s ((push_off c s)\<lparr>pc := (pc s)(c := AcqCheck)\<rparr>)"
| acq_check: "pc s c = AcqCheck \<Longrightarrow> \<not> holding c (slk s) \<Longrightarrow>
     lock_step s (s\<lparr>pc := (pc s)(c := AcqSwap)\<rparr>)"
| acq_panic: "pc s c = AcqCheck \<Longrightarrow> holding c (slk s) \<Longrightarrow>
     lock_step s (s\<lparr>pc := (pc s)(c := LPanic ''acquire'')\<rparr>)"
| acq_spin: "pc s c = AcqSwap \<Longrightarrow> locked (slk s) \<noteq> 0 \<Longrightarrow>
     lock_step s (s\<lparr>slk := (slk s)\<lparr>locked := 1\<rparr>\<rparr>)"
| acq_swap: "pc s c = AcqSwap \<Longrightarrow> locked (slk s) = 0 \<Longrightarrow>
     lock_step s (s\<lparr>slk := (slk s)\<lparr>locked := 1\<rparr>, pc := (pc s)(c := AcqSetCpu)\<rparr>)"
| acq_set: "pc s c = AcqSetCpu \<Longrightarrow>
     lock_step s (s\<lparr>slk := (slk s)\<lparr>lk_cpu := Some c\<rparr>, pc := (pc s)(c := Critical)\<rparr>)"
| rel_clear: "pc s c = Critical \<Longrightarrow> holding c (slk s) \<Longrightarrow>
     lock_step s (s\<lparr>slk := (slk s)\<lparr>lk_cpu := None\<rparr>, pc := (pc s)(c := RelSwap)\<rparr>)"
| rel_panic: "pc s c = Critical \<Longrightarrow> \<not> holding c (slk s) \<Longrightarrow>
     lock_step s (s\<lparr>pc := (pc s)(c := LPanic ''release'')\<rparr>)"
| rel_swap: "pc s c = RelSwap \<Longrightarrow>
     lock_step s (s\<lparr>slk := (slk s)\<lparr>locked := 0\<rparr>, pc := (pc s)(c := RelPop)\<rparr>)"
| rel_pop: "pc s c = RelPop \<Longrightarrow> pop_off c s = Ok s' \<Longrightarrow>
     lock_step s (s'\<lparr>pc := (pc s)(c := Outside)\<rparr>)"
| rel_pop_panic: "pc s c = RelPop \<Longrightarrow> pop_off c s = Panic msg \<Longrightarrow>
     lock_step s (s\<lparr>pc := (pc s)(c := LPanic msg)\<rparr>)"

definition lock_init :: "lock_state \<Rightarrow> bool" where
  "lock_init s \<longleftrightarrow> lock_free (slk s) \<and> (\<forall>c. pc s c = Outside \<and> cpu_ok (cpus s c))"

inductive lock_reach :: "lock_state \<Rightarrow> bool" where
  lr_init: "lock_init s \<Longrightarrow> lock_reach s"
| lr_step: "lock_reach s \<Longrightarrow> lock_step s t \<Longrightarrow> lock_reach t"

text \<open>A CPU owns the lock word from its successful swap to the swap of its release.\<close>

definition owns :: "lpc \<Rightarrow> bool" where
  "owns q \<longleftrightarrow> q \<in> {AcqSetCpu, Critical, RelSwap}"

lemma owns_simps [simp]:
  "owns AcqSetCpu" "owns Critical" "owns RelSwap"
  "\<not> owns Outside" "\<not> owns AcqCheck" "\<not> owns AcqSwap" "\<not> owns RelPop" "\<not> owns (LPanic m)"
  by (simp_all add: owns_def)

text \<open>The invariant names the owner, if there is one.\<close>

definition lock_inv_of :: "nat option \<Rightarrow> lock_state \<Rightarrow> bool" where
  "lock_inv_of ow s \<longleftrightarrow>
     (\<forall>c. owns (pc s c) \<longleftrightarrow> ow = Some c) \<and>
     (locked (slk s) \<noteq> 0 \<longleftrightarrow> ow \<noteq> None) \<and>
     (\<forall>c. lk_cpu (slk s) = Some c \<longleftrightarrow> pc s c = Critical) \<and>
     (\<forall>c. cpu_ok (cpus s c)) \<and>
     (\<forall>c. pc s c \<noteq> Outside \<longrightarrow> 0 < noff (cpus s c)) \<and>
     (\<forall>c m. pc s c \<noteq> LPanic m)"

definition lock_inv :: "lock_state \<Rightarrow> bool" where
  "lock_inv s \<longleftrightarrow> (\<exists>ow. lock_inv_of ow s)"

lemma lock_inv_init: "lock_init s \<Longrightarrow> lock_inv s"
  by (auto simp: lock_inv_def lock_inv_of_def lock_init_def lock_free_def intro!: exI [of _ None])

lemma pop_off_Ok_cpu:
  assumes "pop_off c m = Ok m'" and "\<forall>d. cpu_ok (cpus m d)"
  shows "\<forall>d. cpu_ok (cpus m' d)" and "\<forall>d. d \<noteq> c \<longrightarrow> cpus m' d = cpus m d"
  using assms by (auto simp: pop_off_def cpu_defs cpu_ok_def Let_def split: if_splits)

lemma pop_off_not_panic:
  "cpu_ok (cpus m c) \<Longrightarrow> 0 < noff (cpus m c) \<Longrightarrow> pop_off c m \<noteq> Panic msg"
  by (simp add: pop_off_def cpu_ok_def intr_get_def Let_def)

lemma lock_inv_of_at:
  assumes "lock_inv_of ow s"
  shows "owns (pc s c) \<longleftrightarrow> ow = Some c" and "lk_cpu (slk s) = Some c \<longleftrightarrow> pc s c = Critical"
    and "cpu_ok (cpus s c)"
    and "pc s c \<noteq> Outside \<longrightarrow> 0 < noff (cpus s c)"
  using assms by (simp_all add: lock_inv_of_def)

lemma lock_step_inv_of:
  assumes "lock_step s t" and "lock_inv_of ow s"
  shows "\<exists>ow'. lock_inv_of ow' t"
  using assms
proof (induction rule: lock_step.induct)
  case (acq_push s c)
  with lock_inv_of_at [OF acq_push.prems, of c] show ?case
    by (intro exI [of _ ow]) (auto simp: lock_inv_of_def push_off_upd cpu_ok_def)
next
  case (acq_check s c)
  with lock_inv_of_at [OF acq_check.prems, of c] show ?case
    by (intro exI [of _ ow]) (auto simp: lock_inv_of_def)
next
  case (acq_panic s c)
  with lock_inv_of_at [OF acq_panic.prems, of c] show ?case
    by (auto simp: lock_inv_of_def holding_def)
next
  case (acq_spin s c)
  with lock_inv_of_at [OF acq_spin.prems, of c] show ?case
    by (intro exI [of _ ow]) (auto simp: lock_inv_of_def)
next
  case (acq_swap s c)
  with lock_inv_of_at [OF acq_swap.prems, of c] show ?case
    by (intro exI [of _ "Some c"]) (auto simp: lock_inv_of_def)
next
  case (acq_set s c)
  with lock_inv_of_at [OF acq_set.prems, of c] show ?case
    by (intro exI [of _ ow]) (auto simp: lock_inv_of_def)
next
  case (rel_clear s c)
  with lock_inv_of_at [OF rel_clear.prems, of c] show ?case
    by (intro exI [of _ ow]) (auto simp: lock_inv_of_def holding_def)
next
  case (rel_panic s c)
  with lock_inv_of_at [OF rel_panic.prems, of c] show ?case
    by (auto simp: lock_inv_of_def holding_def)
next
  case (rel_swap s c)
  with lock_inv_of_at [OF rel_swap.prems, of c] show ?case
    by (intro exI [of _ None]) (auto simp: lock_inv_of_def)
next
  case (rel_pop s c s')
  have same: "slk s' = slk s" "pc s' = pc s"
    using rel_pop.hyps by (auto simp: pop_off_def cpu_defs Let_def split: if_splits)
  have ok: "\<forall>d. cpu_ok (cpus s' d)" "\<forall>d. d \<noteq> c \<longrightarrow> cpus s' d = cpus s d"
    using pop_off_Ok_cpu [OF rel_pop.hyps(2)] rel_pop.prems by (auto simp: lock_inv_of_def)
  show ?case
    using rel_pop ok same lock_inv_of_at [OF rel_pop.prems, of c] by (intro exI [of _ ow]) (auto simp: lock_inv_of_def)
next
  case (rel_pop_panic s c msg)
  then have "pop_off c s \<noteq> Panic msg"
    by (intro pop_off_not_panic) (auto simp: lock_inv_of_def)
  with rel_pop_panic show ?case by simp
qed

lemma lock_step_inv: "lock_step s t \<Longrightarrow> lock_inv s \<Longrightarrow> lock_inv t"
  unfolding lock_inv_def using lock_step_inv_of by blast

lemma lock_reach_inv: "lock_reach s \<Longrightarrow> lock_inv s"
  by (induction rule: lock_reach.induct) (auto intro: lock_inv_init lock_step_inv)

section \<open>Properties\<close>

text \<open>
  C1. Mutual exclusion under every interleaving of any number of CPUs: from a free lock, whatever
  order the atomic instructions of \<^verbatim>\<open>acquire\<close> and \<^verbatim>\<open>release\<close> execute in, no two CPUs are past
  their successful swap at once; the CPU in its critical section has interrupts disabled and
  \<^verbatim>\<open>holding()\<close> is true for it and for no other CPU; and none of the panics in \<^verbatim>\<open>acquire\<close>,
  \<^verbatim>\<open>release\<close> and \<^verbatim>\<open>pop_off\<close> is reached.
\<close>

theorem spinlock_mutual_exclusion:
  assumes "lock_reach s"
  shows "(\<forall>c d. owns (pc s c) \<and> owns (pc s d) \<longrightarrow> c = d) \<and>
    (\<forall>c. pc s c = Critical \<longrightarrow> \<not> intr (cpus s c) \<and> (\<forall>d. holding d (slk s) \<longleftrightarrow> d = c)) \<and>
    (\<forall>c msg. pc s c \<noteq> LPanic msg)"
proof -
  obtain ow where inv: "lock_inv_of ow s"
    using lock_reach_inv [OF assms] by (auto simp: lock_inv_def)
  note at = lock_inv_of_at [OF inv]
  have "c = d" if "owns (pc s c)" "owns (pc s d)" for c d
    using at(1) [of c] at(1) [of d] that by simp
  moreover have "\<not> intr (cpus s c) \<and> (\<forall>d. holding d (slk s) \<longleftrightarrow> d = c)" if "pc s c = Critical" for c
    using that at [of c] inv by (auto simp: lock_inv_of_def cpu_ok_def holding_def)
  moreover have "pc s c \<noteq> LPanic msg" for c msg using inv by (simp add: lock_inv_of_def)
  ultimately show ?thesis by blast
qed

definition demo_cpu :: cpu where
  "demo_cpu = \<lparr>cpu_proc = None, cpu_context = zero_context, noff = 0, intena = False, intr = True, hregs = zero_context\<rparr>"

definition demo_lock :: spinlock where
  "demo_lock = \<lparr>locked = 0, lk_name = ''demo'', lk_cpu = None\<rparr>"

definition demo_start :: lock_state where
  "demo_start = \<lparr>cpus = (\<lambda>_. demo_cpu), slk = demo_lock, pc = (\<lambda>_. Outside)\<rparr>"

definition demo_swapped :: lock_state where
  "demo_swapped = (push_off 0 demo_start)
     \<lparr>pc := (\<lambda>_. Outside)(0 := AcqSetCpu), slk := demo_lock\<lparr>locked := 1\<rparr>\<rparr>"

lemma demo_reach: "lock_reach demo_start"
  by (rule lr_init)
     (simp add: lock_init_def demo_start_def demo_lock_def lock_free_def cpu_ok_def demo_cpu_def)

lemma push_off_lock_state [simp]: "slk (push_off c s) = slk s" "pc (push_off c s) = pc s"
  by (simp_all add: push_off_upd)

lemma demo_swapped_reach: "lock_reach demo_swapped"
proof -
  let ?s1 = "(push_off 0 demo_start)\<lparr>pc := (pc demo_start)(0 := AcqCheck)\<rparr>"
  let ?s2 = "?s1\<lparr>pc := (pc ?s1)(0 := AcqSwap)\<rparr>"
  let ?s3 = "?s2\<lparr>slk := (slk ?s2)\<lparr>locked := 1\<rparr>, pc := (pc ?s2)(0 := AcqSetCpu)\<rparr>"
  have free: "slk demo_start = demo_lock" by (simp add: demo_start_def)
  have "lock_step demo_start ?s1" by (rule acq_push) (simp add: demo_start_def)
  then have 1: "lock_reach ?s1" by (rule lr_step [OF demo_reach])
  have "lock_step ?s1 ?s2" by (rule acq_check) (simp_all add: free holding_def demo_lock_def)
  then have 2: "lock_reach ?s2" by (rule lr_step [OF 1])
  have "lock_step ?s2 ?s3" by (rule acq_swap) (simp_all add: free demo_lock_def)
  then have "lock_reach ?s3" by (rule lr_step [OF 2])
  moreover have "?s3 = demo_swapped"
    by (simp add: demo_swapped_def free) (simp add: demo_start_def push_off_upd)
  ultimately show ?thesis by simp
qed

theorem spinlock_mutual_exclusion_witness:
  "lock_reach demo_swapped \<and> owns (pc demo_swapped 0) \<and>
   \<not> owns (pc demo_swapped 1) \<and> pc demo_swapped 0 \<noteq> LPanic ''acquire''"
proof -
  have own: "owns (pc demo_swapped 0)" by (simp add: demo_swapped_def)
  show ?thesis
    using demo_swapped_reach own spinlock_mutual_exclusion [OF demo_swapped_reach] zero_neq_one by blast
qed

text \<open>
  C2. A lock bracket leaves no trace: if the lock is free and the CPU's nesting discipline holds,
  \<^verbatim>\<open>acquire\<close> succeeds, the matching \<^verbatim>\<open>release\<close> succeeds, the lock is as before, and the CPU's
  interrupt-enable flag and nesting depth are as before (only \<^verbatim>\<open>intena\<close> may differ).
\<close>

theorem lock_bracket_restores:
  assumes "cpu_ok (cpus m c)" and "lock_free lk"
  shows "\<exists>m'. rbind (acquire c m lk) (\<lambda>(m1, lk1). release c m1 lk1) = Ok (m', lk) \<and>
           intr (cpus m' c) = intr (cpus m c) \<and> noff (cpus m' c) = noff (cpus m c) \<and>
           (\<forall>d. d \<noteq> c \<longrightarrow> cpus m' d = cpus m d)"
proof (intro exI conjI)
  show "rbind (acquire c m lk) (\<lambda>(m1, lk1). release c m1 lk1) = Ok (after_lock c m, lk)"
    using assms by (simp add: acquire_free release_held)
qed (simp_all add: after_lock_cpu, simp add: after_lock_def upd_cpu_def)

theorem lock_bracket_restores_witness:
  "cpu_ok (cpus demo_start 0) \<and> lock_free (slk demo_start) \<and>
   (\<exists>m'. rbind (acquire 0 demo_start (slk demo_start)) (\<lambda>(m1, lk1). release 0 m1 lk1)
           = Ok (m', slk demo_start) \<and> intr (cpus m' 0))"
proof -
  have h: "cpu_ok (cpus demo_start 0)" "lock_free (slk demo_start)"
    by (simp_all add: demo_start_def demo_cpu_def demo_lock_def cpu_ok_def lock_free_def)
  obtain m' where m': "rbind (acquire 0 demo_start (slk demo_start)) (\<lambda>(m1, lk1). release 0 m1 lk1)
      = Ok (m', slk demo_start)" and "intr (cpus m' 0) = intr (cpus demo_start 0)"
    using lock_bracket_restores [OF h] by blast
  then have "intr (cpus m' 0)" by (simp add: demo_start_def demo_cpu_def)
  with h m' show ?thesis by blast
qed

end
