(* ===== verification/C_Memory.thy ===== *)
theory C_Memory
  imports Xv6_Prelude
begin

text \<open>
  Byte-addressed memory, the 64-bit loads and stores of pointer fields, and \<^verbatim>\<open>kernel/string.c\<close>
  on it. Addresses are 64-bit words and wrap; \<open>off a d\<close> is the distance of \<open>a\<close> above \<open>d\<close>.
\<close>

type_synonym memory = "uint64 \<Rightarrow> uchar"

unbundle bit_operations_syntax

definition off :: "uint64 \<Rightarrow> uint64 \<Rightarrow> nat" where
  "off a d = unat (a - d)"

section \<open>string.c\<close>

fun memset_loop :: "memory \<Rightarrow> uint64 \<Rightarrow> uchar \<Rightarrow> nat \<Rightarrow> nat \<Rightarrow> memory" where
  "memset_loop m cdst c i 0 = m"
| "memset_loop m cdst c i (Suc k) = memset_loop (m(cdst + of_nat i := c)) cdst c (Suc i) k"

definition memset :: "memory \<Rightarrow> uint64 \<Rightarrow> uint \<Rightarrow> uint \<Rightarrow> memory" where
  "memset m dst c n = memset_loop m dst (ucast c) 0 (unat n)"

fun memcmp_loop :: "memory \<Rightarrow> uint64 \<Rightarrow> uint64 \<Rightarrow> nat \<Rightarrow> int" where
  "memcmp_loop m s1 s2 0 = 0"
| "memcmp_loop m s1 s2 (Suc n) =
     (if m s1 \<noteq> m s2 then uint (m s1) - uint (m s2) else memcmp_loop m (s1 + 1) (s2 + 1) n)"

definition memcmp :: "memory \<Rightarrow> uint64 \<Rightarrow> uint64 \<Rightarrow> uint \<Rightarrow> int" where
  "memcmp m v1 v2 n = memcmp_loop m v1 v2 (unat n)"

fun move_down :: "memory \<Rightarrow> uint64 \<Rightarrow> uint64 \<Rightarrow> nat \<Rightarrow> memory" where
  "move_down m d s 0 = m"
| "move_down m d s (Suc n) = move_down (m(d - 1 := m (s - 1))) (d - 1) (s - 1) n"

fun move_up :: "memory \<Rightarrow> uint64 \<Rightarrow> uint64 \<Rightarrow> nat \<Rightarrow> memory" where
  "move_up m d s 0 = m"
| "move_up m d s (Suc n) = move_up (m(d := m s)) (d + 1) (s + 1) n"

definition memmove :: "memory \<Rightarrow> uint64 \<Rightarrow> uint64 \<Rightarrow> uint \<Rightarrow> memory" where
  "memmove m dst src n =
     (if n = 0 then m
      else if src < dst \<and> src + ucast n > dst
      then move_down m (dst + ucast n) (src + ucast n) (unat n)
      else move_up m dst src (unat n))"

definition memcpy :: "memory \<Rightarrow> uint64 \<Rightarrow> uint64 \<Rightarrow> uint \<Rightarrow> memory" where
  "memcpy m dst src n = memmove m dst src n"

fun strncmp_loop :: "memory \<Rightarrow> uint64 \<Rightarrow> uint64 \<Rightarrow> nat \<Rightarrow> int" where
  "strncmp_loop m p q 0 = 0"
| "strncmp_loop m p q (Suc n) =
     (if m p \<noteq> 0 \<and> m p = m q then strncmp_loop m (p + 1) (q + 1) n
      else uint (m p) - uint (m q))"

definition strncmp :: "memory \<Rightarrow> uint64 \<Rightarrow> uint64 \<Rightarrow> uint \<Rightarrow> int" where
  "strncmp m p q n = strncmp_loop m p q (unat n)"

fun zero_fill :: "memory \<Rightarrow> uint64 \<Rightarrow> nat \<Rightarrow> memory" where
  "zero_fill m s 0 = m"
| "zero_fill m s (Suc n) = zero_fill (m(s := 0)) (s + 1) n"

fun strncpy_loop :: "memory \<Rightarrow> uint64 \<Rightarrow> uint64 \<Rightarrow> nat \<Rightarrow> memory" where
  "strncpy_loop m s t 0 = m"
| "strncpy_loop m s t (Suc n) =
     (let m1 = m(s := m t)
      in if m t \<noteq> 0 then strncpy_loop m1 (s + 1) (t + 1) n else zero_fill m1 (s + 1) n)"

definition strncpy :: "memory \<Rightarrow> uint64 \<Rightarrow> uint64 \<Rightarrow> int \<Rightarrow> memory" where
  "strncpy m s t n = strncpy_loop m s t (nat n)"

text \<open>\<open>n\<close> counts the pre-decrements that leave a positive value.\<close>

fun safestrcpy_loop :: "memory \<Rightarrow> uint64 \<Rightarrow> uint64 \<Rightarrow> nat \<Rightarrow> memory" where
  "safestrcpy_loop m s t 0 = m(s := 0)"
| "safestrcpy_loop m s t (Suc n) =
     (let m1 = m(s := m t)
      in if m t \<noteq> 0 then safestrcpy_loop m1 (s + 1) (t + 1) n else m1(s + 1 := 0))"

definition safestrcpy :: "memory \<Rightarrow> uint64 \<Rightarrow> uint64 \<Rightarrow> int \<Rightarrow> memory" where
  "safestrcpy m s t n = (if n \<le> 0 then m else safestrcpy_loop m s t (nat (n - 1)))"

text \<open>Counting past the range of \<^verbatim>\<open>int\<close> is undefined.\<close>

fun strlen_loop :: "memory \<Rightarrow> uint64 \<Rightarrow> nat \<Rightarrow> nat \<Rightarrow> nat res" where
  "strlen_loop m s n 0 = Fault"
| "strlen_loop m s n (Suc k) =
     (if m (s + of_nat n) \<noteq> 0 then strlen_loop m s (Suc n) k else Ok n)"

definition strlen :: "memory \<Rightarrow> uint64 \<Rightarrow> nat res" where
  "strlen m s = strlen_loop m s 0 (2 ^ 31)"

section \<open>Offsets\<close>

lemma unat_lt: "unat (w :: 'a::len word) < 2 ^ LENGTH('a)"
  by (rule unsigned_less)

lemma unat_of_nat64: "i < 2 ^ 64 \<Longrightarrow> unat (of_nat i :: uint64) = i"
  by (simp add: unat_of_nat)

lemma off_eq: "i < 2 ^ 64 \<Longrightarrow> off a d = i \<longleftrightarrow> a = d + of_nat i"
proof -
  assume i: "i < 2 ^ 64"
  have "off a d = i \<longleftrightarrow> a - d = of_nat i"
    using unat_of_nat64 [OF i] unfolding off_def by (metis of_nat_unat ucast_id)
  also have "\<dots> \<longleftrightarrow> a = d + of_nat i" by (auto simp: algebra_simps)
  finally show ?thesis .
qed

lemma off_add [simp]: "i < 2 ^ 64 \<Longrightarrow> off (d + of_nat i) d = i"
  by (simp add: off_eq)

lemma off_less: "off a d < 2 ^ 64"
  unfolding off_def using unat_lt [of "a - d"] by simp

lemma off_base: "a = d + of_nat (off a d)"
  by (simp add: off_def)

lemma off_Suc: "off a d \<noteq> 0 \<Longrightarrow> off a (d + 1) = off a d - 1"
proof -
  assume "off a d \<noteq> 0"
  then have "a - d \<noteq> 0" by (simp add: off_def unat_0_iff)
  then show ?thesis unfolding off_def by (metis diff_diff_eq unat_minus_one)
qed

lemma off_wrap: "off d (d + 1) = 2 ^ 64 - 1"
  unfolding off_def by (simp add: unsigned_minus_1_eq_mask mask_eq_exp_minus_1)

lemma off_zero: "off a d = 0 \<longleftrightarrow> a = d"
  by (simp add: off_def unat_0_iff)

lemma off_self [simp]: "off d d = 0"
  by (simp add: off_zero)

section \<open>What the loops compute\<close>

lemma memset_loop_eq:
  "i + k \<le> 2 ^ 64 \<Longrightarrow>
   memset_loop m d c i k = (\<lambda>a. if i \<le> off a d \<and> off a d < i + k then c else m a)"
proof (induction k arbitrary: m i)
  case (Suc k)
  have o: "a = d + of_nat i \<longleftrightarrow> off a d = i" for a by (rule off_eq [symmetric]) (use Suc.prems in simp)
  have "memset_loop (m(d + of_nat i := c)) d c (Suc i) k =
      (\<lambda>a. if Suc i \<le> off a d \<and> off a d < Suc i + k then c else (m(d + of_nat i := c)) a)"
    using Suc.prems by (intro Suc.IH) simp
  then show ?case by (auto simp: fun_eq_iff o)
qed (auto simp: fun_eq_iff)

lemma memset_eq: "memset m d c n = (\<lambda>a. if off a d < unat n then ucast c else m a)"
proof -
  have "unat n \<le> 2 ^ 64" using unat_lt [of n] by simp
  then show ?thesis unfolding memset_def by (simp add: memset_loop_eq)
qed

lemma move_up_eq:
  "n \<le> 2 ^ 64 \<Longrightarrow> (\<And>i. 0 < i \<Longrightarrow> i < n \<Longrightarrow> s + of_nat i \<noteq> d) \<Longrightarrow>
   move_up m d s n = (\<lambda>a. if off a d < n then m (s + (a - d)) else m a)"
proof (induction n arbitrary: m d s)
  case (Suc n)
  have IH: "move_up (m(d := m s)) (d + 1) (s + 1) n =
      (\<lambda>a. if off a (d + 1) < n then (m(d := m s)) (s + 1 + (a - (d + 1))) else (m(d := m s)) a)"
  proof (rule Suc.IH)
    fix i assume "0 < i" "i < n"
    then show "s + 1 + of_nat i \<noteq> d + 1" using Suc.prems(2) [of i] by (simp add: algebra_simps)
  qed (use Suc.prems(1) in simp)
  show ?case
  proof
    fix a
    show "move_up m d s (Suc n) a = (if off a d < Suc n then m (s + (a - d)) else m a)"
    proof (cases "a = d")
      case True
      then show ?thesis using IH off_wrap [of d] Suc.prems(1) by simp
    next
      case False
      then have o: "off a (d + 1) = off a d - 1" "0 < off a d" using off_Suc [of a d] off_zero [of a d] by linarith+
      have e: "s + 1 + (a - (d + 1)) = s + (a - d)" by (simp add: algebra_simps)
      have "s + (a - d) \<noteq> d" if "off a d < Suc n"
        using Suc.prems(2) [of "off a d"] that o(2) by (simp add: off_def)
      then show ?thesis using IH o False unfolding e by auto
    qed
  qed
qed simp

lemma move_down_eq:
  "n \<le> 2 ^ 64 \<Longrightarrow> (\<And>i. 0 < i \<Longrightarrow> i < n \<Longrightarrow> s \<noteq> d + of_nat i) \<Longrightarrow>
   move_down m (d + of_nat n) (s + of_nat n) n = (\<lambda>a. if off a d < n then m (s + (a - d)) else m a)"
proof (induction n arbitrary: m)
  case (Suc n)
  let ?m = "m(d + of_nat n := m (s + of_nat n))"
  have IH: "move_down ?m (d + of_nat n) (s + of_nat n) n = (\<lambda>a. if off a d < n then ?m (s + (a - d)) else ?m a)"
    by (rule Suc.IH) (use Suc.prems in auto)
  show ?case
  proof
    fix a
    have last: "off a d = n \<longleftrightarrow> a = d + of_nat n" by (rule off_eq) (use Suc.prems(1) in simp)
    have "s + (a - d) \<noteq> d + of_nat n" if "off a d < n"
    proof
      assume "s + (a - d) = d + of_nat n"
      then have "s = d + (of_nat n - (a - d))" by (simp add: algebra_simps)
      also have "of_nat n - (a - d) = of_nat (n - off a d)" using that by (simp add: off_def of_nat_diff)
      finally show False using Suc.prems(2) [of "n - off a d"] that less_Suc_eq_le by force
    qed
    then show "move_down m (d + of_nat (Suc n)) (s + of_nat (Suc n)) (Suc n) a =
        (if off a d < Suc n then m (s + (a - d)) else m a)"
      using IH last by (auto simp: less_Suc_eq algebra_simps)
  qed
qed simp

lemma memmove_eq:
  assumes "unat src + unat n < 2 ^ 64" and "unat dst + unat n < 2 ^ 64"
  shows "memmove m dst src n = (\<lambda>a. if off a dst < unat n then m (src + (a - dst)) else m a)"
proof -
  have n: "unat (ucast n :: uint64) = unat n" "unat n \<le> 2 ^ 64"
    using unat_lt [of n] unat_of_nat64 [of "unat n"] by simp_all
  show ?thesis
  proof (cases "src < dst \<and> src + ucast n > dst")
    case True
    have "src \<noteq> dst + of_nat i" if "0 < i" "i < unat n" for i
    proof
      assume "src = dst + of_nat i"
      then have "unat src = unat dst + i"
        using that assms(2) unat_of_nat64 [of i] by (simp add: unat_plus_if')
      then show False using True by (simp add: word_less_nat_alt)
    qed
    then have "move_down m (dst + of_nat (unat n)) (src + of_nat (unat n)) (unat n) =
        (\<lambda>a. if off a dst < unat n then m (src + (a - dst)) else m a)"
      by (rule move_down_eq [OF n(2)])
    moreover have "n \<noteq> 0" using True by auto
    ultimately show ?thesis using True by (simp add: memmove_def)
  next
    case False
    have "src + of_nat i \<noteq> dst" if "0 < i" "i < unat n" for i
    proof
      assume "src + of_nat i = dst"
      then have "unat dst = unat src + i"
        using that assms(1) unat_of_nat64 [of i] by (auto simp: unat_plus_if')
      moreover have "unat (src + ucast n) = unat src + unat n"
        using assms(1) by (simp add: n(1) unat_plus_if')
      ultimately show False using False that by (simp add: word_less_nat_alt)
    qed
    then have "move_up m dst src (unat n) = (\<lambda>a. if off a dst < unat n then m (src + (a - dst)) else m a)"
      by (rule move_up_eq [OF n(2)])
    then show ?thesis using False by (auto simp: memmove_def)
  qed
qed

section \<open>Byte ranges and C strings\<close>

definition bytes :: "memory \<Rightarrow> uint64 \<Rightarrow> nat \<Rightarrow> uchar list" where
  "bytes m a n = map (\<lambda>i. m (a + of_nat i)) [0..<n]"

lemma bytes_0 [simp]: "bytes m a 0 = []"
  by (simp add: bytes_def)

lemma bytes_Suc: "bytes m a (Suc n) = m a # bytes m (a + 1) n"
  by (simp add: bytes_def upt_conv_Cons map_Suc_upt [symmetric] algebra_simps del: upt_Suc)

lemma length_bytes [simp]: "length (bytes m a n) = n"
  by (simp add: bytes_def)

lemma nth_bytes [simp]: "i < n \<Longrightarrow> bytes m a n ! i = m (a + of_nat i)"
  by (simp add: bytes_def)

text \<open>\<open>cstr m s xs\<close>: at address \<open>s\<close> starts the NUL-terminated string \<open>xs\<close>.\<close>

fun cstr :: "memory \<Rightarrow> uint64 \<Rightarrow> uchar list \<Rightarrow> bool" where
  "cstr m s [] \<longleftrightarrow> m s = 0"
| "cstr m s (x # xs) \<longleftrightarrow> x \<noteq> 0 \<and> m s = x \<and> cstr m (s + 1) xs"

lemma cstr_cong:
  "(\<And>j. j \<le> length xs \<Longrightarrow> m' (t + of_nat j) = m (t + of_nat j)) \<Longrightarrow> cstr m' t xs = cstr m t xs"
proof (induction xs arbitrary: t)
  case (Cons x xs)
  have "m' (t + 1 + of_nat j) = m (t + 1 + of_nat j)" if "j \<le> length xs" for j
    using Cons.prems [of "Suc j"] that by (simp add: algebra_simps)
  then show ?case using Cons.IH [of "t + 1"] Cons.prems [of 0] by simp
qed simp

lemma memcmp_zero: "memcmp m a b n = 0 \<longleftrightarrow> bytes m a (unat n) = bytes m b (unat n)"
proof -
  have "memcmp_loop m a b k = 0 \<longleftrightarrow> bytes m a k = bytes m b k" for a b k
    by (induction k arbitrary: a b) (simp_all add: bytes_Suc word_uint_eq_iff)
  then show ?thesis by (simp add: memcmp_def)
qed

lemma memcmp_less:
  "memcmp m a b n < 0 \<longleftrightarrow> (bytes m a (unat n), bytes m b (unat n)) \<in> lexord {(x, y). x < y}"
proof -
  have "memcmp_loop m a b k < 0 \<longleftrightarrow> (bytes m a k, bytes m b k) \<in> lexord {(x, y). x < y}" for a b k
    by (induction k arbitrary: a b) (auto simp: bytes_Suc word_less_def)
  then show ?thesis by (simp add: memcmp_def)
qed

lemma strlen_eq: "cstr m s xs \<Longrightarrow> length xs < 2 ^ 31 \<Longrightarrow> strlen m s = Ok (length xs)"
proof -
  have "cstr m (s + of_nat i) xs \<Longrightarrow> length xs < k \<Longrightarrow> strlen_loop m s i k = Ok (i + length xs)" for i k
  proof (induction xs arbitrary: i k)
    case Nil
    then show ?case by (cases k) auto
  next
    case (Cons x xs)
    then show ?case by (cases k) (auto simp: algebra_simps)
  qed
  from this [of 0] show "cstr m s xs \<Longrightarrow> length xs < 2 ^ 31 \<Longrightarrow> strlen m s = Ok (length xs)"
    by (simp add: strlen_def)
qed

lemma strncmp_zero:
  "cstr m p xs \<Longrightarrow> cstr m q ys \<Longrightarrow> strncmp m p q n = 0 \<longleftrightarrow> take (unat n) xs = take (unat n) ys"
proof -
  have "cstr m p xs \<Longrightarrow> cstr m q ys \<Longrightarrow> strncmp_loop m p q k = 0 \<longleftrightarrow> take k xs = take k ys" for k
  proof (induction k arbitrary: p q xs ys)
    case (Suc k)
    then show ?case by (cases xs; cases ys) (auto simp: word_uint_eq_iff)
  qed simp
  then show "cstr m p xs \<Longrightarrow> cstr m q ys \<Longrightarrow> ?thesis" by (simp add: strncmp_def)
qed

lemma window_step:
  assumes "\<And>j. j \<le> length (x # xs) \<Longrightarrow> Suc (Suc k) \<le> off (t + of_nat j) s" and "j \<le> length xs"
  shows "Suc k \<le> off (t + 1 + of_nat j) (s + 1)" and "t + 1 + of_nat j \<noteq> s"
proof -
  have "Suc (Suc k) \<le> off (t + 1 + of_nat j) s" using assms(1) [of "Suc j"] assms(2) by (simp add: algebra_simps)
  then show "Suc k \<le> off (t + 1 + of_nat j) (s + 1)" and "t + 1 + of_nat j \<noteq> s"
    using off_Suc [of "t + 1 + of_nat j" s] off_zero [of "t + 1 + of_nat j" s] by linarith+
qed

lemma frame_step:
  assumes "Suc (Suc k) \<le> off a s"
  shows "a \<noteq> s" and "a \<noteq> s + 1" and "Suc k \<le> off a (s + 1)"
proof -
  show "a \<noteq> s" "Suc k \<le> off a (s + 1)" 
    using assms off_Suc [of a s] off_zero [of a s] by linarith+
  then show "a \<noteq> s + 1" by auto
qed

lemma safestrcpy_loop_eq:
  "cstr m t xs \<Longrightarrow> (\<And>j. j \<le> length xs \<Longrightarrow> Suc k \<le> off (t + of_nat j) s) \<Longrightarrow> Suc k < 2 ^ 64 \<Longrightarrow>
   cstr (safestrcpy_loop m s t k) s (take k xs) \<and>
   (\<forall>a. Suc k \<le> off a s \<longrightarrow> safestrcpy_loop m s t k a = m a)"
proof (induction k arbitrary: m s t xs)
  case 0
  then show ?case by auto
next
  case (Suc k)
  show ?case
  proof (cases xs)
    case Nil
    then show ?thesis using Suc.prems frame_step [of k] by (auto simp: Let_def)
  next
    case (Cons x ys)
    let ?m = "m(s := x)"
    have win: "Suc k \<le> off (t + 1 + of_nat j) (s + 1)" "t + 1 + of_nat j \<noteq> s" if "j \<le> length ys" for j
      using window_step [of x ys k t s j] Suc.prems(2) that unfolding Cons by blast+
    have x: "m t = x" "x \<noteq> 0" using Suc.prems(1) Cons by auto
    have "cstr ?m (t + 1) ys"
      by (subst cstr_cong [of ys _ "t + 1" m]) (use win(2) Suc.prems(1) Cons in auto)
    from Suc.IH [OF this win(1)] Suc.prems(3)
    have IH: "cstr (safestrcpy_loop ?m (s + 1) (t + 1) k) (s + 1) (take k ys)"
      "\<And>a. Suc k \<le> off a (s + 1) \<Longrightarrow> safestrcpy_loop ?m (s + 1) (t + 1) k a = ?m a" by (simp_all add: fun_upd_def)
    have run: "safestrcpy_loop m s t (Suc k) = safestrcpy_loop ?m (s + 1) (t + 1) k" using x by (simp add: Let_def)
    have "Suc k \<le> off s (s + 1)" using off_wrap [of s] Suc.prems(3) by simp
    then have "safestrcpy_loop ?m (s + 1) (t + 1) k s = x" using IH(2) [of s] by simp
    moreover have "safestrcpy_loop ?m (s + 1) (t + 1) k a = m a" if "Suc (Suc k) \<le> off a s" for a
      using IH(2) [of a] frame_step [OF that] by simp
    ultimately show ?thesis using IH(1) x unfolding run Cons by simp
  qed
qed

lemma safestrcpy_eq:
  assumes "cstr m t xs" and "0 < n" and "n < 2 ^ 31"
    and "\<And>j. j \<le> length xs \<Longrightarrow> nat n \<le> off (t + of_nat j) s"
  shows "cstr (safestrcpy m s t n) s (take (nat n - 1) xs) \<and>
    (\<forall>a. nat n \<le> off a s \<longrightarrow> safestrcpy m s t n a = m a)"
proof -
  have n: "nat n = Suc (nat (n - 1))" using assms(2) by simp
  have "cstr (safestrcpy_loop m s t (nat (n - 1))) s (take (nat (n - 1)) xs) \<and>
    (\<forall>a. Suc (nat (n - 1)) \<le> off a s \<longrightarrow> safestrcpy_loop m s t (nat (n - 1)) a = m a)"
    by (rule safestrcpy_loop_eq [OF assms(1)]) (use assms n in auto)
  then show ?thesis using n assms(2) by (simp add: safestrcpy_def)
qed

lemma zero_fill_eq: "n \<le> 2 ^ 64 \<Longrightarrow> zero_fill m s n = (\<lambda>a. if off a s < n then 0 else m a)"
proof (induction n arbitrary: m s)
  case (Suc n)
  have "off a s < Suc n \<longleftrightarrow> a = s \<or> off a (s + 1) < n" for a
    using off_Suc [of a s] off_zero [of a s] off_wrap [of s] Suc.prems by (cases "a = s") auto
  then show ?case using Suc by (auto simp: fun_eq_iff)
qed (simp add: fun_eq_iff)

lemma strncpy_loop_eq:
  "cstr m t xs \<Longrightarrow> (\<And>j. j \<le> length xs \<Longrightarrow> k \<le> off (t + of_nat j) s) \<Longrightarrow> k < 2 ^ 64 \<Longrightarrow>
   bytes (strncpy_loop m s t k) s k = take k (xs @ replicate k 0) \<and>
   (\<forall>a. k \<le> off a s \<longrightarrow> strncpy_loop m s t k a = m a)"
proof (induction k arbitrary: m s t xs)
  case 0
  then show ?case by simp
next
  case (Suc k)
  have ssk: "k \<le> off s (s + 1)" using off_wrap [of s] Suc.prems(3) by simp
  have out: "a \<noteq> s" "k \<le> off a (s + 1)" if "Suc k \<le> off a s" for a
    using that off_Suc [of a s] off_zero [of a s] by linarith+
  show ?case
  proof (cases xs)
    case Nil
    have z: "strncpy_loop m s t (Suc k) = zero_fill (m(s := 0)) (s + 1) k" using Suc.prems(1) Nil by simp
    have f: "zero_fill (m(s := 0)) (s + 1) k = (\<lambda>a. if off a (s + 1) < k then 0 else (m(s := 0)) a)"
      by (rule zero_fill_eq) (use Suc.prems(3) in simp)
    have "bytes (zero_fill (m(s := 0)) (s + 1) k) (s + 1) k = replicate k 0"
      unfolding f using Suc.prems(3) by (intro nth_equalityI) auto
    then show ?thesis using ssk unfolding z bytes_Suc f Nil by (auto dest: out(1) out(2) [THEN leD])
  next
    case (Cons x ys)
    let ?m = "m(s := x)"
    have x: "m t = x" "x \<noteq> 0" using Suc.prems(1) Cons by auto
    have win: "Suc k \<le> off (t + 1 + of_nat j) s" if "j \<le> length ys" for j
      using Suc.prems(2) [of "Suc j"] that Cons by (simp add: algebra_simps)
    have "cstr ?m (t + 1) ys"
      by (subst cstr_cong [of ys _ "t + 1" m]) (use win out Suc.prems(1) Cons in auto)
    from Suc.IH [OF this out(2) [OF win]] Suc.prems(3)
    have IH: "bytes (strncpy_loop ?m (s + 1) (t + 1) k) (s + 1) k = take k (ys @ replicate k 0)"
      "\<And>a. k \<le> off a (s + 1) \<Longrightarrow> strncpy_loop ?m (s + 1) (t + 1) k a = ?m a" by (simp_all add: fun_upd_def)
    have run: "strncpy_loop m s t (Suc k) = strncpy_loop ?m (s + 1) (t + 1) k" using x by (simp add: Let_def)
    have "take k (ys @ replicate (Suc k) 0) = take k (ys @ replicate k 0)"
      by (simp flip: replicate_append_same)
    then show ?thesis using IH(1) IH(2) [of s] ssk unfolding run bytes_Suc Cons
      by (auto dest: out(1) simp: IH(2) [OF out(2)])
  qed
qed

lemma strncpy_eq:
  assumes "cstr m t xs" and "0 \<le> n" and "n < 2 ^ 31"
    and "\<And>j. j \<le> length xs \<Longrightarrow> nat n \<le> off (t + of_nat j) s"
  shows "bytes (strncpy m s t n) s (nat n) = take (nat n) (xs @ replicate (nat n) 0) \<and>
    (\<forall>a. nat n \<le> off a s \<longrightarrow> strncpy m s t n a = m a)"
  unfolding strncpy_def by (rule strncpy_loop_eq [OF assms(1)]) (use assms in auto)

section \<open>Loads and stores\<close>

text \<open>An object of the kernel's data segment, as bytes at its address.\<close>

definition put_bytes :: "memory \<Rightarrow> uint64 \<Rightarrow> uchar list \<Rightarrow> memory" where
  "put_bytes m a bs = (\<lambda>b. if off b a < length bs then bs ! off b a else m b)"

definition le_bytes :: "nat \<Rightarrow> uint64 \<Rightarrow> uchar list" where
  "le_bytes n v = map (\<lambda>i. ucast (drop_bit (8 * i) v)) [0..<n]"

text \<open>RISC-V is little-endian.\<close>

definition store64 :: "memory \<Rightarrow> uint64 \<Rightarrow> uint64 \<Rightarrow> memory" where
  "store64 m a v = (\<lambda>b. if off b a < 8 then ucast (drop_bit (8 * off b a) v) else m b)"

fun load_le :: "memory \<Rightarrow> uint64 \<Rightarrow> nat \<Rightarrow> uint64" where
  "load_le m a 0 = 0"
| "load_le m a (Suc n) = ucast (m a) OR push_bit 8 (load_le m (a + 1) n)"

definition load64 :: "memory \<Rightarrow> uint64 \<Rightarrow> uint64" where
  "load64 m a = load_le m a 8"

lemma load_le_bytes:
  "(\<And>i. i < n \<Longrightarrow> m (a + of_nat i) = ucast (drop_bit (8 * i) v)) \<Longrightarrow> load_le m a n = take_bit (8 * n) v"
proof (induction n arbitrary: a v)
  case (Suc n)
  have "load_le m (a + 1) n = take_bit (8 * n) (drop_bit 8 v)"
  proof (rule Suc.IH)
    fix i assume "i < n"
    then show "m (a + 1 + of_nat i) = ucast (drop_bit (8 * i) (drop_bit 8 v))"
      using Suc.prems [of "Suc i"] by (simp add: algebra_simps)
  qed
  moreover have "m a = ucast v" using Suc.prems [of 0] by simp
  ultimately show ?case by (intro bit_word_eqI) (auto simp: bit_simps not_less)
qed simp

lemma load_store: "load64 (store64 m a v) a = v"
proof -
  have "load_le (store64 m a v) a 8 = take_bit (8 * 8) v"
    by (rule load_le_bytes) (simp add: store64_def)
  then show ?thesis by (simp add: load64_def take_bit_word_eq_self)
qed

lemma load_le_cong:
  "(\<And>i. i < n \<Longrightarrow> m' (a + of_nat i) = m (a + of_nat i)) \<Longrightarrow> load_le m' a n = load_le m a n"
proof (induction n arbitrary: a)
  case (Suc n)
  have "load_le m' (a + 1) n = load_le m (a + 1) n"
  proof (rule Suc.IH)
    fix i assume "i < n"
    then show "m' (a + 1 + of_nat i) = m (a + 1 + of_nat i)" using Suc.prems [of "Suc i"] by (simp add: algebra_simps)
  qed
  then show ?case using Suc.prems [of 0] by simp
qed simp

lemma load64_cong:
  "(\<And>i. i < 8 \<Longrightarrow> m' (a + of_nat i) = m (a + of_nat i)) \<Longrightarrow> load64 m' a = load64 m a"
  unfolding load64_def by (rule load_le_cong)

lemma load_store_other:
  assumes "\<And>i. i < 8 \<Longrightarrow> 8 \<le> off (b + of_nat i) a"
  shows "load64 (store64 m a v) b = load64 m b"
  by (rule load64_cong) (use assms in \<open>auto simp: store64_def leD\<close>)

section \<open>Properties\<close>

text \<open>
  C8. \<^verbatim>\<open>memmove\<close> copies correctly whatever the overlap: for ranges that do not run past the top of the
  address space, every byte of the destination afterwards is what the corresponding source byte was
  before the call, and no byte outside the destination changes. \<^verbatim>\<open>memcpy\<close> is the same function.
\<close>

theorem memmove_correct:
  assumes "unat src + unat n < 2 ^ 64" and "unat dst + unat n < 2 ^ 64"
  shows "bytes (memmove m dst src n) dst (unat n) = bytes m src (unat n) \<and>
    (\<forall>a. unat n \<le> off a dst \<longrightarrow> memmove m dst src n a = m a) \<and> memcpy m dst src n = memmove m dst src n"
proof -
  have "unat n < 2 ^ 64" using assms by simp
  then show ?thesis unfolding memcpy_def memmove_eq [OF assms]
    by (auto intro!: nth_equalityI)
qed

definition ramp_mem :: memory where "ramp_mem = (\<lambda>a. ucast a)"

theorem memmove_correct_witness:
  "bytes (memmove ramp_mem 1002 1000 8) 1002 8 = [232, 233, 234, 235, 236, 237, 238, 239]"
proof -
  have "bytes (memmove ramp_mem 1002 1000 8) 1002 (unat (8 :: uint)) = bytes ramp_mem 1000 (unat (8 :: uint))"
    using memmove_correct [of 1000 8 1002] by simp
  also have "\<dots> = [232, 233, 234, 235, 236, 237, 238, 239]"
    by (simp add: ramp_mem_def bytes_def upt_rec)
  finally show ?thesis by simp
qed

text \<open>
  C9. The string routines, on NUL-terminated strings in memory. \<^verbatim>\<open>safestrcpy\<close> with a positive size
  always leaves a terminated string, the source cut to \<open>n - 1\<close> bytes; \<^verbatim>\<open>strncpy\<close> fills exactly \<open>n\<close> bytes with the
  source padded by zeros; neither writes outside the \<open>n\<close> bytes of its destination. \<^verbatim>\<open>strlen\<close> returns
  the number of bytes before the terminator, and \<^verbatim>\<open>strncmp\<close> is 0 exactly if the strings agree on
  their first \<open>n\<close> characters.
\<close>

theorem string_routines_correct:
  assumes "cstr m t xs" and "cstr m q ys" and "0 < n" and "n < 2 ^ 31" and "length xs < 2 ^ 31"
    and "\<forall>j \<le> length xs. nat n \<le> off (t + of_nat j) s"
  shows "cstr (safestrcpy m s t n) s (take (nat n - 1) xs) \<and>
    (\<forall>a. nat n \<le> off a s \<longrightarrow> safestrcpy m s t n a = m a \<and> strncpy m s t n a = m a) \<and>
    bytes (strncpy m s t n) s (nat n) = take (nat n) (xs @ replicate (nat n) 0) \<and>
    strlen m t = Ok (length xs) \<and>
    (strncmp m t q k = 0 \<longleftrightarrow> take (unat k) xs = take (unat k) ys)"
  using safestrcpy_eq [OF assms(1,3,4)] strncpy_eq [OF assms(1) less_imp_le [OF assms(3)] assms(4)]
    strlen_eq [OF assms(1,5)] strncmp_zero [OF assms(1,2)] assms(6) by simp

definition init_mem :: memory where
  "init_mem = (\<lambda>a. if a = 100 then 105 else if a = 101 then 110 else if a = 102 then 105 else
     if a = 103 then 116 else 0)"

theorem string_routines_correct_witness:
  "cstr init_mem 100 [105, 110, 105, 116] \<and>
   cstr (safestrcpy init_mem 200 100 3) 200 [105, 110] \<and> strlen init_mem 100 = Ok 4 \<and>
   bytes (strncpy init_mem 200 100 6) 200 6 = [105, 110, 105, 116, 0, 0]"
proof -
  have c: "cstr init_mem 100 [105, 110, 105, 116]" by (simp add: init_mem_def)
  have w: "\<forall>j \<le> length [105, 110, 105, 116 :: uchar]. nat 6 \<le> off (100 + of_nat j) 200"
  proof (intro allI impI)
    fix j assume "j \<le> length [105, 110, 105, 116 :: uchar]"
    then have "j = 0 \<or> j = 1 \<or> j = 2 \<or> j = 3 \<or> j = 4" by auto
    then show "nat 6 \<le> off (100 + of_nat j) 200" by (elim disjE) (simp_all add: off_def)
  qed
  then have w3: "\<forall>j \<le> length [105, 110, 105, 116 :: uchar]. nat 3 \<le> off (100 + of_nat j) 200" by fastforce
  have "replicate 2 (0 :: uchar) = [0, 0]" by (simp add: numeral_eq_Suc)
  then show ?thesis
    using c string_routines_correct [OF c c _ _ _ w3, of 0] string_routines_correct [OF c c _ _ _ w, of 0] by simp
qed

end
