(* ===== verification/Kalloc.thy ===== *)
theory Kalloc
  imports Spinlock Layout
begin

text \<open>
  \<^verbatim>\<open>kernel/kalloc.c\<close>: the physical page allocator, with its free list threaded through the free
  pages themselves. \<open>kend\<close> is the linker's symbol \<^verbatim>\<open>end\<close>, a constant of the boot image.
\<close>

record kstate = machine +
  mem :: memory
  kmem_lock :: spinlock
  freelist :: uint64
  kend :: uint64

definition kmem_acquire :: "nat \<Rightarrow> 'a kstate_scheme \<Rightarrow> 'a kstate_scheme res" where
  "kmem_acquire c s = rbind (acquire c s (kmem_lock s)) (\<lambda>(s1, lk). Ok (s1\<lparr>kmem_lock := lk\<rparr>))"

definition kmem_release :: "nat \<Rightarrow> 'a kstate_scheme \<Rightarrow> 'a kstate_scheme res" where
  "kmem_release c s = rbind (release c s (kmem_lock s)) (\<lambda>(s1, lk). Ok (s1\<lparr>kmem_lock := lk\<rparr>))"

definition kfree :: "nat \<Rightarrow> 'a kstate_scheme \<Rightarrow> uint64 \<Rightarrow> 'a kstate_scheme res" where
  "kfree c s pa =
     (if pa mod PGSIZE \<noteq> 0 \<or> pa < kend s \<or> pa \<ge> PHYSTOP then Panic ''kfree''
      else let s1 = s\<lparr>mem := memset (mem s) pa 1 (ucast PGSIZE)\<rparr>
           in rbind (kmem_acquire c s1) (\<lambda>s2.
              let s3 = s2\<lparr>mem := store64 (mem s2) pa (freelist s2)\<rparr>;
                  s4 = s3\<lparr>freelist := pa\<rparr>
              in kmem_release c s4))"

definition kalloc :: "nat \<Rightarrow> 'a kstate_scheme \<Rightarrow> ('a kstate_scheme \<times> uint64) res" where
  "kalloc c s =
     rbind (kmem_acquire c s) (\<lambda>s1.
       let r = freelist s1;
           s2 = (if r \<noteq> 0 then s1\<lparr>freelist := load64 (mem s1) r\<rparr> else s1)
       in rbind (kmem_release c s2) (\<lambda>s3.
          Ok (if r \<noteq> 0 then s3\<lparr>mem := memset (mem s3) r 5 (ucast PGSIZE)\<rparr> else s3, r)))"

fun freerange_loop :: "nat \<Rightarrow> nat \<Rightarrow> 'a kstate_scheme \<Rightarrow> uint64 \<Rightarrow> uint64 \<Rightarrow> 'a kstate_scheme res" where
  "freerange_loop 0 c s p pa_end = Hang"
| "freerange_loop (Suc n) c s p pa_end =
     (if p + PGSIZE \<le> pa_end
      then rbind (kfree c s p) (\<lambda>s1. freerange_loop n c s1 (p + PGSIZE) pa_end)
      else Ok s)"

text \<open>Fuel: one step per page of the 128 MB of RAM and one to leave the loop.\<close>

definition freerange :: "nat \<Rightarrow> 'a kstate_scheme \<Rightarrow> uint64 \<Rightarrow> uint64 \<Rightarrow> 'a kstate_scheme res" where
  "freerange c s pa_start pa_end =
     (let p = PGROUNDUP pa_start in freerange_loop (Suc (2 ^ 15)) c s p pa_end)"

definition kinit :: "nat \<Rightarrow> 'a kstate_scheme \<Rightarrow> 'a kstate_scheme res" where
  "kinit c s =
     (let s1 = s\<lparr>kmem_lock := initlock (kmem_lock s) ''kmem''\<rparr>
      in freerange c s1 (kend s1) PHYSTOP)"

section \<open>The free list\<close>

fun free_at :: "memory \<Rightarrow> uint64 \<Rightarrow> uint64 list \<Rightarrow> bool" where
  "free_at m p [] \<longleftrightarrow> p = 0"
| "free_at m p (x # xs) \<longleftrightarrow> p = x \<and> x \<noteq> 0 \<and> free_at m (load64 m x) xs"

definition page_ok :: "'a kstate_scheme \<Rightarrow> uint64 \<Rightarrow> bool" where
  "page_ok s p \<longleftrightarrow> aligned p \<and> kend s \<le> p \<and> p < PHYSTOP"

text \<open>\<open>kmem_ok c s xs\<close>: the allocator holds the free pages \<open>xs\<close> and is not locked.\<close>

definition kmem_ok :: "nat \<Rightarrow> 'a kstate_scheme \<Rightarrow> uint64 list \<Rightarrow> bool" where
  "kmem_ok c s xs \<longleftrightarrow> free_at (mem s) (freelist s) xs \<and> distinct xs \<and> (\<forall>x \<in> set xs. page_ok s x) \<and>
     KERNBASE \<le> kend s \<and> lock_free (kmem_lock s) \<and> cpu_ok (cpus s c)"

lemma free_at_cong:
  "(\<And>x a. x \<in> set xs \<Longrightarrow> in_page x a \<Longrightarrow> m' a = m a) \<Longrightarrow> free_at m' p xs = free_at m p xs"
proof (induction xs arbitrary: p)
  case (Cons x xs)
  have "load64 m' x = load64 m x"
    by (rule load64_cong, rule Cons.prems [of x]) (auto intro: in_page_add)
  then show ?case using Cons by auto
qed simp

lemma page_nonzero: "KERNBASE \<le> kend s \<Longrightarrow> page_ok s p \<Longrightarrow> p \<noteq> 0"
  by (auto simp: page_ok_def KERNBASE_def word_le_nat_alt)

lemma unat_PGSIZE32: "unat (ucast PGSIZE :: uint) = 4096"
  by (simp add: PGSIZE_def)

lemma store64_in_page: "aligned p \<Longrightarrow> \<not> in_page p a \<Longrightarrow> store64 m p v a = m a"
  by (simp add: store64_def in_page_def)

lemma memset_page: "memset m p v (ucast PGSIZE) = (\<lambda>a. if in_page p a then ucast v else m a)"
  by (simp add: memset_eq unat_PGSIZE32 in_page_def)

lemma push_off_kstate [simp]:
  "mem (push_off c s) = mem s" "kmem_lock (push_off c s) = kmem_lock s"
  "freelist (push_off c s) = freelist s" "kend (push_off c s) = kend s"
  by (simp_all add: push_off_upd)

lemma after_lock_kstate [simp]:
  "mem (after_lock c s) = mem s" "kmem_lock (after_lock c s) = kmem_lock s"
  "freelist (after_lock c s) = freelist s" "kend (after_lock c s) = kend s"
  by (simp_all add: after_lock_def upd_cpu_def)

text \<open>A bracket of the allocator's lock around an update of memory and free list.\<close>

lemma kmem_bracket:
  assumes "lock_free (kmem_lock s)" and "cpu_ok (cpus s c)"
  shows "kmem_acquire c s = Ok (push_off c s\<lparr>kmem_lock := (kmem_lock s)\<lparr>locked := 1, lk_cpu := Some c\<rparr>\<rparr>)"
    and "kmem_release c (push_off c s\<lparr>kmem_lock := (kmem_lock s)\<lparr>locked := 1, lk_cpu := Some c\<rparr>\<rparr>
        \<lparr>mem := m, freelist := f\<rparr>) = Ok (after_lock c (s\<lparr>mem := m, freelist := f\<rparr>))"
proof -
  show "kmem_acquire c s = Ok (push_off c s\<lparr>kmem_lock := (kmem_lock s)\<lparr>locked := 1, lk_cpu := Some c\<rparr>\<rparr>)"
    using assms by (simp add: kmem_acquire_def acquire_free push_off_upd)
  have "push_off c s\<lparr>kmem_lock := (kmem_lock s)\<lparr>locked := 1, lk_cpu := Some c\<rparr>\<rparr>\<lparr>mem := m, freelist := f\<rparr> =
      push_off c (s\<lparr>kmem_lock := (kmem_lock s)\<lparr>locked := 1, lk_cpu := Some c\<rparr>, mem := m, freelist := f\<rparr>)"
    by (simp add: push_off_upd)
  moreover define u where "u = s\<lparr>kmem_lock := (kmem_lock s)\<lparr>locked := 1, lk_cpu := Some c\<rparr>, mem := m, freelist := f\<rparr>"
  moreover have "release c (push_off c u) ((kmem_lock s)\<lparr>locked := 1, lk_cpu := Some c\<rparr>) = Ok (after_lock c u, kmem_lock s)"
    by (rule release_held) (use assms in \<open>simp_all add: u_def\<close>)
  moreover have "kmem_lock u = (kmem_lock s)\<lparr>locked := 1, lk_cpu := Some c\<rparr>"
    "after_lock c u\<lparr>kmem_lock := kmem_lock s\<rparr> = after_lock c (s\<lparr>mem := m, freelist := f\<rparr>)"
    by (simp_all add: u_def after_lock_def upd_cpu_def)
  ultimately show "kmem_release c (push_off c s\<lparr>kmem_lock := (kmem_lock s)\<lparr>locked := 1, lk_cpu := Some c\<rparr>\<rparr>
        \<lparr>mem := m, freelist := f\<rparr>) = Ok (after_lock c (s\<lparr>mem := m, freelist := f\<rparr>))"
    by (simp add: kmem_release_def)
qed

lemma kfree_ok:
  assumes ok: "kmem_ok c s xs" and p: "page_ok s p" "p \<notin> set xs"
  shows "\<exists>s'. kfree c s p = Ok s' \<and> kmem_ok c s' (p # xs) \<and>
    (\<exists>m. s' = after_lock c (s\<lparr>mem := m, freelist := p\<rparr>) \<and> (\<forall>a. \<not> in_page p a \<longrightarrow> m a = mem s a))"
proof -
  have inv: "free_at (mem s) (freelist s) xs" "distinct xs" "\<forall>x \<in> set xs. page_ok s x" "KERNBASE \<le> kend s"
    "lock_free (kmem_lock s)" "cpu_ok (cpus s c)" using ok by (auto simp: kmem_ok_def)
  define m where "m = store64 (memset (mem s) p 1 (ucast PGSIZE)) p (freelist s)"
  have al: "aligned p" using p(1) by (simp add: page_ok_def)
  have run: "kfree c s p = Ok (after_lock c (s\<lparr>mem := m, freelist := p\<rparr>))"
  proof -
    let ?s = "s\<lparr>mem := memset (mem s) p 1 (ucast PGSIZE)\<rparr>"
    have "\<not> (p mod PGSIZE \<noteq> 0 \<or> p < kend s \<or> p \<ge> PHYSTOP)" using p(1) by (auto simp: page_ok_def aligned_def)
    then show ?thesis
      using kmem_bracket(1) [of ?s c] kmem_bracket(2) [of ?s c, where m = m and f = p] inv(5,6)
      unfolding kfree_def m_def by (simp add: Let_def push_off_upd)
  qed
  have out: "m a = mem s a" if "\<not> in_page p a" for a
    using that by (simp add: m_def store64_in_page [OF al] memset_page)
  have "free_at m (freelist s) xs"
  proof (subst free_at_cong [of xs m "mem s"])
    show "m a = mem s a" if "x \<in> set xs" "in_page x a" for x a
      using out [of a] page_disjoint [of x p a] inv(3) al p(2) that by (auto simp: page_ok_def)
  qed (rule inv(1))
  moreover have "load64 m p = freelist s" by (simp add: m_def load_store)
  ultimately have "free_at m p (p # xs)" using page_nonzero [OF inv(4) p(1)] by simp
  then have "kmem_ok c (after_lock c (s\<lparr>mem := m, freelist := p\<rparr>)) (p # xs)"
    using inv p by (auto simp: kmem_ok_def page_ok_def after_lock_def cpu_defs cpu_ok_def)
  then show ?thesis using run out by blast
qed

lemma kalloc_some:
  assumes ok: "kmem_ok c s (x # xs)"
  shows "\<exists>s'. kalloc c s = Ok (s', x) \<and> kmem_ok c s' xs \<and> page_ok s x \<and>
    s' = after_lock c (s\<lparr>mem := memset (mem s) x 5 (ucast PGSIZE), freelist := load64 (mem s) x\<rparr>)"
proof -
  have inv: "free_at (mem s) (freelist s) (x # xs)" "distinct (x # xs)" "\<forall>y \<in> set (x # xs). page_ok s y"
    "KERNBASE \<le> kend s" "lock_free (kmem_lock s)" "cpu_ok (cpus s c)" using ok by (auto simp: kmem_ok_def)
  let ?m = "memset (mem s) x 5 (ucast PGSIZE)"
  have fl: "freelist s = x" "x \<noteq> 0" "free_at (mem s) (load64 (mem s) x) xs" using inv(1) by auto
  have run: "kalloc c s = Ok (after_lock c (s\<lparr>mem := ?m, freelist := load64 (mem s) x\<rparr>), x)"
    using kmem_bracket(1) [OF inv(5,6)] kmem_bracket(2) [OF inv(5,6), where m = "mem s" and f = "load64 (mem s) x"] fl
    unfolding kalloc_def by (simp add: Let_def push_off_upd after_lock_def upd_cpu_def)
  have "free_at ?m (load64 (mem s) x) xs"
  proof (subst free_at_cong [of xs ?m "mem s"])
    show "?m a = mem s a" if "y \<in> set xs" "in_page y a" for y a
    proof -
      have "\<not> in_page x a" using page_disjoint [of y x a] inv(2,3) that by (auto simp: page_ok_def)
      then show ?thesis by (simp add: memset_page)
    qed
  qed (rule fl(3))
  then have "kmem_ok c (after_lock c (s\<lparr>mem := ?m, freelist := load64 (mem s) x\<rparr>)) xs"
    using inv by (auto simp: kmem_ok_def page_ok_def after_lock_def cpu_defs cpu_ok_def)
  then show ?thesis using run inv(3) by auto
qed

lemma kalloc_none:
  assumes ok: "kmem_ok c s []"
  shows "kalloc c s = Ok (after_lock c s, 0) \<and> kmem_ok c (after_lock c s) []"
proof -
  have inv: "freelist s = 0" "KERNBASE \<le> kend s" "lock_free (kmem_lock s)" "cpu_ok (cpus s c)"
    using ok by (auto simp: kmem_ok_def)
  let ?L = "push_off c s\<lparr>kmem_lock := (kmem_lock s)\<lparr>locked := 1, lk_cpu := Some c\<rparr>\<rparr>"
  have "?L = ?L\<lparr>mem := mem s, freelist := freelist s\<rparr>" "s\<lparr>mem := mem s, freelist := freelist s\<rparr> = s"
    by (simp_all add: push_off_upd)
  then have "kmem_release c ?L = Ok (after_lock c s)"
    using kmem_bracket(2) [OF inv(3,4), where m = "mem s" and f = "freelist s"] by metis
  then have "kalloc c s = Ok (after_lock c s, 0)"
    using kmem_bracket(1) [OF inv(3,4)] inv(1) unfolding kalloc_def by (simp add: Let_def)
  then show ?thesis
    using ok by (auto simp: kmem_ok_def after_lock_def cpu_defs cpu_ok_def)
qed

section \<open>Initialisation frees every page\<close>

lemma page_step:
  assumes "aligned p" and "p \<le> PHYSTOP" and "p + PGSIZE \<le> PHYSTOP \<or> p \<noteq> PHYSTOP"
  shows "aligned (p + PGSIZE)" "unat (p + PGSIZE) = unat p + 4096" "unat p + 4096 \<le> unat PHYSTOP" "p < PHYSTOP"
proof -
  have top: "unat PHYSTOP = 4096 * 557056" by (simp add: layout_defs)
  obtain k where k: "unat p = 4096 * k" using assms(1) by (auto simp: aligned_unat)
  have "k \<le> 557056" using assms(2) k top by (simp add: word_le_nat_alt)
  then have u: "unat (p + PGSIZE) = unat p + 4096" using k by (simp add: PGSIZE_def unat_plus_if')
  then show "unat (p + PGSIZE) = unat p + 4096" .
  show "aligned (p + PGSIZE)" using u k by (simp add: aligned_unat)
  have "k \<noteq> 557056"
  proof
    assume "k = 557056"
    then have "unat p = unat PHYSTOP" using k top by simp
    then show False using assms(3) u by (auto simp: word_le_nat_alt word_unat_eq_iff)
  qed
  then show "unat p + 4096 \<le> unat PHYSTOP" "p < PHYSTOP"
    using \<open>k \<le> 557056\<close> k top by (simp_all add: word_less_nat_alt)
qed

lemma pages_step:
  assumes "aligned p" and "kend s \<le> p" and "p < PHYSTOP" and "unat (p + PGSIZE) = unat p + 4096"
  shows "{q. page_ok s q \<and> q < p + PGSIZE} = insert p {q. page_ok s q \<and> q < p}"
proof -
  have "q = p \<or> q < p" if q: "aligned q" "q < p + PGSIZE" for q
  proof -
    obtain i j where "unat q = 4096 * i" "unat p = 4096 * j" 
      using q(1) assms(1) unfolding aligned_unat dvd_def by blast
    then show ?thesis using q(2) assms(4) by (auto simp: word_less_nat_alt word_unat_eq_iff)
  qed
  moreover have "page_ok s p" using assms by (simp add: page_ok_def)
  ultimately show ?thesis using assms(4) by (auto simp: page_ok_def word_less_nat_alt)
qed

lemma freerange_loop_ok:
  assumes "kmem_ok c s xs" and "set xs = {q. page_ok s q \<and> q < p}" and "aligned p" and "kend s \<le> p"
    and "p \<le> PHYSTOP" and "unat PHYSTOP - unat p < 4096 * n"
  shows "\<exists>s' ys. freerange_loop n c s p PHYSTOP = Ok s' \<and> kmem_ok c s' ys \<and> kend s' = kend s \<and>
    set ys = {q. page_ok s q}"
  using assms
proof (induction n arbitrary: s xs p)
  case (Suc n)
  show ?case
  proof (cases "p = PHYSTOP")
    case True
    then have "\<not> p + PGSIZE \<le> PHYSTOP" by (simp add: layout_defs PGSIZE_def)
    moreover have "{q. page_ok s q \<and> q < p} = {q. page_ok s q}" using True by (auto simp: page_ok_def)
    ultimately show ?thesis using Suc.prems(1,2) by auto
  next
    case False
    note st = page_step [OF Suc.prems(3,5) disjI2 [OF False]]
    have pk: "page_ok s p" "p \<notin> set xs" using Suc.prems st(4) by (auto simp: page_ok_def)
    obtain s1 where s1: "kfree c s p = Ok s1" "kmem_ok c s1 (p # xs)" "kend s1 = kend s"
      using kfree_ok [OF Suc.prems(1) pk] by auto
    have same: "page_ok s1 = page_ok s" using s1(3) by (auto simp: fun_eq_iff page_ok_def)
    have "set (p # xs) = {q. page_ok s1 q \<and> q < p + PGSIZE}"
      using pages_step [OF Suc.prems(3,4) st(4,2)] Suc.prems(2) same by simp
    moreover have "p + PGSIZE \<le> PHYSTOP" "kend s1 \<le> p + PGSIZE" "unat PHYSTOP - unat (p + PGSIZE) < 4096 * n"
      using st(2,3) s1(3) Suc.prems(4,6) by (auto simp: word_le_nat_alt)
    ultimately show ?thesis using Suc.IH [OF s1(2) _ st(1)] s1(1,3) same by auto
  qed
qed simp

lemma kinit_ok:
  assumes "freelist s = 0" and "KERNBASE \<le> kend s" and "kend s \<le> PHYSTOP" and "cpu_ok (cpus s c)"
  shows "\<exists>s' xs. kinit c s = Ok s' \<and> kmem_ok c s' xs \<and> kend s' = kend s \<and> set xs = {q. page_ok s q}"
proof -
  let ?s = "s\<lparr>kmem_lock := initlock (kmem_lock s) ''kmem''\<rparr>" and ?p = "PGROUNDUP (kend s)"
  have top: "unat PHYSTOP = 4096 * 557056" "unat KERNBASE = 4096 * 524288" by (simp_all add: layout_defs)
  have up: "unat ?p = 4096 * ((unat (kend s) + 4095) div 4096)"
    by (rule unat_PGROUNDUP) (use assms(3) top in \<open>simp add: word_le_nat_alt\<close>)
  have le: "kend s \<le> ?p" "?p \<le> PHYSTOP" "unat KERNBASE \<le> unat ?p"
    using up assms(2,3) top by (auto simp: word_le_nat_alt)
  have "kmem_ok c ?s []" using assms by (simp add: kmem_ok_def lock_free_def initlock_def)
  moreover have "\<not> (page_ok ?s q \<and> q < ?p)" for q
  proof
    assume q: "page_ok ?s q \<and> q < ?p"
    then obtain i where "unat q = 4096 * i" by (auto simp: page_ok_def aligned_unat)
    then show False using q up by (auto simp: page_ok_def word_less_nat_alt word_le_nat_alt)
  qed
  moreover have "unat PHYSTOP - unat ?p < 4096 * Suc (2 ^ 15)" using le(3) top by simp
  ultimately obtain s' ys where "freerange_loop (Suc (2 ^ 15)) c ?s ?p PHYSTOP = Ok s'" "kmem_ok c s' ys"
    "kend s' = kend s" "set ys = {q. page_ok ?s q}"
    using freerange_loop_ok [of c ?s "[]" ?p "Suc (2 ^ 15)"] le by auto
  then show ?thesis by (auto simp: kinit_def freerange_def page_ok_def)
qed

section \<open>The allocator as an interface\<close>

text \<open>
  What the users of physical memory rely on: an allocation takes a page off the free list or reports
  0, a free puts it back, and neither touches a byte outside the page.
\<close>

fun alloc_list :: "('s \<Rightarrow> ('s \<times> uint64) res) \<Rightarrow> 's \<Rightarrow> nat \<Rightarrow> ('s \<times> uint64 list) res" where
  "alloc_list al s 0 = Ok (s, [])"
| "alloc_list al s (Suc n) = rbind (al s) (\<lambda>(s1, p).
     if p = 0 then Ok (s1, []) else rbind (alloc_list al s1 n) (\<lambda>(s2, ps). Ok (s2, p # ps)))"

fun free_list :: "('s \<Rightarrow> uint64 \<Rightarrow> 's res) \<Rightarrow> 's \<Rightarrow> uint64 list \<Rightarrow> 's res" where
  "free_list fr s [] = Ok s"
| "free_list fr s (p # ps) = rbind (fr s p) (\<lambda>s1. free_list fr s1 ps)"

locale page_allocator =
  fixes inv :: "'s \<Rightarrow> uint64 list \<Rightarrow> bool" and content :: "'s \<Rightarrow> memory" and legal :: "'s \<Rightarrow> uint64 \<Rightarrow> bool"
    and alloc :: "'s \<Rightarrow> ('s \<times> uint64) res" and free :: "'s \<Rightarrow> uint64 \<Rightarrow> 's res"
  assumes inv_law: "inv s xs \<Longrightarrow> distinct xs \<and> (\<forall>x \<in> set xs. legal s x \<and> x \<noteq> 0 \<and> aligned x)"
    and alloc_law: "inv s (x # xs) \<Longrightarrow>
      \<exists>s'. alloc s = Ok (s', x) \<and> inv s' xs \<and> legal s' = legal s \<and>
        (\<forall>a. \<not> in_page x a \<longrightarrow> content s' a = content s a)"
    and alloc_empty_law: "inv s [] \<Longrightarrow> \<exists>s'. alloc s = Ok (s', 0) \<and> inv s' [] \<and> legal s' = legal s \<and> content s' = content s"
    and free_law: "inv s xs \<Longrightarrow> legal s p \<Longrightarrow> p \<notin> set xs \<Longrightarrow>
      \<exists>s'. free s p = Ok s' \<and> inv s' (p # xs) \<and> legal s' = legal s \<and>
        (\<forall>a. \<not> in_page p a \<longrightarrow> content s' a = content s a)"
begin

lemma alloc_all:
  assumes "inv s xs"
  shows "\<exists>s'. alloc_list alloc s n = Ok (s', take n xs) \<and> inv s' (drop n xs) \<and> legal s' = legal s \<and>
    (\<forall>a. (\<forall>p \<in> set (take n xs). \<not> in_page p a) \<longrightarrow> content s' a = content s a)"
  using assms
proof (induction n arbitrary: s xs)
  case (Suc n)
  show ?case
  proof (cases xs)
    case Nil
    then show ?thesis using alloc_empty_law [of s] Suc.prems by auto
  next
    case (Cons x ys)
    obtain s1 where s1: "alloc s = Ok (s1, x)" "inv s1 ys" "legal s1 = legal s"
      "\<forall>a. \<not> in_page x a \<longrightarrow> content s1 a = content s a" using alloc_law Suc.prems Cons by blast
    obtain s2 where s2: "alloc_list alloc s1 n = Ok (s2, take n ys)" "inv s2 (drop n ys)" "legal s2 = legal s1"
      "\<forall>a. (\<forall>p \<in> set (take n ys). \<not> in_page p a) \<longrightarrow> content s2 a = content s1 a" using Suc.IH [OF s1(2)] by blast
    have "x \<noteq> 0" using inv_law [OF Suc.prems] Cons by simp
    then show ?thesis using s1 s2 Cons by auto
  qed
qed simp

lemma free_all:
  assumes "inv s xs" and "distinct ps" and "set ps \<inter> set xs = {}" and "\<forall>p \<in> set ps. legal s p"
  shows "\<exists>s'. free_list free s ps = Ok s' \<and> inv s' (rev ps @ xs)"
  using assms
proof (induction ps arbitrary: s xs)
  case (Cons p ps)
  then obtain s1 where "free s p = Ok s1" "inv s1 (p # xs)" "legal s1 = legal s" using free_law [of s xs p] by auto
  then show ?case using Cons.IH [of s1 "p # xs"] Cons.prems by auto
qed simp

lemma alloc_free_cycle:
  assumes "inv s xs"
  shows "\<exists>s1 s2 ps ys. alloc_list alloc s n = Ok (s1, ps) \<and> ps = take n xs \<and> inv s1 (drop n xs) \<and>
    free_list free s1 ps = Ok s2 \<and> inv s2 ys \<and> set ys = set xs \<and> length ys = length xs"
proof -
  obtain s1 where s1: "alloc_list alloc s n = Ok (s1, take n xs)" "inv s1 (drop n xs)" "legal s1 = legal s"
    using alloc_all [OF assms] by blast
  have d: "distinct (take n xs @ drop n xs)" using inv_law [OF assms] by simp
  moreover have "\<forall>p \<in> set (take n xs). legal s1 p" using inv_law [OF assms] s1(3) by (auto dest: in_set_takeD)
  ultimately obtain s2 where "free_list free s1 (take n xs) = Ok s2" "inv s2 (rev (take n xs) @ drop n xs)"
    using free_all [OF s1(2), of "take n xs"] unfolding distinct_append by blast
  moreover have "set (rev (take n xs) @ drop n xs) = set xs" by (metis append_take_drop_id set_append set_rev)
  moreover have "length (rev (take n xs) @ drop n xs) = length xs" by simp
  ultimately show ?thesis using s1 by blast
qed

end

interpretation ka: page_allocator "kmem_ok c" mem page_ok "kalloc c" "kfree c" for c
proof (unfold_locales, goal_cases)
  case (1 s xs)
  then show ?case using page_nonzero [of s] by (auto simp: kmem_ok_def page_ok_def)
next
  case (2 s x xs)
  then obtain s' where "kalloc c s = Ok (s', x)" "kmem_ok c s' xs"
    "s' = after_lock c (s\<lparr>mem := memset (mem s) x 5 (ucast PGSIZE), freelist := load64 (mem s) x\<rparr>)"
    using kalloc_some by blast
  then show ?case by (auto simp: memset_page page_ok_def fun_eq_iff)
next
  case (3 s)
  then show ?case using kalloc_none [of c s] by (auto simp: page_ok_def fun_eq_iff)
next
  case (4 s xs p)
  then show ?case using kfree_ok [of c s xs p] by (fastforce simp: page_ok_def fun_eq_iff)
qed

section \<open>Properties\<close>

text \<open>
  C10. \<^verbatim>\<open>kinit\<close> puts every whole page between \<^verbatim>\<open>end\<close> and \<^verbatim>\<open>PHYSTOP\<close> on the free list exactly once,
  within the loop's iterations; the list is well linked through the pages, and the lock is free.
\<close>

theorem kinit_frees_all:
  assumes "freelist s = 0" and "KERNBASE \<le> kend s" and "kend s \<le> PHYSTOP" and "cpu_ok (cpus s c)"
  shows "\<exists>s' xs. kinit c s = Ok s' \<and> kmem_ok c s' xs \<and> distinct xs \<and>
    set xs = {q. q mod PGSIZE = 0 \<and> kend s \<le> q \<and> q < PHYSTOP}"
proof -
  obtain s' xs where "kinit c s = Ok s'" "kmem_ok c s' xs" "set xs = {q. page_ok s q}"
    using kinit_ok [OF assms] by blast
  then show ?thesis by (auto simp: page_ok_def aligned_def kmem_ok_def)
qed

definition boot_kstate :: kstate where
  "boot_kstate = \<lparr>cpus = (\<lambda>_. demo_cpu), mem = (\<lambda>_. 0), kmem_lock = demo_lock, freelist = 0, kend = 0x80022000\<rparr>"

theorem kinit_frees_all_witness:
  "\<exists>s' xs. kinit 0 boot_kstate = Ok s' \<and> kmem_ok 0 s' xs \<and> 0x80023000 \<in> set xs \<and> 0x80021000 \<notin> set xs"
proof -
  have "\<exists>s' xs. kinit 0 boot_kstate = Ok s' \<and> kmem_ok 0 s' xs \<and> distinct xs \<and>
    set xs = {q. q mod PGSIZE = 0 \<and> kend boot_kstate \<le> q \<and> q < PHYSTOP}"
    by (rule kinit_frees_all) (simp_all add: boot_kstate_def layout_defs demo_cpu_def cpu_ok_def)
  then obtain s' xs where "kinit 0 boot_kstate = Ok s'" "kmem_ok 0 s' xs"
    "set xs = {q. q mod PGSIZE = 0 \<and> kend boot_kstate \<le> q \<and> q < PHYSTOP}" by blast
  then show ?thesis
    by (intro exI [of _ s'] exI [of _ xs]) (simp add: boot_kstate_def layout_defs PGSIZE_def)
qed

text \<open>
  C11. Allocation and release: from a free list \<open>xs\<close>, asking \<^verbatim>\<open>kalloc\<close> for \<open>n\<close> pages gives the first
  \<open>n\<close> of the list (fewer, ending with a null result, when memory runs out), all distinct; handing
  them back with \<^verbatim>\<open>kfree\<close> never panics and restores the set of free pages, none lost or duplicated.
\<close>

theorem kalloc_kfree_cycle:
  assumes "kmem_ok c s xs"
  shows "\<exists>s1 s2 ps ys. alloc_list (kalloc c) s n = Ok (s1, ps) \<and> ps = take n xs \<and> kmem_ok c s1 (drop n xs) \<and>
    free_list (kfree c) s1 ps = Ok s2 \<and> kmem_ok c s2 ys \<and> set ys = set xs \<and> length ys = length xs"
  by (rule ka.alloc_free_cycle [OF assms])

theorem kalloc_kfree_cycle_witness:
  "\<exists>s xs s1 p. kmem_ok 0 (s :: kstate) xs \<and> p \<in> set xs \<and> alloc_list (kalloc 0) s 1 = Ok (s1, [p])"
proof -
  obtain s xs where s: "kmem_ok 0 (s :: kstate) xs" "set xs = {q. page_ok boot_kstate q}"
    using kinit_ok [of boot_kstate 0] by (auto simp: boot_kstate_def layout_defs demo_cpu_def cpu_ok_def)
  have "page_ok boot_kstate 0x80023000" by (simp add: page_ok_def boot_kstate_def layout_defs aligned_def PGSIZE_def)
  then obtain x ys where x: "xs = x # ys" using s(2) by (cases xs) auto
  obtain s1 where "alloc_list (kalloc 0) s 1 = Ok (s1, take 1 xs)" using kalloc_kfree_cycle [OF s(1), of 1] by blast
  then have "alloc_list (kalloc 0) s 1 = Ok (s1, [x])" "x \<in> set xs" using x by simp_all
  then show ?thesis using s(1) by blast
qed

end
