(* ===== verification/Proc_Data.thy ===== *)
theory Proc_Data
  imports Kalloc
begin

text \<open>
  The process structures of \<^verbatim>\<open>kernel/proc.h\<close> and the run queue header of
  \<^verbatim>\<open>kernel/proc.c\<close>. A \<^verbatim>\<open>struct proc *\<close> is \<open>None\<close> (null) or \<open>Some i\<close> for \<^verbatim>\<open>&proc[i]\<close>; pointers to
  physical pages (\<^verbatim>\<open>pagetable\<close>, \<^verbatim>\<open>trapframe\<close>) are addresses, 0 being null; \<^verbatim>\<open>struct file *\<close> and
  \<^verbatim>\<open>struct inode *\<close> are table indices. C \<^verbatim>\<open>int\<close> fields are \<open>int\<close>; the bounds lemmas of the run
  queue show which of them stay in range.
\<close>

type_synonym pptr = "nat option"

record trapframe =
  kernel_satp :: uint64
  kernel_sp :: uint64
  kernel_trap :: uint64
  epc :: uint64
  kernel_hartid :: uint64
  tf_ra :: uint64
  tf_sp :: uint64
  tf_gp :: uint64
  tf_tp :: uint64
  tf_t0 :: uint64
  tf_t1 :: uint64
  tf_t2 :: uint64
  tf_s0 :: uint64
  tf_s1 :: uint64
  tf_a0 :: uint64
  tf_a1 :: uint64
  tf_a2 :: uint64
  tf_a3 :: uint64
  tf_a4 :: uint64
  tf_a5 :: uint64
  tf_a6 :: uint64
  tf_a7 :: uint64
  tf_s2 :: uint64
  tf_s3 :: uint64
  tf_s4 :: uint64
  tf_s5 :: uint64
  tf_s6 :: uint64
  tf_s7 :: uint64
  tf_s8 :: uint64
  tf_s9 :: uint64
  tf_s10 :: uint64
  tf_s11 :: uint64
  tf_t3 :: uint64
  tf_t4 :: uint64
  tf_t5 :: uint64
  tf_t6 :: uint64

datatype procstate = UNUSED | USED | SLEEPING | RUNNABLE | RUNNING | ZOMBIE

datatype procColor = RED | BLACK

text \<open>
  A wait channel is the address of a kernel object, here the object itself: a \<^verbatim>\<open>struct proc\<close> (for
  \<^verbatim>\<open>wait()\<close>), an address in a pipe's page, \<^verbatim>\<open>ticks\<close>, the log, a buffer or its lock, an inode's lock, the
  disk's free descriptors, the console input and the UART output buffer.
\<close>

datatype channel = ChanProc nat | ChanAddr uint64 | ChanTicks | ChanLog | ChanBuf nat | ChanBufLock nat
  | ChanInodeLock nat | ChanDisk | ChanCons | ChanUart

record proc =
  p_lock :: spinlock
  state :: procstate
  chan :: "channel option"
  killed :: int
  xstate :: int
  pid :: int
  parent :: pptr
  kstack :: uint64
  sz :: uint64
  pagetable :: uint64
  trapframe_pg :: uint64
  p_context :: context_regs
  ofile :: "nat \<Rightarrow> nat option"
  cwd :: "nat option"
  p_name :: "uchar list"
  priority :: int
  virtualRuntime :: int
  currentRuntime :: int
  maximumExecutiontime :: int
  niceValue :: int
  weightValue :: int
  coloring :: procColor
  left :: pptr
  right :: pptr
  parentP :: pptr

record redblackTree =
  rb_count :: int
  rbTreeWeight :: int
  rb_root :: pptr
  min_vRuntime :: pptr
  rb_lock :: spinlock
  period :: int

text \<open>The machine with the process table and the one run queue (\<^verbatim>\<open>rbTree\<close>, \<^verbatim>\<open>runnableTasks\<close>).\<close>

record rq_state = kstate +
  rbTree :: redblackTree
  procs :: "nat \<Rightarrow> proc"

definition upd_proc :: "nat \<Rightarrow> (proc \<Rightarrow> proc) \<Rightarrow> 'a rq_state_scheme \<Rightarrow> 'a rq_state_scheme" where
  "upd_proc i f s = s\<lparr>procs := (procs s)(i := f (procs s i))\<rparr>"

definition upd_tree ::
  "(redblackTree \<Rightarrow> redblackTree) \<Rightarrow> 'a rq_state_scheme \<Rightarrow> 'a rq_state_scheme" where
  "upd_tree f s = s\<lparr>rbTree := f (rbTree s)\<rparr>"

text \<open>\<^verbatim>\<open>latency\<close> and \<^verbatim>\<open>min_granularity\<close>, \<^verbatim>\<open>proc.c\<close> lines 44 and 45.\<close>

definition latency :: int where "latency = int NPROC div 2"
definition min_granularity :: int where "min_granularity = 2"

section \<open>The zero-initialised tables\<close>

text \<open>\<^verbatim>\<open>proc\<close>, \<^verbatim>\<open>cpus\<close> and \<^verbatim>\<open>rbTree\<close> are static objects: zero before \<^verbatim>\<open>procinit\<close> runs.\<close>

definition zero_lock :: spinlock where
  "zero_lock = \<lparr>locked = 0, lk_name = [], lk_cpu = None\<rparr>"

definition zero_proc :: proc where
  "zero_proc = \<lparr>p_lock = zero_lock, state = UNUSED, chan = None, killed = 0, xstate = 0, pid = 0,
     parent = None, kstack = 0, sz = 0, pagetable = 0, trapframe_pg = 0, p_context = zero_context,
     ofile = (\<lambda>_. None), cwd = None, p_name = replicate 16 0, priority = 0, virtualRuntime = 0,
     currentRuntime = 0, maximumExecutiontime = 0, niceValue = 0, weightValue = 0, coloring = RED,
     left = None, right = None, parentP = None\<rparr>"

definition zero_cpu :: cpu where
  "zero_cpu = \<lparr>cpu_proc = None, cpu_context = zero_context, noff = 0, intena = False, intr = False, hregs = zero_context\<rparr>"

definition zero_tree :: redblackTree where
  "zero_tree = \<lparr>rb_count = 0, rbTreeWeight = 0, rb_root = None, min_vRuntime = None,
     rb_lock = zero_lock, period = 0\<rparr>"

end
