(* ===== verification/RB_Code.thy ===== *)
theory RB_Code
  imports Proc_Data
begin

text \<open>
  The red-black tree of \<^verbatim>\<open>kernel/proc.c\<close> (lines 47 to 464), translated pointer by pointer: the
  nodes are the entries of the process table, linked through \<^verbatim>\<open>left\<close>, \<^verbatim>\<open>right\<close> and \<^verbatim>\<open>parentP\<close>.
  Reading through a null pointer is \<open>Fault\<close>; the recursions and the one loop take fuel and are
  \<open>Hang\<close> when it runs out.
\<close>

section \<open>Initialisation and navigation\<close>

definition rbinit :: "redblackTree \<Rightarrow> string \<Rightarrow> redblackTree" where
  "rbinit t lockName =
     t\<lparr>rb_lock := initlock (rb_lock t) lockName, rb_count := 0, rb_root := None,
       rbTreeWeight := 0, min_vRuntime := None, period := latency\<rparr>"

definition emptyTree :: "redblackTree \<Rightarrow> bool" where
  "emptyTree t \<longleftrightarrow> rb_count t = 0"

definition fullTree :: "redblackTree \<Rightarrow> bool" where
  "fullTree t \<longleftrightarrow> rb_count t = int NPROC"

definition retrieveGrandparentproc :: "'a rq_state_scheme \<Rightarrow> pptr \<Rightarrow> pptr" where
  "retrieveGrandparentproc s process =
     (case process of None \<Rightarrow> None
      | Some x \<Rightarrow> (case parentP (procs s x) of None \<Rightarrow> None | Some q \<Rightarrow> parentP (procs s q)))"

definition retrieveUncleproc :: "'a rq_state_scheme \<Rightarrow> pptr \<Rightarrow> pptr res" where
  "retrieveUncleproc s process =
     (case retrieveGrandparentproc s process of
        None \<Rightarrow> Ok None
      | Some g \<Rightarrow> deref process (\<lambda>x.
          if parentP (procs s x) = left (procs s g)
          then Ok (right (procs s g)) else Ok (left (procs s g))))"

section \<open>Rotations\<close>

definition rotateLeft :: "'a rq_state_scheme \<Rightarrow> pptr \<Rightarrow> 'a rq_state_scheme res" where
  "rotateLeft s positionProc =
     deref positionProc (\<lambda>x.
     deref (right (procs s x)) (\<lambda>y.
       let s1 = upd_proc x (\<lambda>p. p\<lparr>right := left (procs s y)\<rparr>) s;
           s2 = (case left (procs s1 y) of None \<Rightarrow> s1
                 | Some z \<Rightarrow> upd_proc z (\<lambda>p. p\<lparr>parentP := Some x\<rparr>) s1);
           s3 = upd_proc y (\<lambda>p. p\<lparr>parentP := parentP (procs s2 x)\<rparr>) s2;
           s4 = (case parentP (procs s3 x) of
                   None \<Rightarrow> upd_tree (\<lambda>t. t\<lparr>rb_root := Some y\<rparr>) s3
                 | Some q \<Rightarrow>
                     if left (procs s3 q) = Some x
                     then upd_proc q (\<lambda>p. p\<lparr>left := Some y\<rparr>) s3
                     else upd_proc q (\<lambda>p. p\<lparr>right := Some y\<rparr>) s3);
           s5 = upd_proc y (\<lambda>p. p\<lparr>left := Some x\<rparr>) s4
       in Ok (upd_proc x (\<lambda>p. p\<lparr>parentP := Some y\<rparr>) s5)))"

definition rotateRight :: "'a rq_state_scheme \<Rightarrow> pptr \<Rightarrow> 'a rq_state_scheme res" where
  "rotateRight s positionProc =
     deref positionProc (\<lambda>x.
     deref (left (procs s x)) (\<lambda>y.
       let s1 = upd_proc x (\<lambda>p. p\<lparr>left := right (procs s y)\<rparr>) s;
           s2 = (case right (procs s1 y) of None \<Rightarrow> s1
                 | Some z \<Rightarrow> upd_proc z (\<lambda>p. p\<lparr>parentP := Some x\<rparr>) s1);
           s3 = upd_proc y (\<lambda>p. p\<lparr>parentP := parentP (procs s2 x)\<rparr>) s2;
           s4 = (case parentP (procs s3 x) of
                   None \<Rightarrow> upd_tree (\<lambda>t. t\<lparr>rb_root := Some y\<rparr>) s3
                 | Some q \<Rightarrow>
                     if right (procs s3 q) = Some x
                     then upd_proc q (\<lambda>p. p\<lparr>right := Some y\<rparr>) s3
                     else upd_proc q (\<lambda>p. p\<lparr>left := Some y\<rparr>) s3);
           s5 = upd_proc y (\<lambda>p. p\<lparr>right := Some x\<rparr>) s4
       in Ok (upd_proc x (\<lambda>p. p\<lparr>parentP := Some y\<rparr>) s5)))"

section \<open>Search for the minimum, insertion of a leaf\<close>

fun setMinimumVRuntimeproc :: "nat \<Rightarrow> 'a rq_state_scheme \<Rightarrow> pptr \<Rightarrow> pptr res" where
  "setMinimumVRuntimeproc 0 s traversing = Hang"
| "setMinimumVRuntimeproc (Suc n) s traversing =
     (case traversing of
        None \<Rightarrow> Ok None
      | Some x \<Rightarrow>
          if left (procs s x) \<noteq> None then setMinimumVRuntimeproc n s (left (procs s x))
          else Ok traversing)"

fun insertproc :: "nat \<Rightarrow> 'a rq_state_scheme \<Rightarrow> pptr \<Rightarrow> nat \<Rightarrow> ('a rq_state_scheme \<times> pptr) res" where
  "insertproc 0 s traversing ins = Hang"
| "insertproc (Suc n) s traversing ins =
     (let s1 = upd_proc ins (\<lambda>p. p\<lparr>coloring := RED\<rparr>) s
      in case traversing of
           None \<Rightarrow> Ok (s1, Some ins)
         | Some x \<Rightarrow>
             if virtualRuntime (procs s1 x) \<le> virtualRuntime (procs s1 ins) then
               let s2 = upd_proc ins (\<lambda>p. p\<lparr>parentP := Some x\<rparr>) s1
               in rbind (insertproc n s2 (right (procs s2 x)) ins)
                    (\<lambda>(s3, r). Ok (upd_proc x (\<lambda>p. p\<lparr>right := r\<rparr>) s3, Some x))
             else
               let s2 = upd_proc ins (\<lambda>p. p\<lparr>parentP := Some x\<rparr>) s1
               in rbind (insertproc n s2 (left (procs s2 x)) ins)
                    (\<lambda>(s3, r). Ok (upd_proc x (\<lambda>p. p\<lparr>left := r\<rparr>) s3, Some x)))"

section \<open>Rebalancing after an insertion\<close>

definition set_color :: "procColor \<Rightarrow> nat \<Rightarrow> 'a rq_state_scheme \<Rightarrow> 'a rq_state_scheme" where
  "set_color col i s = upd_proc i (\<lambda>p. p\<lparr>coloring := col\<rparr>) s"

fun insertionCases :: "nat \<Rightarrow> 'a rq_state_scheme \<Rightarrow> pptr \<Rightarrow> nat \<Rightarrow> 'a rq_state_scheme res" where
  "insertionCases 0 s rbProcess cases = Hang"
| "insertionCases (Suc n) s rbProcess cases =
     (if cases = 1 then
        deref rbProcess (\<lambda>x.
          if parentP (procs s x) = None then Ok (set_color BLACK x s)
          else insertionCases n s rbProcess 2)
      else if cases = 2 then
        deref rbProcess (\<lambda>x. deref (parentP (procs s x)) (\<lambda>q.
          if coloring (procs s q) = RED then insertionCases n s rbProcess 3 else Ok s))
      else if cases = 3 then
        rbind (retrieveUncleproc s rbProcess) (\<lambda>uncle.
          case uncle of
            Some u \<Rightarrow>
              if coloring (procs s u) = RED then
                deref rbProcess (\<lambda>x. deref (parentP (procs s x)) (\<lambda>q.
                  let s1 = set_color BLACK q s;
                      s2 = set_color BLACK u s1;
                      grandparent = retrieveGrandparentproc s2 rbProcess
                  in deref grandparent (\<lambda>g. insertionCases n (set_color RED g s2) grandparent 1)))
              else insertionCases n s rbProcess 4
          | None \<Rightarrow> insertionCases n s rbProcess 4)
      else if cases = 4 then
        let grandparent = retrieveGrandparentproc s rbProcess
        in deref rbProcess (\<lambda>x. deref (parentP (procs s x)) (\<lambda>q.
             rbind (if right (procs s q) = rbProcess
                    then deref grandparent (\<lambda>g. Ok (parentP (procs s x) = left (procs s g)))
                    else Ok False) (\<lambda>inner_left.
             if inner_left then
               rbind (rotateLeft s (parentP (procs s x))) (\<lambda>s1.
                 insertionCases n s1 (left (procs s1 x)) 5)
             else
               rbind (if left (procs s q) = rbProcess
                      then deref grandparent (\<lambda>g. Ok (parentP (procs s x) = right (procs s g)))
                      else Ok False) (\<lambda>inner_right.
               if inner_right then
                 rbind (rotateRight s (parentP (procs s x))) (\<lambda>s1.
                   insertionCases n s1 (right (procs s1 x)) 5)
               else insertionCases n s rbProcess 5))))
      else if cases = 5 then
        (case retrieveGrandparentproc s rbProcess of
           None \<Rightarrow> Ok s
         | Some g \<Rightarrow>
             deref rbProcess (\<lambda>x. deref (parentP (procs s x)) (\<lambda>q.
               let s1 = set_color RED g s;
                   s2 = set_color BLACK q s1
               in if left (procs s2 q) = rbProcess \<and> parentP (procs s2 x) = left (procs s2 g)
                  then rotateRight s2 (Some g)
                  else if right (procs s2 q) = rbProcess \<and> parentP (procs s2 x) = right (procs s2 g)
                  then rotateLeft s2 (Some g)
                  else Ok s2)))
      else Ok s)"

declare insertionCases.simps(2) [simp del]

section \<open>Removal of the leftmost node\<close>

text \<open>A null child counts as black.\<close>

definition black_at :: "'a rq_state_scheme \<Rightarrow> pptr \<Rightarrow> bool" where
  "black_at s p \<longleftrightarrow> (case p of None \<Rightarrow> True | Some x \<Rightarrow> coloring (procs s x) = BLACK)"

text \<open>
  The body of the \<^verbatim>\<open>while\<close> loop of case 2, for \<^verbatim>\<open>process == parentProc->left\<close>; it returns the new
  state with the new values of \<^verbatim>\<open>parentProc\<close> and \<^verbatim>\<open>process\<close>.
\<close>

definition retrieving_sibling ::
  "'a rq_state_scheme \<Rightarrow> nat \<Rightarrow> ('a rq_state_scheme \<times> pptr) res" where
  "retrieving_sibling s q =
     (let sibling = right (procs s q)
      in if \<not> black_at s sibling then
           deref sibling (\<lambda>z.
             let s1 = set_color BLACK z s;
                 s2 = set_color RED q s1
             in rbind (rotateLeft s2 (Some q)) (\<lambda>s3. Ok (s3, right (procs s3 q))))
         else Ok (s, sibling))"

definition retrieving_body ::
  "'a rq_state_scheme \<Rightarrow> nat \<Rightarrow> ('a rq_state_scheme \<times> pptr \<times> pptr) res" where
  "retrieving_body s0 q =
     rbind (retrieving_sibling s0 q) (\<lambda>(s, sibling).
     deref sibling (\<lambda>z.
       if black_at s (left (procs s z)) \<and> black_at s (right (procs s z)) then
         let s1 = set_color RED z s
         in Ok (s1, parentP (procs s1 q), Some q)
       else
         rbind
           (if black_at s (right (procs s z)) then
              let s1 = (case left (procs s z) of None \<Rightarrow> s | Some l \<Rightarrow> set_color BLACK l s);
                  s2 = set_color RED z s1
              in rbind (rotateRight s2 (Some z)) (\<lambda>s3. Ok (s3, right (procs s3 q)))
            else Ok (s, sibling))
           (\<lambda>(s4, sibling2).
             deref sibling2 (\<lambda>y.
               let s5 = set_color (coloring (procs s4 q)) y s4;
                   s6 = set_color BLACK q s5
               in deref (right (procs s6 y)) (\<lambda>w.
                    rbind (rotateLeft (set_color BLACK w s6) (Some q)) (\<lambda>s7.
                      Ok (s7, Some q, rb_root (rbTree s7))))))))"

fun retrieving_loop ::
  "nat \<Rightarrow> 'a rq_state_scheme \<Rightarrow> pptr \<Rightarrow> pptr \<Rightarrow> ('a rq_state_scheme \<times> pptr) res" where
  "retrieving_loop 0 s parentProc process = Hang"
| "retrieving_loop (Suc n) s parentProc process =
     (if process \<noteq> rb_root (rbTree s) \<and> black_at s process then
        deref parentProc (\<lambda>q.
          if process = left (procs s q) then
            rbind (retrieving_body s q)
              (\<lambda>(s1, parentProc1, process1). retrieving_loop n s1 parentProc1 process1)
          else retrieving_loop n s parentProc process)
      else Ok (s, process))"

definition RB_FUEL :: nat where "RB_FUEL = 4 * NPROC"

text \<open>\<^verbatim>\<open>retrievingCases\<close> with \<^verbatim>\<open>cases == 2\<close>.\<close>

definition retrievingCases2 ::
  "'a rq_state_scheme \<Rightarrow> pptr \<Rightarrow> pptr \<Rightarrow> 'a rq_state_scheme res" where
  "retrievingCases2 s parentProc process =
     rbind (retrieving_loop RB_FUEL s parentProc process) (\<lambda>(s1, process1).
       case process1 of None \<Rightarrow> Ok s1 | Some x \<Rightarrow> Ok (set_color BLACK x s1))"

definition retrievingCases ::
  "'a rq_state_scheme \<Rightarrow> pptr \<Rightarrow> pptr \<Rightarrow> nat \<Rightarrow> 'a rq_state_scheme res" where
  "retrievingCases s parentProc process cases =
     (if cases = 1 then
        deref process (\<lambda>x.
          let child = right (procs s x)
          in rbind
              (if process = rb_root (rbTree s) then
                 let s1 = upd_tree (\<lambda>t. t\<lparr>rb_root := child\<rparr>) s
                 in (case child of None \<Rightarrow> Ok s1
                     | Some y \<Rightarrow> Ok (set_color BLACK y (upd_proc y (\<lambda>p. p\<lparr>parentP := None\<rparr>) s1)))
               else if (case child of None \<Rightarrow> False
                        | Some y \<Rightarrow> coloring (procs s x) \<noteq> coloring (procs s y)) then
                 deref child (\<lambda>y. deref parentProc (\<lambda>q.
                   let s1 = upd_proc y (\<lambda>p. p\<lparr>parentP := parentProc\<rparr>) s;
                       s2 = upd_proc q (\<lambda>p. p\<lparr>left := child\<rparr>) s1
                   in Ok (set_color BLACK y s2)))
               else if coloring (procs s x) = RED then
                 deref parentProc (\<lambda>q. Ok (upd_proc q (\<lambda>p. p\<lparr>left := child\<rparr>) s))
               else
                 (let s1 = (case child of None \<Rightarrow> s
                            | Some y \<Rightarrow> upd_proc y (\<lambda>p. p\<lparr>parentP := parentProc\<rparr>) s)
                  in deref parentProc (\<lambda>q.
                       retrievingCases2 (upd_proc q (\<lambda>p. p\<lparr>left := child\<rparr>) s1) parentProc child)))
              (\<lambda>s2. Ok (upd_proc x (\<lambda>p. p\<lparr>parentP := None, left := None, right := None\<rparr>) s2)))
      else if cases = 2 then retrievingCases2 s parentProc process
      else Ok s)"

end
