(* ===== verification/RB_Abs.thy ===== *)
theory RB_Abs
  imports RB_Code
begin

text \<open>
  The abstract side of the run queue: shape trees over process indices, one-hole contexts, the
  relation between a shape tree and the pointers of the process table, and the colour and
  black-height invariants, each split at the hole of a context.
\<close>

section \<open>Shape trees and one-hole contexts\<close>

datatype ptree = Leaf | Node ptree nat ptree

fun inorder :: "ptree \<Rightarrow> nat list" where
  "inorder Leaf = []"
| "inorder (Node l x r) = inorder l @ x # inorder r"

fun set_tree :: "ptree \<Rightarrow> nat set" where
  "set_tree Leaf = {}"
| "set_tree (Node l x r) = insert x (set_tree l \<union> set_tree r)"

fun nodes :: "ptree \<Rightarrow> nat" where
  "nodes Leaf = 0"
| "nodes (Node l x r) = Suc (nodes l + nodes r)"

lemma set_inorder [simp]: "set (inorder t) = set_tree t"
  by (induction t) auto

lemma length_inorder [simp]: "length (inorder t) = nodes t"
  by (induction t) auto

lemma finite_set_tree [simp]: "finite (set_tree t)"
  by (induction t) auto

lemma inorder_Nil [simp]: "inorder t = [] \<longleftrightarrow> t = Leaf"
  by (cases t) auto

fun ptr :: "ptree \<Rightarrow> pptr" where
  "ptr Leaf = None"
| "ptr (Node l x r) = Some x"

text \<open>\<open>FL x r\<close>: the hole is the left child of \<open>x\<close>, whose right subtree is \<open>r\<close>; \<open>FR\<close> mirrored.\<close>

datatype frame = FL nat ptree | FR nat ptree

fun fnode :: "frame \<Rightarrow> nat" where
  "fnode (FL x r) = x"
| "fnode (FR x l) = x"

fun plug :: "frame list \<Rightarrow> ptree \<Rightarrow> ptree" where
  "plug [] t = t"
| "plug (FL x r # C) t = plug C (Node t x r)"
| "plug (FR x l # C) t = plug C (Node l x t)"

definition cpar :: "frame list \<Rightarrow> pptr" where
  "cpar C = (case C of [] \<Rightarrow> None | f # _ \<Rightarrow> Some (fnode f))"

lemma cpar_simps [simp]: "cpar [] = None" "cpar (f # C) = Some (fnode f)"
  by (simp_all add: cpar_def)

fun lefts :: "frame list \<Rightarrow> nat list" where
  "lefts [] = []"
| "lefts (FL x r # C) = lefts C"
| "lefts (FR x l # C) = lefts C @ inorder l @ [x]"

fun rights :: "frame list \<Rightarrow> nat list" where
  "rights [] = []"
| "rights (FL x r # C) = x # inorder r @ rights C"
| "rights (FR x l # C) = rights C"

lemma inorder_plug: "inorder (plug C t) = lefts C @ inorder t @ rights C"
  by (induction C t rule: plug.induct) auto

definition cset :: "frame list \<Rightarrow> nat set" where
  "cset C = set (lefts C) \<union> set (rights C)"

lemma cset_simps [simp]:
  "cset [] = {}"
  "cset (FL x r # C) = insert x (set_tree r \<union> cset C)"
  "cset (FR x l # C) = insert x (set_tree l \<union> cset C)"
  by (auto simp: cset_def)

lemma set_plug [simp]: "set_tree (plug C t) = set_tree t \<union> cset C"
  by (induction C t rule: plug.induct) auto

lemma length_ctx: "length C + nodes t \<le> nodes (plug C t)"
  by (induction C t rule: plug.induct) auto

lemma plug_append: "plug (C @ D) t = plug D (plug C t)"
  by (induction C t rule: plug.induct) auto

lemma ptr_None [simp]: "ptr t = None \<longleftrightarrow> t = Leaf"
  by (cases t) auto

lemma None_ptr [simp]: "None = ptr t \<longleftrightarrow> t = Leaf"
  by (cases t) auto

lemma ptr_SomeD: "ptr t = Some x \<Longrightarrow> x \<in> set_tree t"
  by (cases t) auto

lemma ptr_notin [simp]: "x \<notin> set_tree t \<Longrightarrow> ptr t \<noteq> Some x"
  by (cases t) auto

lemma plug_Node: "f # C = C' \<Longrightarrow> plug C' t \<noteq> Leaf"
proof (induction C arbitrary: f C' t)
  case Nil
  then show ?case by (cases f) auto
next
  case (Cons g C)
  then show ?case by (cases f) auto
qed

text \<open>Distinctness of the whole tree, split at the hole.\<close>

fun cdist :: "frame list \<Rightarrow> bool" where
  "cdist [] = True"
| "cdist (FL x r # C) \<longleftrightarrow>
     x \<notin> set_tree r \<and> x \<notin> cset C \<and> set_tree r \<inter> cset C = {} \<and> distinct (inorder r) \<and> cdist C"
| "cdist (FR x l # C) \<longleftrightarrow>
     x \<notin> set_tree l \<and> x \<notin> cset C \<and> set_tree l \<inter> cset C = {} \<and> distinct (inorder l) \<and> cdist C"

lemma cdist_iff: "distinct (lefts C @ rights C) \<longleftrightarrow> cdist C"
  by (induction C rule: cdist.induct) (auto simp: cset_def)

lemma distinct_plug:
  "distinct (inorder (plug C t)) \<longleftrightarrow>
     distinct (inorder t) \<and> cdist C \<and> set_tree t \<inter> cset C = {}"
  unfolding inorder_plug cdist_iff [symmetric] by (auto simp: cset_def)

section \<open>The heap relation\<close>

fun tree_at :: "(nat \<Rightarrow> proc) \<Rightarrow> pptr \<Rightarrow> ptree \<Rightarrow> bool" where
  "tree_at P par Leaf = True"
| "tree_at P par (Node l x r) \<longleftrightarrow>
     parentP (P x) = par \<and> left (P x) = ptr l \<and> right (P x) = ptr r \<and>
     tree_at P (Some x) l \<and> tree_at P (Some x) r"

fun ctx_at :: "(nat \<Rightarrow> proc) \<Rightarrow> pptr \<Rightarrow> frame list \<Rightarrow> pptr \<Rightarrow> bool" where
  "ctx_at P rt [] p \<longleftrightarrow> rt = p"
| "ctx_at P rt (FL x r # C) p \<longleftrightarrow>
     left (P x) = p \<and> right (P x) = ptr r \<and> parentP (P x) = cpar C \<and>
     tree_at P (Some x) r \<and> ctx_at P rt C (Some x)"
| "ctx_at P rt (FR x l # C) p \<longleftrightarrow>
     right (P x) = p \<and> left (P x) = ptr l \<and> parentP (P x) = cpar C \<and>
     tree_at P (Some x) l \<and> ctx_at P rt C (Some x)"

lemma tree_at_plug:
  "rt = ptr (plug C t) \<and> tree_at P None (plug C t) \<longleftrightarrow>
     ctx_at P rt C (ptr t) \<and> tree_at P (cpar C) t"
  by (induction C t rule: plug.induct) auto

definition same_links :: "proc \<Rightarrow> proc \<Rightarrow> bool" where
  "same_links p q \<longleftrightarrow> left p = left q \<and> right p = right q \<and> parentP p = parentP q"

lemma tree_at_cong:
  "(\<And>i. i \<in> set_tree t \<Longrightarrow> same_links (P' i) (P i)) \<Longrightarrow> tree_at P' par t = tree_at P par t"
  by (induction t arbitrary: par) (auto simp: same_links_def)

lemma ctx_at_cong:
  "(\<And>i. i \<in> cset C \<Longrightarrow> same_links (P' i) (P i)) \<Longrightarrow> ctx_at P' rt C p = ctx_at P rt C p"
proof (induction C arbitrary: p)
  case Nil
  then show ?case by simp
next
  case (Cons f C)
  then show ?case
    by (cases f) (auto simp: same_links_def cong: tree_at_cong)
qed

lemma tree_at_upd [simp]: "x \<notin> set_tree t \<Longrightarrow> tree_at (P(x := v)) par t = tree_at P par t"
  by (rule tree_at_cong) (auto simp: same_links_def)

lemma ctx_at_upd [simp]: "x \<notin> cset C \<Longrightarrow> ctx_at (P(x := v)) rt C p = ctx_at P rt C p"
  by (rule ctx_at_cong) (auto simp: same_links_def)

definition rep :: "'a rq_state_scheme \<Rightarrow> ptree \<Rightarrow> bool" where
  "rep s t \<longleftrightarrow> rb_root (rbTree s) = ptr t \<and> tree_at (procs s) None t \<and> distinct (inorder t)"

lemma rep_plug:
  "rep s (plug C t) \<longleftrightarrow>
     ctx_at (procs s) (rb_root (rbTree s)) C (ptr t) \<and> tree_at (procs s) (cpar C) t \<and>
     distinct (inorder t) \<and> cdist C \<and> set_tree t \<inter> cset C = {}"
  unfolding rep_def using tree_at_plug [of "rb_root (rbTree s)" C t "procs s"]
  by (auto simp: distinct_plug)

section \<open>Colours\<close>

fun col :: "(nat \<Rightarrow> procColor) \<Rightarrow> ptree \<Rightarrow> procColor" where
  "col c Leaf = BLACK"
| "col c (Node l x r) = c x"

fun invc :: "(nat \<Rightarrow> procColor) \<Rightarrow> ptree \<Rightarrow> bool" where
  "invc c Leaf = True"
| "invc c (Node l x r) \<longleftrightarrow>
     (c x = RED \<longrightarrow> col c l = BLACK \<and> col c r = BLACK) \<and> invc c l \<and> invc c r"

fun bh :: "(nat \<Rightarrow> procColor) \<Rightarrow> ptree \<Rightarrow> nat" where
  "bh c Leaf = 0"
| "bh c (Node l x r) = bh c l + (if c x = BLACK then 1 else 0)"

fun invh :: "(nat \<Rightarrow> procColor) \<Rightarrow> ptree \<Rightarrow> bool" where
  "invh c Leaf = True"
| "invh c (Node l x r) \<longleftrightarrow> bh c l = bh c r \<and> invh c l \<and> invh c r"

fun cinvc :: "(nat \<Rightarrow> procColor) \<Rightarrow> frame list \<Rightarrow> procColor \<Rightarrow> bool" where
  "cinvc c [] k = True"
| "cinvc c (FL x r # C) k \<longleftrightarrow>
     (c x = RED \<longrightarrow> k = BLACK \<and> col c r = BLACK) \<and> invc c r \<and> cinvc c C (c x)"
| "cinvc c (FR x l # C) k \<longleftrightarrow>
     (c x = RED \<longrightarrow> k = BLACK \<and> col c l = BLACK) \<and> invc c l \<and> cinvc c C (c x)"

fun cinvh :: "(nat \<Rightarrow> procColor) \<Rightarrow> frame list \<Rightarrow> nat \<Rightarrow> bool" where
  "cinvh c [] n = True"
| "cinvh c (FL x r # C) n \<longleftrightarrow>
     bh c r = n \<and> invh c r \<and> cinvh c C (n + (if c x = BLACK then 1 else 0))"
| "cinvh c (FR x l # C) n \<longleftrightarrow>
     bh c l = n \<and> invh c l \<and> cinvh c C (n + (if c x = BLACK then 1 else 0))"

fun croot :: "(nat \<Rightarrow> procColor) \<Rightarrow> frame list \<Rightarrow> procColor \<Rightarrow> procColor" where
  "croot c [] k = k"
| "croot c (f # C) k = croot c C (c (fnode f))"

lemma invc_plug: "invc c (plug C t) \<longleftrightarrow> invc c t \<and> cinvc c C (col c t)"
  by (induction C t rule: plug.induct) auto

lemma invh_plug: "invh c (plug C t) \<longleftrightarrow> invh c t \<and> cinvh c C (bh c t)"
  by (induction C t rule: plug.induct) auto

lemma col_plug: "col c (plug C t) = croot c C (col c t)"
  by (induction C t rule: plug.induct) auto

lemma col_upd [simp]: "x \<notin> set_tree t \<Longrightarrow> col (c(x := k)) t = col c t"
  by (cases t) auto

lemma invc_upd [simp]: "x \<notin> set_tree t \<Longrightarrow> invc (c(x := k)) t = invc c t"
  by (induction t) auto

lemma bh_upd [simp]: "x \<notin> set_tree t \<Longrightarrow> bh (c(x := k)) t = bh c t"
  by (induction t) auto

lemma invh_upd [simp]: "x \<notin> set_tree t \<Longrightarrow> invh (c(x := k)) t = invh c t"
  by (induction t) auto

lemma cinvc_upd [simp]: "x \<notin> cset C \<Longrightarrow> cinvc (c(x := k)) C j = cinvc c C j"
  by (induction c C j rule: cinvc.induct) auto

lemma cinvh_upd [simp]: "x \<notin> cset C \<Longrightarrow> cinvh (c(x := k)) C n = cinvh c C n"
  by (induction c C n rule: cinvh.induct) auto

lemma fnode_cset: "fnode f \<in> cset (f # C)"
  by (cases f) auto

lemma croot_upd [simp]: "x \<notin> cset C \<Longrightarrow> croot (c(x := k)) C j = croot c C j"
proof (induction C arbitrary: j)
  case Nil
  then show ?case by simp
next
  case (Cons f C)
  then have "x \<notin> cset C" and "x \<noteq> fnode f" using fnode_cset [of f C] by (cases f; auto)+
  with Cons.IH show ?case by simp
qed

lemma cinvc_BLACK: "cinvc c C k \<Longrightarrow> cinvc c C BLACK"
  by (cases C; cases "hd C") auto

lemma neq_BLACK [simp]: "k \<noteq> BLACK \<longleftrightarrow> k = RED"
  by (cases k) auto

lemma neq_RED [simp]: "k \<noteq> RED \<longleftrightarrow> k = BLACK"
  by (cases k) auto

definition rbtree_inv :: "(nat \<Rightarrow> procColor) \<Rightarrow> ptree \<Rightarrow> bool" where
  "rbtree_inv c t \<longleftrightarrow> invc c t \<and> invh c t \<and> col c t = BLACK"

definition colors :: "'a rq_state_scheme \<Rightarrow> nat \<Rightarrow> procColor" where
  "colors s i = coloring (procs s i)"

end
