(* ===== verification/RB_Refine.thy ===== *)
theory RB_Refine
  imports RB_Abs
begin

text \<open>
  Each pointer routine of the red-black tree against its effect on the shape tree.
\<close>

section \<open>State updates\<close>

lemma upd_proc_simps [simp]:
  "procs (upd_proc i f s) = (procs s)(i := f (procs s i))"
  "rbTree (upd_proc i f s) = rbTree s"
  "cpus (upd_proc i f s) = cpus s"
  by (simp_all add: upd_proc_def)

lemma upd_tree_simps [simp]:
  "procs (upd_tree g s) = procs s"
  "rbTree (upd_tree g s) = g (rbTree s)"
  "cpus (upd_tree g s) = cpus s"
  by (simp_all add: upd_tree_def)

lemma set_color_simps [simp]:
  "procs (set_color k i s) = (procs s)(i := (procs s i)\<lparr>coloring := k\<rparr>)"
  "rbTree (set_color k i s) = rbTree s"
  "cpus (set_color k i s) = cpus s"
  by (simp_all add: set_color_def)

lemma colors_set_color [simp]: "colors (set_color k i s) = (colors s)(i := k)"
  by (auto simp: colors_def)

lemma rep_set_color [simp]: "rep (set_color k i s) t = rep s t"
proof -
  have "tree_at (procs (set_color k i s)) par u = tree_at (procs s) par u" for par u
    by (rule tree_at_cong) (auto simp: same_links_def)
  then show ?thesis by (simp add: rep_def del: set_color_simps(1))
qed

text \<open>
  \<open>relinked A s s'\<close>: only link and colour fields of the processes in \<open>A\<close>, and the root pointer,
  differ between the two states.
\<close>

definition payload :: "proc \<Rightarrow> proc" where
  "payload p = p\<lparr>coloring := BLACK, left := None, right := None, parentP := None\<rparr>"

definition relinked :: "nat set \<Rightarrow> 'a rq_state_scheme \<Rightarrow> 'a rq_state_scheme \<Rightarrow> bool" where
  "relinked A s s' \<longleftrightarrow>
     (\<exists>P r. s' = s\<lparr>procs := P, rbTree := (rbTree s)\<lparr>rb_root := r\<rparr>\<rparr> \<and>
       (\<forall>i. payload (P i) = payload (procs s i)) \<and> (\<forall>i. i \<notin> A \<longrightarrow> P i = procs s i))"

lemma relinkedI:
  "s' = s\<lparr>procs := P, rbTree := (rbTree s)\<lparr>rb_root := r\<rparr>\<rparr> \<Longrightarrow>
   (\<And>i. payload (P i) = payload (procs s i)) \<Longrightarrow> (\<And>i. i \<notin> A \<Longrightarrow> P i = procs s i) \<Longrightarrow> relinked A s s'"
  unfolding relinked_def by blast

lemma relinked_refl [simp]: "relinked A s s"
  by (rule relinkedI [where P = "procs s" and r = "rb_root (rbTree s)"]) simp_all

lemma relinked_trans [trans]:
  assumes "relinked A s t" and "relinked A t u"
  shows "relinked A s u"
proof -
  obtain P r where 1: "t = s\<lparr>procs := P, rbTree := (rbTree s)\<lparr>rb_root := r\<rparr>\<rparr>"
    "\<forall>i. payload (P i) = payload (procs s i)" "\<forall>i. i \<notin> A \<longrightarrow> P i = procs s i"
    using assms(1) unfolding relinked_def by blast
  obtain P' r' where 2: "u = t\<lparr>procs := P', rbTree := (rbTree t)\<lparr>rb_root := r'\<rparr>\<rparr>"
    "\<forall>i. payload (P' i) = payload (procs t i)" "\<forall>i. i \<notin> A \<longrightarrow> P' i = procs t i"
    using assms(2) unfolding relinked_def by blast
  show ?thesis
    by (rule relinkedI [where P = P' and r = r']) (use 1 2 in simp_all)
qed

lemma relinked_upd_proc:
  "i \<in> A \<Longrightarrow> payload (f (procs s i)) = payload (procs s i) \<Longrightarrow> relinked A s (upd_proc i f s)"
  by (rule relinkedI [where P = "(procs s)(i := f (procs s i))" and r = "rb_root (rbTree s)"])
     (auto simp: upd_proc_def)

lemma relinked_set_color: "i \<in> A \<Longrightarrow> relinked A s (set_color k i s)"
  unfolding set_color_def by (rule relinked_upd_proc) (simp_all add: payload_def)

lemma relinked_root: "relinked A s (upd_tree (\<lambda>t. t\<lparr>rb_root := r\<rparr>) s)"
  by (rule relinkedI [where P = "procs s" and r = r]) (simp_all add: upd_tree_def)


lemma relinked_upd_procI:
  "relinked A s t \<Longrightarrow> i \<in> A \<Longrightarrow> payload (f (procs t i)) = payload (procs t i) \<Longrightarrow>
   relinked A s (upd_proc i f t)"
  by (blast intro: relinked_trans relinked_upd_proc)

lemma relinked_rootI: "relinked A s t \<Longrightarrow> relinked A s (upd_tree (\<lambda>t. t\<lparr>rb_root := r\<rparr>) t)"
  by (blast intro: relinked_trans relinked_root)

lemma relinked_set_colorI: "relinked A s t \<Longrightarrow> i \<in> A \<Longrightarrow> relinked A s (set_color k i t)"
  by (blast intro: relinked_trans relinked_set_color)

lemmas relinked_intros = relinked_upd_procI relinked_rootI relinked_set_colorI relinked_refl

lemma colors_upd_proc:
  "coloring (f (procs s i)) = coloring (procs s i) \<Longrightarrow> colors (upd_proc i f s) = colors s"
  by (auto simp: colors_def)

lemma colors_upd_tree [simp]: "colors (upd_tree g s) = colors s"
  by (auto simp: colors_def)

section \<open>Rotations\<close>

lemma tree_at_same:
  "tree_at P par t \<Longrightarrow> (\<And>i. i \<in> set_tree t \<Longrightarrow> P' i = P i) \<Longrightarrow> tree_at P' par t"
  by (subst tree_at_cong [of _ _ P]) (auto simp: same_links_def)

lemma ctx_at_same:
  "ctx_at P rt C p \<Longrightarrow> (\<And>i. i \<in> cset C \<Longrightarrow> P' i = P i) \<Longrightarrow> ctx_at P' rt C p"
  by (subst ctx_at_cong [of _ _ P]) (auto simp: same_links_def)

lemma tree_at_new_parent:
  assumes "tree_at P par t" and "distinct (inorder t)"
    and "\<And>i. i \<in> set_tree t \<Longrightarrow>
      P' i = (if ptr t = Some i then (P i)\<lparr>parentP := par'\<rparr> else P i)"
  shows "tree_at P' par' t"
proof (cases t)
  case (Node l z r)
  have "z \<notin> set_tree l" "z \<notin> set_tree r" using assms(2) Node by auto
  then have "P' i = P i" if "i \<in> set_tree l \<union> set_tree r" for i
    using assms(3) [of i] that Node by auto
  then have "tree_at P' (Some z) l" "tree_at P' (Some z) r"
    using assms(1) Node by (auto intro: tree_at_same)
  then show ?thesis using assms(1) assms(3) [of z] Node by auto
qed simp

text \<open>
  The pointer changes of a rotation at \<open>x\<close> with child \<open>y\<close> and inner subtree \<open>b\<close>, with the parent
  of \<open>x\<close> redirected to \<open>y\<close>: what they do to the context.
\<close>

lemma ctx_at_redirect:
  assumes "ctx_at P rt C (Some x)" and "cdist C"
    and "\<And>i. i \<in> cset C \<Longrightarrow> cpar C \<noteq> Some i \<Longrightarrow> P' i = P i"
    and "\<And>q r D. C = FL q r # D \<Longrightarrow> P' q = (P q)\<lparr>left := Some y\<rparr>"
    and "\<And>q l D. C = FR q l # D \<Longrightarrow> P' q = (P q)\<lparr>right := Some y\<rparr>"
    and "rt' = (if C = [] then Some y else rt)"
  shows "ctx_at P' rt' C (Some y)"
proof (cases C)
  case (Cons f D)
  show ?thesis
  proof (cases f)
    case (FL q r)
    have "\<And>i. i \<in> set_tree r \<union> cset D \<Longrightarrow> P' i = P i"
      using assms(2,3) Cons FL by auto
    then have "tree_at P' (Some q) r" "ctx_at P' rt D (Some q)"
      using assms(1) Cons FL by (auto intro: tree_at_same ctx_at_same)
    moreover have "P' q = (P q)\<lparr>left := Some y\<rparr>" by (rule assms(4)) (simp add: Cons FL)
    ultimately show ?thesis using assms(1,6) Cons FL by auto
  next
    case (FR q l)
    have "\<And>i. i \<in> set_tree l \<union> cset D \<Longrightarrow> P' i = P i"
      using assms(2,3) Cons FR by auto
    then have "tree_at P' (Some q) l" "ctx_at P' rt D (Some q)"
      using assms(1) Cons FR by (auto intro: tree_at_same ctx_at_same)
    moreover have "P' q = (P q)\<lparr>right := Some y\<rparr>" by (rule assms(5)) (simp add: Cons FR)
    ultimately show ?thesis using assms(1,6) Cons FR by auto
  qed
qed (use assms(6) in simp)

text \<open>
  What \<open>rotateLeft\<close> writes: \<open>x\<close> and its right child \<open>y\<close> change places, the inner subtree \<open>b\<close> moves
  below \<open>x\<close>, and the parent of \<open>x\<close> (or the root pointer) is redirected to \<open>y\<close>.
\<close>

definition left_rotated ::
  "'a rq_state_scheme \<Rightarrow> frame list \<Rightarrow> nat \<Rightarrow> ptree \<Rightarrow> nat \<Rightarrow> 'a rq_state_scheme \<Rightarrow> bool" where
  "left_rotated s C x b y s' \<longleftrightarrow>
     procs s' x = (procs s x)\<lparr>right := ptr b, parentP := Some y\<rparr> \<and>
     procs s' y = (procs s y)\<lparr>parentP := cpar C, left := Some x\<rparr> \<and>
     (\<forall>i \<in> set_tree b. procs s' i =
        (if ptr b = Some i then (procs s i)\<lparr>parentP := Some x\<rparr> else procs s i)) \<and>
     (\<forall>i. i \<noteq> x \<and> i \<noteq> y \<and> i \<notin> set_tree b \<and> cpar C \<noteq> Some i \<longrightarrow> procs s' i = procs s i) \<and>
     (\<forall>q r D. C = FL q r # D \<longrightarrow> procs s' q = (procs s q)\<lparr>left := Some y\<rparr>) \<and>
     (\<forall>q l D. C = FR q l # D \<longrightarrow> procs s' q = (procs s q)\<lparr>right := Some y\<rparr>) \<and>
     rb_root (rbTree s') = (if C = [] then Some y else rb_root (rbTree s))"

lemma cpar_cset: "cpar C = Some i \<Longrightarrow> i \<in> cset C"
  using fnode_cset by (auto simp: cpar_def split: list.splits)

lemma rotateLeft_effect:
  assumes links: "right (procs s x) = Some y" "left (procs s y) = ptr b" "parentP (procs s x) = cpar C"
    and ctx: "ctx_at (procs s) rt C (Some x)"
    and dist: "x \<noteq> y" "x \<notin> set_tree b \<union> cset C" "y \<notin> set_tree b \<union> cset C"
      "set_tree b \<inter> cset C = {}" "cdist C"
    and inA: "insert x (insert y (set_tree b \<union> cset C)) \<subseteq> A"
  shows "\<exists>s'. rotateLeft s (Some x) = Ok s' \<and> left_rotated s C x b y s' \<and> relinked A s s' \<and>
    colors s' = colors s"
proof -
  define s1 where "s1 = upd_proc x (\<lambda>p. p\<lparr>right := left (procs s y)\<rparr>) s"
  define s2 where "s2 = (case left (procs s1 y) of None \<Rightarrow> s1
      | Some z \<Rightarrow> upd_proc z (\<lambda>p. p\<lparr>parentP := Some x\<rparr>) s1)"
  define s3 where "s3 = upd_proc y (\<lambda>p. p\<lparr>parentP := parentP (procs s2 x)\<rparr>) s2"
  define s4 where "s4 = (case parentP (procs s3 x) of None \<Rightarrow> upd_tree (\<lambda>t. t\<lparr>rb_root := Some y\<rparr>) s3
      | Some q \<Rightarrow> if left (procs s3 q) = Some x then upd_proc q (\<lambda>p. p\<lparr>left := Some y\<rparr>) s3
                 else upd_proc q (\<lambda>p. p\<lparr>right := Some y\<rparr>) s3)"
  define s5 where "s5 = upd_proc y (\<lambda>p. p\<lparr>left := Some x\<rparr>) s4"
  define s6 where "s6 = upd_proc x (\<lambda>p. p\<lparr>parentP := Some y\<rparr>) s5"
  have run: "rotateLeft s (Some x) = Ok s6"
    unfolding rotateLeft_def links(1) deref_Some Let_def s6_def s5_def s4_def s3_def s2_def s1_def
    by (rule refl)
  have l1: "left (procs s1 y) = ptr b" using links dist by (simp add: s1_def)
  have P2: "procs s2 i = (if ptr b = Some i then (procs s1 i)\<lparr>parentP := Some x\<rparr> else procs s1 i)" for i
    unfolding s2_def l1 by (auto split: option.splits)
  have x3: "parentP (procs s2 x) = cpar C" "parentP (procs s3 x) = cpar C" "rbTree s3 = rbTree s"
    using dist links by (auto simp: s3_def P2 s1_def) (auto simp: s2_def s1_def split: option.splits)
  have out: "i \<noteq> x" "i \<noteq> y" "ptr b \<noteq> Some i" if "i \<in> cset C" for i
    using that dist(2-4) ptr_SomeD [of b i] by blast+
  have P3: "procs s3 i = procs s i" if "i \<in> cset C" for i
    using out [OF that] by (simp add: s3_def P2 s1_def)
  have P4: "procs s4 i = procs s3 i" if "cpar C \<noteq> Some i" for i
    unfolding s4_def x3 using that by (auto split: option.splits)
  have P6: "procs s6 q = procs s4 q" if "q \<in> cset C" for q
    using out [OF that] by (simp add: s6_def s5_def)
  have inner: "cpar C \<noteq> Some x" "cpar C \<noteq> Some y" "i \<in> set_tree b \<Longrightarrow> cpar C \<noteq> Some i \<and> i \<noteq> x \<and> i \<noteq> y" for i
    using dist(2-4) cpar_cset by blast+
  have "procs s6 q = (procs s q)\<lparr>left := Some y\<rparr>" if "C = FL q r # D" for q r D
    using P6 [of q] P3 ctx that unfolding s4_def x3 by auto
  moreover have "procs s6 q = (procs s q)\<lparr>right := Some y\<rparr>" if "C = FR q l # D" for q l D
    using P6 [of q] P3 [of q] ctx dist that unfolding s4_def x3 by auto
  moreover have "rb_root (rbTree s6) = (if C = [] then Some y else rb_root (rbTree s))"
    unfolding s6_def s5_def s4_def x3(2) using x3(3) by (auto simp: cpar_def split: list.splits)
  ultimately have "left_rotated s C x b y s6"
    unfolding left_rotated_def using inner dist(1-3) x3 links ptr_SomeD [of b]
    by (auto simp: s6_def s5_def P4 s3_def P2 s1_def)
  moreover have "relinked A s s6"
  proof -
    have "relinked A s s1" unfolding s1_def using inA by (auto intro!: relinked_intros simp: payload_def)
    then have "relinked A s s2" unfolding s2_def l1
      using inA by (cases b) (auto intro!: relinked_intros simp: payload_def)
    then have "relinked A s s3" unfolding s3_def
      using inA by (auto intro!: relinked_intros simp: payload_def)
    then have "relinked A s s4" unfolding s4_def x3(2)
      using inA cpar_cset [of C] by (auto simp: payload_def intro!: relinked_intros split: option.splits)
    then show ?thesis unfolding s6_def s5_def
      using inA by (auto intro!: relinked_intros simp: payload_def)
  qed
  moreover have "colors s6 = colors s"
  proof -
    have "colors s2 = colors s"
      unfolding s2_def by (auto simp: s1_def colors_upd_proc split: option.splits)
    moreover have "colors s4 = colors s3"
      unfolding s4_def by (auto simp: colors_upd_proc split: option.splits)
    ultimately show ?thesis by (simp add: s6_def s5_def s3_def colors_upd_proc)
  qed
  ultimately show ?thesis using run by blast
qed

definition kids_kept :: "nat set \<Rightarrow> 'a rq_state_scheme \<Rightarrow> 'a rq_state_scheme \<Rightarrow> bool" where
  "kids_kept B s s' \<longleftrightarrow> (\<forall>i \<in> B. left (procs s' i) = left (procs s i) \<and>
     right (procs s' i) = right (procs s i))"

lemma left_rotated_rep:
  assumes rep: "rep s (plug C (Node a x (Node b y c)))" and rot: "left_rotated s C x b y s'"
  shows "rep s' (plug C (Node (Node a x b) y c))"
proof -
  have ats: "tree_at (procs s) (Some x) a" "tree_at (procs s) (Some y) b"
      "tree_at (procs s) (Some y) c" "ctx_at (procs s) (rb_root (rbTree s)) C (Some x)"
    and dist: "x \<notin> set_tree a \<union> set_tree b \<union> set_tree c \<union> cset C"
      "y \<notin> set_tree a \<union> set_tree b \<union> set_tree c \<union> cset C"
      "(set_tree a \<union> set_tree b \<union> set_tree c) \<inter> cset C = {}" "cdist C"
      "set_tree b \<inter> (set_tree a \<union> set_tree c) = {}" "distinct (inorder b)"
    using rep by (auto simp: rep_plug)
  note rot = rot [unfolded left_rotated_def]
  have same: "procs s' i = procs s i" if "i \<noteq> x" "i \<noteq> y" "i \<notin> set_tree b" "cpar C \<noteq> Some i" for i
    using rot that by blast
  have "ctx_at (procs s') (rb_root (rbTree s')) C (Some y)"
    by (rule ctx_at_redirect [OF ats(4) dist(4)], rule same) (use rot dist(1-3) in blast)+
  moreover have "tree_at (procs s') (Some x) a"
    by (rule tree_at_same [OF ats(1) same]) (use dist cpar_cset [of C] in blast)+
  moreover have "tree_at (procs s') (Some y) c"
    by (rule tree_at_same [OF ats(3) same]) (use dist cpar_cset [of C] in blast)+
  moreover have "tree_at (procs s') (Some x) b"
    by (rule tree_at_new_parent [OF ats(2) dist(6)]) (use rot in blast)
  ultimately show ?thesis using rep rot by (auto simp: rep_plug)
qed

lemma rotateLeft_rep:
  assumes rep: "rep s (plug C (Node a x (Node b y c)))"
    and A: "set_tree (plug C (Node a x (Node b y c))) \<subseteq> A"
  shows "\<exists>s'. rotateLeft s (Some x) = Ok s' \<and> rep s' (plug C (Node (Node a x b) y c)) \<and>
    relinked A s s' \<and> colors s' = colors s \<and> kids_kept (- {x, y} - {i. cpar C = Some i}) s s'"
proof -
  have "set_tree b \<inter> cset C = {}" using rep by (auto simp: rep_plug)
  then obtain s' where s': "rotateLeft s (Some x) = Ok s'" "left_rotated s C x b y s'"
    "relinked A s s'" "colors s' = colors s"
    using rotateLeft_effect [of s x y b C "rb_root (rbTree s)" A] rep A by (auto simp: rep_plug)
  have "kids_kept (- {x, y} - {i. cpar C = Some i}) s s'"
    unfolding kids_kept_def
  proof
    fix i assume "i \<in> - {x, y} - {i. cpar C = Some i}"
    then show "left (procs s' i) = left (procs s i) \<and> right (procs s' i) = right (procs s i)"
      using s'(2) by (cases "i \<in> set_tree b") (auto simp: left_rotated_def)
  qed
  with s' left_rotated_rep [OF rep s'(2)] show ?thesis by blast
qed


subsection \<open>Rotation to the right, by symmetry\<close>

definition mirr_proc :: "proc \<Rightarrow> proc" where
  "mirr_proc p = p\<lparr>left := right p, right := left p\<rparr>"

definition mirr :: "'a rq_state_scheme \<Rightarrow> 'a rq_state_scheme" where
  "mirr s = s\<lparr>procs := (\<lambda>i. mirr_proc (procs s i))\<rparr>"

fun mirror :: "ptree \<Rightarrow> ptree" where
  "mirror Leaf = Leaf"
| "mirror (Node l x r) = Node (mirror r) x (mirror l)"

fun mirr_frame :: "frame \<Rightarrow> frame" where
  "mirr_frame (FL x r) = FR x (mirror r)"
| "mirr_frame (FR x l) = FL x (mirror l)"

lemma mirr_proc_simps [simp]:
  "left (mirr_proc p) = right p" "right (mirr_proc p) = left p" "parentP (mirr_proc p) = parentP p"
  "coloring (mirr_proc p) = coloring p"
  by (simp_all add: mirr_proc_def)

lemma mirr_simps [simp]:
  "procs (mirr s) i = mirr_proc (procs s i)" "rbTree (mirr s) = rbTree s"
  by (simp_all add: mirr_def)

lemma mirr_proc_invol [simp]: "mirr_proc (mirr_proc p) = p"
  by (simp add: mirr_proc_def)

lemma mirr_mirr [simp]: "mirr (mirr s) = s"
  by (simp add: mirr_def mirr_proc_def)

lemma upd_proc_mirr: "mirr (upd_proc i f (mirr s)) = upd_proc i (\<lambda>p. mirr_proc (f (mirr_proc p))) s"
  by (auto simp: mirr_def upd_proc_def fun_eq_iff mirr_proc_def)

lemma mirror_simps [simp]:
  "ptr (mirror t) = ptr t" "set_tree (mirror t) = set_tree t" "inorder (mirror t) = rev (inorder t)"
  "mirror (mirror t) = t"
  by (induction t) auto

lemma plug_mirror: "plug (map mirr_frame C) (mirror t) = mirror (plug C t)"
  by (induction C t rule: plug.induct) auto

lemma tree_at_mirr: "tree_at (\<lambda>i. mirr_proc (P i)) par (mirror t) = tree_at P par t"
  by (induction t arbitrary: par) auto

lemma rep_mirr [simp]: "rep (mirr s) (mirror t) = rep s t"
  using tree_at_mirr [of "procs s" None t] by (simp add: rep_def mirr_def)

lemma payload_mirr: "payload (mirr_proc p) = payload p"
  by (simp add: payload_def mirr_proc_def)

lemma upd_mirr:
  "upd_proc i (\<lambda>p. p\<lparr>right := v\<rparr>) (mirr s) = mirr (upd_proc i (\<lambda>p. p\<lparr>left := v\<rparr>) s)"
  "upd_proc i (\<lambda>p. p\<lparr>left := v\<rparr>) (mirr s) = mirr (upd_proc i (\<lambda>p. p\<lparr>right := v\<rparr>) s)"
  "upd_proc i (\<lambda>p. p\<lparr>parentP := v\<rparr>) (mirr s) = mirr (upd_proc i (\<lambda>p. p\<lparr>parentP := v\<rparr>) s)"
  "upd_tree g (mirr s) = mirr (upd_tree g s)"
  by (auto simp: mirr_def upd_proc_def upd_tree_def fun_eq_iff mirr_proc_def)

lemma rotateRight_mirr:
  "rotateRight s p = rbind (rotateLeft (mirr s) p) (\<lambda>s'. Ok (mirr s'))"
proof (cases p)
  case (Some x)
  show ?thesis
  proof (cases "left (procs s x)")
    case (Some y)
    have *: "(case u of None \<Rightarrow> mirr a | Some z \<Rightarrow> mirr (f z)) = mirr (case u of None \<Rightarrow> a | Some z \<Rightarrow> f z)"
      for u :: pptr and a :: "'a rq_state_scheme" and f by (cases u) auto
    show ?thesis
      unfolding rotateRight_def rotateLeft_def Let_def \<open>p = Some x\<close>
      by (simp only: deref_Some mirr_simps mirr_proc_simps Some upd_mirr * if_distrib [of mirr, symmetric]
          rbind.simps mirr_mirr)
  qed (simp add: rotateRight_def rotateLeft_def \<open>p = Some x\<close>)
qed (simp add: rotateRight_def rotateLeft_def)

lemma relinked_mirr: "relinked A (mirr s) s' \<Longrightarrow> relinked A s (mirr s')"
proof -
  assume "relinked A (mirr s) s'"
  then obtain P r where P: "s' = (mirr s)\<lparr>procs := P, rbTree := (rbTree s)\<lparr>rb_root := r\<rparr>\<rparr>"
    "\<forall>i. payload (P i) = payload (procs s i)" "\<forall>i. i \<notin> A \<longrightarrow> P i = mirr_proc (procs s i)"
    by (auto simp: relinked_def payload_mirr)
  show ?thesis
    by (rule relinkedI [where P = "\<lambda>i. mirr_proc (P i)" and r = r])
       (use P in \<open>auto simp: payload_mirr mirr_def\<close>)
qed

lemma cpar_mirr [simp]: "cpar (map mirr_frame C) = cpar C"
  by (cases C; cases "hd C") auto

lemma rotateRight_rep:
  assumes rep: "rep s (plug C (Node (Node c y b) x a))"
    and A: "set_tree (plug C (Node (Node c y b) x a)) \<subseteq> A"
  shows "\<exists>s'. rotateRight s (Some x) = Ok s' \<and> rep s' (plug C (Node c y (Node b x a))) \<and>
    relinked A s s' \<and> colors s' = colors s \<and> kids_kept (- {x, y} - {i. cpar C = Some i}) s s'"
proof -
  let ?C = "map mirr_frame C"
  have m: "plug ?C (Node (mirror a) x (Node (mirror b) y (mirror c))) = mirror (plug C (Node (Node c y b) x a))"
    "plug ?C (Node (Node (mirror a) x (mirror b)) y (mirror c)) = mirror (plug C (Node c y (Node b x a)))"
    by (simp_all flip: plug_mirror)
  obtain s' where s': "rotateLeft (mirr s) (Some x) = Ok s'"
    "rep s' (mirror (plug C (Node c y (Node b x a))))" "relinked A (mirr s) s'"
    "colors s' = colors (mirr s)" "kids_kept (- {x, y} - {i. cpar C = Some i}) (mirr s) s'"
    using rotateLeft_rep [of "mirr s" ?C "mirror a" x "mirror b" y "mirror c" A] rep A
    unfolding m by auto
  have "rep (mirr s') (plug C (Node c y (Node b x a)))"
    using s'(2) rep_mirr [of "mirr s'"] by simp
  moreover have "colors (mirr s') = colors s" using s'(4) by (auto simp: colors_def fun_eq_iff)
  moreover have "kids_kept (- {x, y} - {i. cpar C = Some i}) s (mirr s')"
    using s'(5) by (auto simp: kids_kept_def)
  ultimately show ?thesis using s'(1,3) by (auto simp: rotateRight_mirr relinked_mirr)
qed

end
