(* ===== verification/RB_Insert.thy ===== *)
theory RB_Insert
  imports RB_Refine
begin

text \<open>
  Insertion: \<open>insertproc\<close> hangs the process below the leaf its virtual runtime selects, and
  \<open>insertionCases\<close> restores the red-black invariant on the way back to the root.
\<close>

section \<open>The cases of insertionCases\<close>

lemma insertionCases_1:
  "insertionCases (Suc n) s (Some x) 1 =
     (if parentP (procs s x) = None then Ok (set_color BLACK x s)
      else insertionCases n s (Some x) 2)"
  by (simp add: insertionCases.simps(2))

lemma insertionCases_2:
  "parentP (procs s x) = Some q \<Longrightarrow>
   insertionCases (Suc n) s (Some x) 2 =
     (if coloring (procs s q) = RED then insertionCases n s (Some x) 3 else Ok s)"
  by (simp add: insertionCases.simps(2))

fun fsib :: "frame \<Rightarrow> ptree" where
  "fsib (FL x r) = r"
| "fsib (FR x l) = l"

lemma rep_focus:
  assumes "rep s (plug C (Node l x r))"
  shows "parentP (procs s x) = cpar C" "left (procs s x) = ptr l" "right (procs s x) = ptr r"
  using assms by (auto simp: rep_plug)

lemma rep_grand:
  assumes "rep s (plug (f # g # D) (Node l x r))"
  shows "retrieveGrandparentproc s (Some x) = Some (fnode g)"
    and "retrieveUncleproc s (Some x) = Ok (ptr (fsib g))"
proof -
  have "parentP (procs s x) = Some (fnode f)" "parentP (procs s (fnode f)) = Some (fnode g)"
    using assms unfolding rep_plug by (cases f; auto)+
  then show *: "retrieveGrandparentproc s (Some x) = Some (fnode g)"
    by (simp add: retrieveGrandparentproc_def)
  show "retrieveUncleproc s (Some x) = Ok (ptr (fsib g))"
  proof (cases g)
    case (FL G u)
    then have "left (procs s G) = Some (fnode f)" "right (procs s G) = ptr u"
      using assms unfolding rep_plug by (cases f; auto)+
    then show ?thesis using * FL \<open>parentP (procs s x) = Some (fnode f)\<close>
      by (simp add: retrieveUncleproc_def)
  next
    case (FR G u)
    then have "left (procs s G) = ptr u" "fnode f \<notin> set_tree u"
      using assms unfolding rep_plug by (cases f; auto)+
    moreover from this have "Some (fnode f) \<noteq> ptr u" using ptr_notin by metis
    ultimately show ?thesis using * FR \<open>parentP (procs s x) = Some (fnode f)\<close>
      by (simp add: retrieveUncleproc_def)
  qed
qed

lemma insertionCases_3_black:
  assumes "rep s (plug (f # g # D) (Node l x r))" and "col (colors s) (fsib g) = BLACK"
  shows "insertionCases (Suc n) s (Some x) 3 = insertionCases n s (Some x) 4"
  using rep_grand [OF assms(1)] assms(2)
  by (cases "fsib g") (simp_all add: insertionCases.simps(2) colors_def)

lemma insertionCases_3_red:
  assumes rep: "rep s (plug (f # g # D) (Node l x r))" and u: "fsib g = Node ul u ur"
    and "colors s u = RED"
  shows "insertionCases (Suc n) s (Some x) 3 =
    insertionCases n (set_color RED (fnode g) (set_color BLACK u (set_color BLACK (fnode f) s)))
      (Some (fnode g)) 1"
proof -
  have "rep (set_color BLACK u (set_color BLACK (fnode f) s)) (plug (f # g # D) (Node l x r))"
    using rep by simp
  from rep_grand(1) [OF this] rep_grand(2) [OF rep] rep_focus(1) [OF rep] assms(2,3) show ?thesis
    by (simp add: insertionCases.simps(2) colors_def Let_def del: set_color_simps)
qed

lemma set_color_links:
  "left (procs (set_color k i s) j) = left (procs s j)"
  "right (procs (set_color k i s) j) = right (procs s j)"
  "parentP (procs (set_color k i s) j) = parentP (procs s j)"
  by simp_all

lemma kids_kept_set_color [simp]: "kids_kept B (set_color k i s) s' = kids_kept B s s'"
  by (simp add: kids_kept_def set_color_links del: set_color_simps)

lemma kids_kept_mono: "kids_kept B s s' \<Longrightarrow> A \<subseteq> B \<Longrightarrow> kids_kept A s s'"
  by (auto simp: kids_kept_def)

lemma kids_kept_trans: "kids_kept B s s' \<Longrightarrow> kids_kept B s' s'' \<Longrightarrow> kids_kept B s s''"
  by (simp add: kids_kept_def)

lemma insertionCases_5:
  assumes "parentP (procs s x) = Some q" and "retrieveGrandparentproc s (Some x) = Some g"
  shows "insertionCases (Suc n) s (Some x) 5 =
    (let s2 = set_color BLACK q (set_color RED g s)
     in if left (procs s q) = Some x \<and> left (procs s g) = Some q then rotateRight s2 (Some g)
        else if right (procs s q) = Some x \<and> right (procs s g) = Some q then rotateLeft s2 (Some g)
        else Ok s2)"
  using assms
  by (simp add: insertionCases.simps(2) Let_def set_color_links eq_commute [of "Some q"]
      del: set_color_simps)

lemma insertionCases_4:
  assumes "parentP (procs s x) = Some q" and "retrieveGrandparentproc s (Some x) = Some g"
  shows "insertionCases (Suc n) s (Some x) 4 =
    (if right (procs s q) = Some x \<and> left (procs s g) = Some q then
       rbind (rotateLeft s (Some q)) (\<lambda>s1. insertionCases n s1 (left (procs s1 x)) 5)
     else if left (procs s q) = Some x \<and> right (procs s g) = Some q then
       rbind (rotateRight s (Some q)) (\<lambda>s1. insertionCases n s1 (right (procs s1 x)) 5)
     else insertionCases n s (Some x) 5)"
  using assms by (simp add: insertionCases.simps(2) Let_def eq_commute [of "Some q"])

lemma insertionCases_5_left:
  assumes rep: "rep s (plug (FL q b # FL g u # D) (Node l x r))"
    and A: "set_tree (plug (FL q b # FL g u # D) (Node l x r)) \<subseteq> A"
  shows "\<exists>s'. insertionCases (Suc n) s (Some x) 5 = Ok s' \<and>
    rep s' (plug D (Node (Node l x r) q (Node b g u))) \<and> relinked A s s' \<and>
    colors s' = (colors s)(g := RED, q := BLACK) \<and> kids_kept (set_tree (Node l x r)) s s'"
proof -
  let ?s = "set_color BLACK q (set_color RED g s)"
  have rep': "rep ?s (plug D (Node (Node (Node l x r) q b) g u))" using rep by simp
  have A': "set_tree (plug D (Node (Node (Node l x r) q b) g u)) \<subseteq> A" using A by auto
  obtain s' where s': "rotateRight ?s (Some g) = Ok s'"
    "rep s' (plug D (Node (Node l x r) q (Node b g u)))" "relinked A ?s s'" "colors s' = colors ?s"
    "kids_kept (- {g, q} - {i. cpar D = Some i}) ?s s'"
    using rotateRight_rep [OF rep' A'] by blast
  have "parentP (procs s x) = Some q" "left (procs s q) = Some x" "left (procs s g) = Some q"
    using rep by (auto simp: rep_plug)
  then have "insertionCases (Suc n) s (Some x) 5 = rotateRight ?s (Some g)"
    using insertionCases_5 [OF _ rep_grand(1) [OF rep]] by (simp add: Let_def)
  moreover have "relinked A s s'"
    by (rule relinked_trans [OF _ s'(3)]) (use A in \<open>auto intro!: relinked_intros\<close>)
  moreover have "set_tree (Node l x r) \<inter> cset (FL q b # FL g u # D) = {}"
    using rep unfolding rep_plug by blast
  then have "set_tree (Node l x r) \<subseteq> - {g, q} - {i. cpar D = Some i}"
    using cpar_cset [of D] by auto
  with s'(5) have "kids_kept (set_tree (Node l x r)) s s'"
    unfolding kids_kept_set_color by (rule kids_kept_mono)
  ultimately show ?thesis using s' by auto
qed

lemma insertionCases_5_right:
  assumes rep: "rep s (plug (FR q b # FR g u # D) (Node l x r))"
    and A: "set_tree (plug (FR q b # FR g u # D) (Node l x r)) \<subseteq> A"
  shows "\<exists>s'. insertionCases (Suc n) s (Some x) 5 = Ok s' \<and>
    rep s' (plug D (Node (Node u g b) q (Node l x r))) \<and> relinked A s s' \<and>
    colors s' = (colors s)(g := RED, q := BLACK)"
proof -
  let ?s = "set_color BLACK q (set_color RED g s)"
  have rep': "rep ?s (plug D (Node u g (Node b q (Node l x r))))" using rep by simp
  have A': "set_tree (plug D (Node u g (Node b q (Node l x r)))) \<subseteq> A" using A by auto
  obtain s' where s': "rotateLeft ?s (Some g) = Ok s'"
    "rep s' (plug D (Node (Node u g b) q (Node l x r)))" "relinked A ?s s'" "colors s' = colors ?s"
    using rotateLeft_rep [OF rep' A'] by blast
  have "parentP (procs s x) = Some q" "right (procs s q) = Some x" "right (procs s g) = Some q"
    "left (procs s q) = ptr b" "x \<notin> set_tree b"
    using rep by (auto simp: rep_plug)
  then have "insertionCases (Suc n) s (Some x) 5 = rotateLeft ?s (Some g)"
    using insertionCases_5 [OF _ rep_grand(1) [OF rep]] by (simp add: Let_def)
  moreover have "relinked A s s'"
    by (rule relinked_trans [OF _ s'(3)]) (use A in \<open>auto intro!: relinked_intros\<close>)
  ultimately show ?thesis using s' by auto
qed

lemma insertionCases_4_outer:
  assumes rep: "rep s (plug (f # g # D) (Node l x r))"
    and "(\<exists>q b h u. f = FL q b \<and> g = FL h u) \<or> (\<exists>q b h u. f = FR q b \<and> g = FR h u)"
  shows "insertionCases (Suc n) s (Some x) 4 = insertionCases n s (Some x) 5"
  using assms(2)
proof (elim disjE exE conjE)
  fix q b h u assume fg: "f = FL q b" "g = FL h u"
  have "parentP (procs s x) = Some q" "left (procs s q) = Some x" "left (procs s h) = Some q"
    "right (procs s q) = ptr b" "x \<notin> set_tree b" "right (procs s h) = ptr u" "q \<notin> set_tree u"
    using rep unfolding rep_plug fg by auto
  then show ?thesis using rep_grand(1) [OF rep] fg 
    by (simp add: insertionCases_4)
next
  fix q b h u assume fg: "f = FR q b" "g = FR h u"
  have "parentP (procs s x) = Some q" "right (procs s q) = Some x" "right (procs s h) = Some q"
    "left (procs s q) = ptr b" "x \<notin> set_tree b" "left (procs s h) = ptr u" "q \<notin> set_tree u"
    using rep unfolding rep_plug fg by auto
  then show ?thesis using rep_grand(1) [OF rep] fg 
    by (simp add: insertionCases_4)
qed

lemma insertionCases_4_inner_left:
  assumes rep: "rep s (plug (FR q b # FL g u # D) (Node l x r))"
    and A: "set_tree (plug (FR q b # FL g u # D) (Node l x r)) \<subseteq> A"
  shows "\<exists>s'. insertionCases (Suc n) s (Some x) 4 = insertionCases n s' (Some q) 5 \<and>
    rep s' (plug (FL x r # FL g u # D) (Node b q l)) \<and> relinked A s s' \<and> colors s' = colors s"
proof -
  have rep': "rep s (plug (FL g u # D) (Node b q (Node l x r)))" using rep by simp
  have A': "set_tree (plug (FL g u # D) (Node b q (Node l x r))) \<subseteq> A" using A by auto
  obtain s' where s': "rotateLeft s (Some q) = Ok s'"
    "rep s' (plug (FL g u # D) (Node (Node b q l) x r))" "relinked A s s'" "colors s' = colors s"
    using rotateLeft_rep [OF rep' A'] by blast
  have "parentP (procs s x) = Some q" "right (procs s q) = Some x" "left (procs s g) = Some q"
    using rep by (auto simp: rep_plug)
  moreover have "left (procs s' x) = Some q" using s'(2) unfolding rep_plug by auto
  ultimately have "insertionCases (Suc n) s (Some x) 4 = insertionCases n s' (Some q) 5"
    using rep_grand(1) [OF rep] s'(1) by (simp add: insertionCases_4)
  then show ?thesis using s' by auto
qed

lemma insertionCases_4_inner_right:
  assumes rep: "rep s (plug (FL q b # FR g u # D) (Node l x r))"
    and A: "set_tree (plug (FL q b # FR g u # D) (Node l x r)) \<subseteq> A"
  shows "\<exists>s'. insertionCases (Suc n) s (Some x) 4 = insertionCases n s' (Some q) 5 \<and>
    rep s' (plug (FR x l # FR g u # D) (Node r q b)) \<and> relinked A s s' \<and> colors s' = colors s"
proof -
  have rep': "rep s (plug (FR g u # D) (Node (Node l x r) q b))" using rep by simp
  have A': "set_tree (plug (FR g u # D) (Node (Node l x r) q b)) \<subseteq> A" using A by auto
  obtain s' where s': "rotateRight s (Some q) = Ok s'"
    "rep s' (plug (FR g u # D) (Node l x (Node r q b)))" "relinked A s s'" "colors s' = colors s"
    using rotateRight_rep [OF rep' A'] by blast
  have "parentP (procs s x) = Some q" "left (procs s q) = Some x" "right (procs s g) = Some q"
    "right (procs s q) = ptr b" "x \<notin> set_tree b"
    using rep by (auto simp: rep_plug)
  moreover have "right (procs s' x) = Some q" using s'(2) unfolding rep_plug by auto
  ultimately have "insertionCases (Suc n) s (Some x) 4 = insertionCases n s' (Some q) 5"
    using rep_grand(1) [OF rep] s'(1) by (simp add: insertionCases_4)
  then show ?thesis using s' by auto
qed

section \<open>The fix-up restores the invariant\<close>

text \<open>
  The situation \<open>insertionCases\<close> repairs: the tree is a red-black tree except that the red node in
  focus may have a red parent.
\<close>

definition ins_pre :: "(nat \<Rightarrow> procColor) \<Rightarrow> frame list \<Rightarrow> ptree \<Rightarrow> bool" where
  "ins_pre c C t \<longleftrightarrow> col c t = RED \<and> invc c t \<and> invh c t \<and> cinvc c C BLACK \<and>
     cinvh c C (bh c t) \<and> croot c C BLACK = BLACK"

lemma ins_pre_root: "ins_pre c [] (Node l x r) \<Longrightarrow> x \<notin> set_tree l \<union> set_tree r \<Longrightarrow>
    rbtree_inv (c(x := BLACK)) (Node l x r)"
  by (auto simp: ins_pre_def rbtree_inv_def)

lemma ins_pre_black: "ins_pre c (f # C) t \<Longrightarrow> c (fnode f) = BLACK \<Longrightarrow> rbtree_inv c (plug (f # C) t)"
  unfolding rbtree_inv_def invc_plug invh_plug col_plug by (cases f) (auto simp: ins_pre_def)

lemma ins_pre_grand: "ins_pre c (f # C) t \<Longrightarrow> c (fnode f) = RED \<Longrightarrow> \<exists>g D. C = g # D \<and> c (fnode g) = BLACK"
  by (cases C; cases f; cases "hd C") (auto simp: ins_pre_def)

lemma ins_pre_recolour:
  assumes "ins_pre c (f # g # D) t" and "c (fnode f) = RED" and "fsib g = Node ul u ur" and "c u = RED"
    and "distinct (inorder (plug (f # g # D) t))"
  shows "ins_pre (c(fnode f := BLACK, u := BLACK, fnode g := RED)) D (plug [f, g] t)"
  using assms by (cases f; cases g) (auto simp: ins_pre_def distinct_plug dest: cinvc_BLACK)

lemma rb_outer_left:
  assumes "ins_pre c (FL q b # FL g u # D) t" and "c q = RED" and "col c u = BLACK"
    and "distinct (inorder (plug (FL q b # FL g u # D) t))"
  shows "rbtree_inv (c(g := RED, q := BLACK)) (plug D (Node t q (Node b g u)))"
  using assms unfolding rbtree_inv_def invc_plug invh_plug col_plug distinct_plug
  by (auto simp: ins_pre_def dest: cinvc_BLACK)

lemma rb_outer_right:
  assumes "ins_pre c (FR q b # FR g u # D) t" and "c q = RED" and "col c u = BLACK"
    and "distinct (inorder (plug (FR q b # FR g u # D) t))"
  shows "rbtree_inv (c(g := RED, q := BLACK)) (plug D (Node (Node u g b) q t))"
  using assms unfolding rbtree_inv_def invc_plug invh_plug col_plug distinct_plug
  by (auto simp: ins_pre_def dest: cinvc_BLACK)

lemma ins_pre_inner:
  "ins_pre c (FR q b # FL g u # D) (Node l x r) \<Longrightarrow> c q = RED \<Longrightarrow>
     ins_pre c (FL x r # FL g u # D) (Node b q l)"
  "ins_pre c (FL q b # FR g u # D) (Node l x r) \<Longrightarrow> c q = RED \<Longrightarrow>
     ins_pre c (FR x l # FR g u # D) (Node r q b)"
  by (auto simp: ins_pre_def)

text \<open>What the fix-up guarantees.\<close>

definition restored :: "nat set \<Rightarrow> 'a rq_state_scheme \<Rightarrow> ptree \<Rightarrow> 'a rq_state_scheme \<Rightarrow> bool" where
  "restored A s t s' \<longleftrightarrow> (\<exists>t'. rep s' t' \<and> inorder t' = inorder t \<and> rbtree_inv (colors s') t' \<and>
     relinked A s s')"

lemma fix_outer_left:
  assumes "rep s (plug (FL q b # FL g u # D) (Node l x r))"
    and "set_tree (plug (FL q b # FL g u # D) (Node l x r)) \<subseteq> A"
    and "ins_pre (colors s) (FL q b # FL g u # D) (Node l x r)"
    and "colors s q = RED" and "col (colors s) u = BLACK"
  shows "\<exists>s'. insertionCases (Suc n) s (Some x) 5 = Ok s' \<and>
    restored A s (plug (FL q b # FL g u # D) (Node l x r)) s' \<and> kids_kept (set_tree (Node l x r)) s s'"
proof -
  obtain s' where s': "insertionCases (Suc n) s (Some x) 5 = Ok s'"
    "rep s' (plug D (Node (Node l x r) q (Node b g u)))" "relinked A s s'"
    "colors s' = (colors s)(g := RED, q := BLACK)" "kids_kept (set_tree (Node l x r)) s s'"
    using insertionCases_5_left [OF assms(1,2)] by blast
  have "rbtree_inv (colors s') (plug D (Node (Node l x r) q (Node b g u)))"
    unfolding s'(4) by (rule rb_outer_left [OF assms(3-5)]) (use assms(1) in \<open>simp only: rep_def\<close>)
  moreover have "inorder (plug D (Node (Node l x r) q (Node b g u))) =
      inorder (plug (FL q b # FL g u # D) (Node l x r))" by (simp add: inorder_plug)
  ultimately show ?thesis using s' unfolding restored_def by blast
qed

lemma fix_outer_right:
  assumes "rep s (plug (FR q b # FR g u # D) (Node l x r))"
    and "set_tree (plug (FR q b # FR g u # D) (Node l x r)) \<subseteq> A"
    and "ins_pre (colors s) (FR q b # FR g u # D) (Node l x r)"
    and "colors s q = RED" and "col (colors s) u = BLACK"
  shows "\<exists>s'. insertionCases (Suc n) s (Some x) 5 = Ok s' \<and>
    restored A s (plug (FR q b # FR g u # D) (Node l x r)) s'"
proof -
  obtain s' where s': "insertionCases (Suc n) s (Some x) 5 = Ok s'"
    "rep s' (plug D (Node (Node u g b) q (Node l x r)))" "relinked A s s'"
    "colors s' = (colors s)(g := RED, q := BLACK)"
    using insertionCases_5_right [OF assms(1,2)] by blast
  have "rbtree_inv (colors s') (plug D (Node (Node u g b) q (Node l x r)))"
    unfolding s'(4) by (rule rb_outer_right [OF assms(3-5)]) (use assms(1) in \<open>simp only: rep_def\<close>)
  moreover have "inorder (plug D (Node (Node u g b) q (Node l x r))) =
      inorder (plug (FR q b # FR g u # D) (Node l x r))" by (simp add: inorder_plug)
  ultimately show ?thesis using s' unfolding restored_def by blast
qed

lemma restored_after:
  "relinked A s s1 \<Longrightarrow> inorder t1 = inorder t \<Longrightarrow> restored A s1 t1 s' \<Longrightarrow> restored A s t s'"
  unfolding restored_def by (metis relinked_trans)

lemma fix_inner_left:
  assumes rep: "rep s (plug (FR q b # FL g u # D) (Node l x r))"
    and A: "set_tree (plug (FR q b # FL g u # D) (Node l x r)) \<subseteq> A"
    and pre: "ins_pre (colors s) (FR q b # FL g u # D) (Node l x r)"
    and red: "colors s q = RED" and black: "col (colors s) u = BLACK"
  shows "\<exists>s'. insertionCases (Suc (Suc n)) s (Some x) 4 = Ok s' \<and>
    restored A s (plug (FR q b # FL g u # D) (Node l x r)) s'"
proof -
  let ?t = "plug (FR q b # FL g u # D) (Node l x r)" and ?t1 = "plug (FL x r # FL g u # D) (Node b q l)"
  obtain s1 where s1: "insertionCases (Suc (Suc n)) s (Some x) 4 = insertionCases (Suc n) s1 (Some q) 5"
    "rep s1 ?t1" "relinked A s s1" "colors s1 = colors s"
    using insertionCases_4_inner_left [OF rep A] by blast
  have "colors s1 x = RED" using pre s1(4) by (simp add: ins_pre_def)
  moreover have "set_tree ?t1 \<subseteq> A" using A by auto
  ultimately have "\<exists>s'. insertionCases (Suc n) s1 (Some q) 5 = Ok s' \<and> restored A s1 ?t1 s'"
    using fix_outer_left [OF s1(2)] ins_pre_inner(1) [OF pre red] black unfolding s1(4) by blast
  moreover have "inorder ?t1 = inorder ?t" by (simp add: inorder_plug)
  ultimately show ?thesis unfolding s1(1) using restored_after [OF s1(3)] by blast
qed

lemma fix_inner_right:
  assumes rep: "rep s (plug (FL q b # FR g u # D) (Node l x r))"
    and A: "set_tree (plug (FL q b # FR g u # D) (Node l x r)) \<subseteq> A"
    and pre: "ins_pre (colors s) (FL q b # FR g u # D) (Node l x r)"
    and red: "colors s q = RED" and black: "col (colors s) u = BLACK"
  shows "\<exists>s'. insertionCases (Suc (Suc n)) s (Some x) 4 = Ok s' \<and>
    restored A s (plug (FL q b # FR g u # D) (Node l x r)) s'"
proof -
  let ?t = "plug (FL q b # FR g u # D) (Node l x r)" and ?t1 = "plug (FR x l # FR g u # D) (Node r q b)"
  obtain s1 where s1: "insertionCases (Suc (Suc n)) s (Some x) 4 = insertionCases (Suc n) s1 (Some q) 5"
    "rep s1 ?t1" "relinked A s s1" "colors s1 = colors s"
    using insertionCases_4_inner_right [OF rep A] by blast
  have "colors s1 x = RED" using pre s1(4) by (simp add: ins_pre_def)
  moreover have "set_tree ?t1 \<subseteq> A" using A by auto
  ultimately have "\<exists>s'. insertionCases (Suc n) s1 (Some q) 5 = Ok s' \<and> restored A s1 ?t1 s'"
    using fix_outer_right [OF s1(2)] ins_pre_inner(2) [OF pre red] black unfolding s1(4) by blast
  moreover have "inorder ?t1 = inorder ?t" by (simp add: inorder_plug)
  ultimately show ?thesis unfolding s1(1) using restored_after [OF s1(3)] by blast
qed

lemma lefts_Nil: "lefts (f # C) = [] \<longleftrightarrow> (\<exists>x r. f = FL x r) \<and> lefts C = []"
  by (cases f) auto

lemma fix_black_uncle:
  assumes rep: "rep s (plug (f # g # D) (Node l x r))"
    and A: "set_tree (plug (f # g # D) (Node l x r)) \<subseteq> A"
    and pre: "ins_pre (colors s) (f # g # D) (Node l x r)"
    and red: "colors s (fnode f) = RED" and black: "col (colors s) (fsib g) = BLACK"
  shows "\<exists>s'. insertionCases (Suc (Suc n)) s (Some x) 4 = Ok s' \<and>
    restored A s (plug (f # g # D) (Node l x r)) s' \<and>
    (lefts (f # g # D) = [] \<longrightarrow> kids_kept (set_tree (Node l x r)) s s')"
proof (cases f; cases g)
  fix q b h u assume fg: "f = FL q b" "g = FL h u"
  have "insertionCases (Suc (Suc n)) s (Some x) 4 = insertionCases (Suc n) s (Some x) 5"
    by (rule insertionCases_4_outer [OF rep]) (simp add: fg)
  then show ?thesis
    using fix_outer_left [OF assms [unfolded fg fnode.simps fsib.simps], of n]
    unfolding fg by auto
next
  fix q b h u assume fg: "f = FR q b" "g = FR h u"
  have "insertionCases (Suc (Suc n)) s (Some x) 4 = insertionCases (Suc n) s (Some x) 5"
    by (rule insertionCases_4_outer [OF rep]) (simp add: fg)
  then show ?thesis
    using fix_outer_right [OF assms [unfolded fg fnode.simps fsib.simps], of n]
    unfolding fg lefts_Nil by auto
next
  fix q b h u assume fg: "f = FR q b" "g = FL h u"
  show ?thesis using fix_inner_left [OF assms [unfolded fg fnode.simps fsib.simps]]
    unfolding fg lefts_Nil by auto
next
  fix q b h u assume fg: "f = FL q b" "g = FR h u"
  show ?thesis using fix_inner_right [OF assms [unfolded fg fnode.simps fsib.simps]]
    unfolding fg lefts_Nil by auto
qed

lemma plug_two: "\<exists>a b. plug [f, g] t = Node a (fnode g) b"
  by (cases f; cases g) auto

lemma fix_rec:
  assumes rep: "rep s (plug (f # g # D) t)" and A: "set_tree (plug (f # g # D) t) \<subseteq> A"
    and pre: "ins_pre (colors s) (f # g # D) t"
    and red: "colors s (fnode f) = RED" and u: "fsib g = Node ul u ur" "colors s u = RED"
    and s1: "s1 = set_color RED (fnode g) (set_color BLACK u (set_color BLACK (fnode f) s))"
  shows "rep s1 (plug D (plug [f, g] t))" and "set_tree (plug D (plug [f, g] t)) \<subseteq> A"
    and "ins_pre (colors s1) D (plug [f, g] t)" and "relinked A s s1"
proof -
  have eq: "plug D (plug [f, g] t) = plug (f # g # D) t" using plug_append [of "[f, g]" D t] by simp
  show "rep s1 (plug D (plug [f, g] t))" and "set_tree (plug D (plug [f, g] t)) \<subseteq> A"
    using rep A unfolding eq s1 by simp_all
  show "ins_pre (colors s1) D (plug [f, g] t)"
    using ins_pre_recolour [OF pre red u] rep by (simp add: s1 rep_def)
  have "{fnode f, u, fnode g} \<subseteq> A" using A u(1) by (cases f; cases g) auto
  then show "relinked A s s1" by (auto simp: s1 intro!: relinked_intros)
qed

lemma insertionCases_fix:
  assumes "rep s (plug C (Node l x r))" and "set_tree (plug C (Node l x r)) \<subseteq> A"
    and "ins_pre (colors s) C (Node l x r)" and "2 * length C + 3 \<le> n"
  shows "\<exists>s'. insertionCases n s (Some x) 1 = Ok s' \<and> restored A s (plug C (Node l x r)) s' \<and>
    (lefts C = [] \<longrightarrow> kids_kept (set_tree (Node l x r)) s s')"
  using assms
proof (induction "length C" arbitrary: C s l x r n rule: less_induct)
  case less
  note rep = less.prems(1) and A = less.prems(2) and pre = less.prems(3)
  obtain k where n: "n = Suc (Suc (Suc k))" using less.prems(4)
    by (metis Suc_le_D add_leD2 numeral_3_eq_3 Suc_le_mono)
  have dist: "distinct (inorder (plug C (Node l x r)))" using rep by (simp add: rep_def)
  show ?case
  proof (cases C)
    case Nil
    have "insertionCases n s (Some x) 1 = Ok (set_color BLACK x s)"
      using rep_focus(1) [OF rep] Nil unfolding n insertionCases_1 by simp
    moreover have "rbtree_inv (colors (set_color BLACK x s)) (Node l x r)"
      using ins_pre_root [OF pre [unfolded Nil]] dist Nil by simp
    moreover have "relinked A s (set_color BLACK x s)" using A by (auto intro: relinked_set_color)
    ultimately show ?thesis using rep Nil
      by (auto simp: restored_def kids_kept_def)
  next
    case (Cons f C')
    have par: "parentP (procs s x) = Some (fnode f)" using rep_focus(1) [OF rep] Cons by simp
    have step: "insertionCases n s (Some x) 1 =
        (if colors s (fnode f) = RED then insertionCases (Suc k) s (Some x) 3 else Ok s)"
      unfolding n insertionCases_1 insertionCases_2 [OF par] par by (simp add: colors_def)
    show ?thesis
    proof (cases "colors s (fnode f) = RED")
      case False
      then have "restored A s (plug C (Node l x r)) s"
        using rep ins_pre_black [of "colors s" f C'] pre Cons by (auto simp: restored_def)
      then show ?thesis using step False by (simp add: kids_kept_def)
    next
      case red: True
      then obtain g D where C: "C = f # g # D" using ins_pre_grand pre Cons by blast
      note rep' = rep [unfolded C]
      have "2 * length D + 3 \<le> k" using less.prems(4) unfolding n C by simp
      then obtain k' where k: "k = Suc (Suc k')" using add_2_eq_Suc le_Suc_ex by (metis add_leD2 numeral_3_eq_3 Suc_le_D Suc_le_mono)
      show ?thesis
      proof (cases "col (colors s) (fsib g) = BLACK")
        case True
        then show ?thesis
          using fix_black_uncle [OF rep' A [unfolded C] pre [unfolded C] red True, of k'] step red
            insertionCases_3_black [OF rep' True] unfolding k C by simp
      next
        case False
        then obtain ul u ur where u: "fsib g = Node ul u ur" "colors s u = RED"
          by (cases "fsib g") auto
        define s1 where "s1 = set_color RED (fnode g) (set_color BLACK u (set_color BLACK (fnode f) s))"
        note rec = fix_rec [OF rep' A [unfolded C] pre [unfolded C] red u s1_def]
        obtain a b where ab: "plug [f, g] (Node l x r) = Node a (fnode g) b" using plug_two by blast
        have "length D < length C" by (simp add: C)
        then obtain s' where s': "insertionCases k s1 (Some (fnode g)) 1 = Ok s'"
          "restored A s1 (plug D (plug [f, g] (Node l x r))) s'"
          "lefts D = [] \<longrightarrow> kids_kept (set_tree (plug [f, g] (Node l x r))) s1 s'"
          using less.hyps [of D s1 a "fnode g" b k] rec(1-3) \<open>2 * length D + 3 \<le> k\<close> unfolding ab by blast
        have "insertionCases n s (Some x) 1 = Ok s'"
          using step red insertionCases_3_red [OF rep' u] s'(1) unfolding s1_def by simp
        moreover have "restored A s (plug C (Node l x r)) s'"
          by (rule restored_after [OF rec(4) _ s'(2)]) (simp add: C flip: plug_append)
        moreover have "lefts C = [] \<longrightarrow> kids_kept (set_tree (Node l x r)) s s'"
        proof
          assume "lefts C = []"
          then have "kids_kept (set_tree (plug [f, g] (Node l x r))) s s'"
            using s'(3) unfolding C lefts_Nil s1_def by simp
          then show "kids_kept (set_tree (Node l x r)) s s'" by (rule kids_kept_mono) auto
        qed
        ultimately show ?thesis by blast
      qed
    qed
  qed
qed

end
