(* ===== verification/RB_Leaf.thy ===== *)
theory RB_Leaf
  imports RB_Insert
begin

text \<open>
  The leaf insertion of \<open>insertproc\<close>, the search for the minimum, and what a null left link says
  about the leftmost node.
\<close>

section \<open>The hole a key selects\<close>

fun hole :: "(nat \<Rightarrow> int) \<Rightarrow> int \<Rightarrow> ptree \<Rightarrow> frame list \<Rightarrow> frame list" where
  "hole v k Leaf C = C"
| "hole v k (Node l x r) C =
     (if v x \<le> k then hole v k r (FR x l # C) else hole v k l (FL x r # C))"

lemma hole_append: "hole v k t C = hole v k t [] @ C"
proof (induction t arbitrary: C)
  case (Node l x r)
  show ?case
    using Node.IH(1) [of "FL x r # C"] Node.IH(1) [of "[FL x r]"]
      Node.IH(2) [of "FR x l # C"] Node.IH(2) [of "[FR x l]"] by simp
qed simp

lemma plug_hole: "plug (hole v k t C) Leaf = plug C t"
  by (induction t arbitrary: C) auto

lemma hole_lists:
  assumes "sorted (map v (inorder t))"
  shows "lefts (hole v k t C) = lefts C @ filter (\<lambda>x. v x \<le> k) (inorder t) \<and>
    rights (hole v k t C) = filter (\<lambda>x. k < v x) (inorder t) @ rights C"
  using assms
proof (induction t arbitrary: C)
  case (Node l x r)
  have sl: "sorted (map v (inorder l))" "sorted (map v (inorder r))"
    "\<forall>y \<in> set_tree l. v y \<le> v x" "\<forall>y \<in> set_tree r. v x \<le> v y"
    using Node.prems by (auto simp: sorted_append)
  show ?case
  proof (cases "v x \<le> k")
    case True
    then have "filter (\<lambda>y. v y \<le> k) (inorder l) = inorder l" "filter (\<lambda>y. k < v y) (inorder l) = []"
      using sl(3) by (fastforce simp: filter_empty_conv filter_id_conv)+
    then show ?thesis using True Node.IH(2) [OF sl(2)] by simp
  next
    case False
    then have "filter (\<lambda>y. v y \<le> k) (inorder r) = []" "filter (\<lambda>y. k < v y) (inorder r) = inorder r"
      using sl(4) by (fastforce simp: filter_empty_conv filter_id_conv)+
    then show ?thesis using False Node.IH(1) [OF sl(1)] by simp
  qed
qed simp

section \<open>insertproc\<close>

lemma ptr_plug_hole: "t \<noteq> Leaf \<Longrightarrow> ptr (plug (hole v k t []) u) = ptr t"
proof (cases t)
  case (Node l x r)
  then show ?thesis
    using hole_append [of v k l "[FL x r]"] hole_append [of v k r "[FR x l]"]
    by (simp add: plug_append)
qed simp

lemma set_plug_hole: "set_tree (plug (hole v k t C) u) = set_tree t \<union> cset C \<union> set_tree u"
proof -
  have "cset (hole v k t C) = set_tree t \<union> cset C"
    using set_plug [of "hole v k t C" Leaf] set_plug [of C t] unfolding plug_hole by simp
  then show ?thesis by auto
qed

lemma relinked_mono: "relinked A s s' \<Longrightarrow> A \<subseteq> B \<Longrightarrow> relinked B s s'"
  unfolding relinked_def by blast

lemma relinked_out: "relinked A s s' \<Longrightarrow> i \<notin> A \<Longrightarrow> procs s' i = procs s i"
  unfolding relinked_def by auto

lemma insertproc_tree:
  assumes "tree_at (procs s) par t" and "distinct (inorder t)" and "p \<notin> set_tree t"
    and "left (procs s p) = None" and "right (procs s p) = None"
    and "t = Leaf \<longrightarrow> parentP (procs s p) = par" and "nodes t < n"
    and "v = (\<lambda>i. virtualRuntime (procs s i))"
  shows "\<exists>s'. insertproc n s (ptr t) p =
      Ok (s', ptr (plug (hole v (v p) t []) (Node Leaf p Leaf))) \<and>
    tree_at (procs s') par (plug (hole v (v p) t []) (Node Leaf p Leaf)) \<and>
    relinked (insert p (set_tree t)) s s' \<and> rbTree s' = rbTree s \<and>
    colors s' = (colors s)(p := RED)"
  using assms
proof (induction t arbitrary: s par n)
  case Leaf
  then obtain m where "n = Suc m" by (cases n) auto
  with Leaf show ?case
    by (auto intro!: relinked_intros simp: payload_def colors_def)
next
  case (Node l x r)
  then obtain m where n: "n = Suc m" by (cases n) auto
  define s2 where "s2 = upd_proc p (\<lambda>q. q\<lparr>parentP := Some x\<rparr>) (upd_proc p (\<lambda>p. p\<lparr>coloring := RED\<rparr>) s)"
  have px: "p \<noteq> x" "p \<notin> set_tree l" "p \<notin> set_tree r" using Node.prems(3) by auto
  have P2: "procs s2 i = (if i = p then (procs s p)\<lparr>coloring := RED, parentP := Some x\<rparr> else procs s i)" for i
    by (simp add: s2_def)
  have v2: "v = (\<lambda>i. virtualRuntime (procs s2 i))" using Node.prems(8) by (auto simp: P2)
  have t2: "tree_at (procs s2) (Some x) l" "tree_at (procs s2) (Some x) r"
    using Node.prems(1) px by (auto simp: s2_def)
  have links: "left (procs s2 p) = None" "right (procs s2 p) = None"
    and par: "parentP (procs s2 p) = Some x"
    and dist: "distinct (inorder l)" "distinct (inorder r)" "nodes l < m" "nodes r < m"
    using Node.prems(2,4,5,7) n by (simp_all add: P2)
  have rel2: "relinked (insert p (set_tree (Node l x r))) s s2"
    unfolding s2_def by (auto intro!: relinked_intros simp: payload_def)
  show ?case
  proof (cases "v x \<le> v p")
    case True
    let ?r = "plug (hole v (v p) r []) (Node Leaf p Leaf)"
    obtain s3 where s3: "insertproc m s2 (ptr r) p = Ok (s3, ptr ?r)" "tree_at (procs s3) (Some x) ?r"
      "relinked (insert p (set_tree r)) s2 s3" "rbTree s3 = rbTree s2" "colors s3 = (colors s2)(p := RED)"
      using Node.IH(2) [OF t2(2) _ px(3) links _ _ v2, of m] dist par n by blast
    define s' where "s' = upd_proc x (\<lambda>q. q\<lparr>right := ptr ?r\<rparr>) s3"
    have out: "procs s3 i = procs s i" if "i \<noteq> p" "i \<notin> set_tree r" for i
      using relinked_out [OF s3(3)] that by (simp add: P2)
    have "insertproc n s (ptr (Node l x r)) p = Ok (s', Some x)"
      using s3(1) True px Node.prems(1,8) unfolding n s'_def by (simp add: s2_def Let_def)
    moreover have "tree_at (procs s') par (Node l x ?r)"
    proof -
      have "i \<noteq> p \<and> i \<notin> set_tree r \<and> i \<noteq> x" if "i \<in> set_tree l" for i
        using that Node.prems(2) px by auto
      then have "procs s' i = procs s i" if "i \<in> set_tree l" for i
        using that out [of i] by (simp add: s'_def)
      then have "tree_at (procs s') (Some x) l"
        by (rule tree_at_same [rotated]) (use Node.prems(1) in simp_all)
      moreover have "x \<notin> set_tree ?r" using Node.prems(2) px by (simp add: set_plug_hole del: set_plug)
      ultimately show ?thesis
        using s3(2) Node.prems(1,2) px out [of x] by (simp add: s'_def)
    qed
    moreover have "relinked (insert p (set_tree (Node l x r))) s s'"
      unfolding s'_def
      by (rule relinked_upd_procI [OF relinked_trans [OF rel2 relinked_mono [OF s3(3)]]])
         (auto simp: payload_def)
    moreover have "colors s' = (colors s)(p := RED)" "rbTree s' = rbTree s"
      using s3(4,5) by (auto simp: s'_def s2_def colors_upd_proc colors_def fun_eq_iff)
    ultimately show ?thesis using True hole_append [of v "v p" r "[FR x l]"]
      by (simp add: plug_append fun_eq_iff)
  next
    case False
    let ?l = "plug (hole v (v p) l []) (Node Leaf p Leaf)"
    obtain s3 where s3: "insertproc m s2 (ptr l) p = Ok (s3, ptr ?l)" "tree_at (procs s3) (Some x) ?l"
      "relinked (insert p (set_tree l)) s2 s3" "rbTree s3 = rbTree s2" "colors s3 = (colors s2)(p := RED)"
      using Node.IH(1) [OF t2(1) _ px(2) links _ _ v2, of m] dist par n by blast
    define s' where "s' = upd_proc x (\<lambda>q. q\<lparr>left := ptr ?l\<rparr>) s3"
    have out: "procs s3 i = procs s i" if "i \<noteq> p" "i \<notin> set_tree l" for i
      using relinked_out [OF s3(3)] that by (simp add: P2)
    have "insertproc n s (ptr (Node l x r)) p = Ok (s', Some x)"
      using s3(1) False px Node.prems(1,8) unfolding n s'_def by (simp add: s2_def Let_def)
    moreover have "tree_at (procs s') par (Node ?l x r)"
    proof -
      have "i \<noteq> p \<and> i \<notin> set_tree l \<and> i \<noteq> x" if "i \<in> set_tree r" for i
        using that Node.prems(2) px by auto
      then have "procs s' i = procs s i" if "i \<in> set_tree r" for i
        using that out [of i] by (simp add: s'_def)
      then have "tree_at (procs s') (Some x) r"
        by (rule tree_at_same [rotated]) (use Node.prems(1) in simp_all)
      moreover have "x \<notin> set_tree ?l" using Node.prems(2) px by (simp add: set_plug_hole del: set_plug)
      ultimately show ?thesis
        using s3(2) Node.prems(1,2) px out [of x] by (simp add: s'_def)
    qed
    moreover have "relinked (insert p (set_tree (Node l x r))) s s'"
      unfolding s'_def
      by (rule relinked_upd_procI [OF relinked_trans [OF rel2 relinked_mono [OF s3(3)]]])
         (auto simp: payload_def)
    moreover have "colors s' = (colors s)(p := RED)" "rbTree s' = rbTree s"
      using s3(4,5) by (auto simp: s'_def s2_def colors_upd_proc colors_def fun_eq_iff)
    ultimately show ?thesis using False hole_append [of v "v p" l "[FL x r]"]
      by (simp add: plug_append fun_eq_iff)
  qed
qed

section \<open>The leftmost node\<close>

fun height :: "ptree \<Rightarrow> nat" where
  "height Leaf = 0"
| "height (Node l x r) = Suc (max (height l) (height r))"

lemma height_nodes: "height t \<le> nodes t"
  by (induction t) auto

lemma setMinimum_tree:
  assumes "tree_at (procs s) par t" and "height t < n"
  shows "setMinimumVRuntimeproc n s (ptr t) = Ok (if t = Leaf then None else Some (hd (inorder t)))"
  using assms
proof (induction t arbitrary: par n)
  case Leaf
  then show ?case by (cases n) auto
next
  case (Node l x r)
  then obtain m where n: "n = Suc m" by (cases n) auto
  with Node show ?case by (cases "l = Leaf") (auto simp: hd_append)
qed

lemma leftmost_left:
  "tree_at P par t \<Longrightarrow> t \<noteq> Leaf \<Longrightarrow> left (P (hd (inorder t))) = None"
  by (induction t arbitrary: par) (auto simp: hd_append)

lemma second_left:
  "tree_at P par t \<Longrightarrow> inorder t = p # q # xs \<Longrightarrow> right (P p) = None \<Longrightarrow> left (P q) \<noteq> None"
proof (induction t arbitrary: par xs)
  case (Node l x r)
  show ?case
  proof (cases "inorder l")
    case Nil
    then show ?thesis using Node.prems by (cases r) auto
  next
    case (Cons y ys)
    then have "l \<noteq> Leaf" by auto
    show ?thesis using Node Cons by (cases ys) auto
  qed
qed simp

section \<open>The height of a red-black tree\<close>

lemma height_bh:
  "invc c t \<Longrightarrow> invh c t \<Longrightarrow> height t \<le> 2 * bh c t + (if col c t = RED then 1 else 0)"
proof (induction t)
  case (Node l x r)
  then show ?case by (cases "c x") (auto split: if_splits)
qed simp

lemma bh_nodes: "invh c t \<Longrightarrow> 2 ^ bh c t \<le> Suc (nodes t)"
proof (induction t)
  case (Node l x r)
  then show ?case by (cases "c x") auto
qed simp

text \<open>With at most 64 nodes the tree has at most 12 levels.\<close>

lemma height_NPROC:
  assumes "rbtree_inv c t" and "nodes t \<le> NPROC"
  shows "height t \<le> 12"
proof -
  have "2 ^ bh c t \<le> (65::nat)" using bh_nodes [of c t] assms by (simp add: rbtree_inv_def NPROC_def)
  also have "\<dots> < 2 ^ 7" by simp
  finally have "bh c t < 7" by (rule power_less_imp_less_exp [rotated]) simp
  then show ?thesis using height_bh [of c t] assms(1) by (simp add: rbtree_inv_def)
qed

section \<open>The new leaf starts the fix-up\<close>

lemma leaf_ins_pre:
  assumes "rbtree_inv c t" and "p \<notin> set_tree t"
  shows "ins_pre (c(p := RED)) (hole v k t []) (Node Leaf p Leaf)"
proof -
  let ?C = "hole v k t []"
  have *: "rbtree_inv c (plug ?C Leaf)" using assms(1) by (simp add: plug_hole)
  have "p \<notin> cset ?C" using assms(2) set_plug_hole [of v k t "[]" Leaf] by auto
  with * show ?thesis
    unfolding rbtree_inv_def invc_plug invh_plug col_plug by (simp add: ins_pre_def)
qed

end
