(* ===== verification/RB_Delete.thy ===== *)
theory RB_Delete
  imports RB_Leaf
begin

text \<open>
  Removal of the leftmost process: \<open>retrievingCases\<close> unlinks it and repairs the black heights along
  the left spine.
\<close>

section \<open>The situation the loop repairs\<close>

text \<open>
  The subtree in focus lacks one black node; its root may be red below a red parent, because
  the loop ends by painting it black.
\<close>

fun kids_invc :: "(nat \<Rightarrow> procColor) \<Rightarrow> ptree \<Rightarrow> bool" where
  "kids_invc c Leaf = True"
| "kids_invc c (Node l x r) \<longleftrightarrow> invc c l \<and> invc c r"

definition del_pre :: "(nat \<Rightarrow> procColor) \<Rightarrow> frame list \<Rightarrow> ptree \<Rightarrow> bool" where
  "del_pre c C t \<longleftrightarrow> kids_invc c t \<and> invh c t \<and> cinvc c C BLACK \<and>
     cinvh c C (Suc (bh c t)) \<and> croot c C BLACK = BLACK"

lemma kids_invc_upd [simp]: "x \<notin> set_tree t \<Longrightarrow> kids_invc (c(x := k)) t = kids_invc c t"
  by (cases t) auto

lemma kids_invc_black: "kids_invc c t \<Longrightarrow> col c t = BLACK \<Longrightarrow> invc c t"
  by (cases t) auto

lemma croot_BLACK: "croot c C k = BLACK \<Longrightarrow> croot c C BLACK = BLACK"
  by (cases C) auto

lemma del_pre_sibling: "del_pre c (FL q b # D) t \<Longrightarrow> \<exists>z1 z z2. b = Node z1 z z2"
  by (cases b) (auto simp: del_pre_def)

lemma del_pre_red:
  assumes "del_pre c (FL q (Node z1 z z2) # D) t" and "c z = RED"
    and "distinct (inorder (plug (FL q (Node z1 z z2) # D) t))"
  shows "del_pre (c(z := BLACK, q := RED)) (FL q z1 # FL z z2 # D) t"
    and "col (c(z := BLACK, q := RED)) z1 = BLACK"
  using assms unfolding distinct_plug by (auto simp: del_pre_def)

lemma del_pre_black:
  assumes "del_pre c (FL q (Node z1 z z2) # D) t" and "c z = BLACK"
    and "col c z1 = BLACK" and "col c z2 = BLACK" and "col c t = BLACK"
    and "distinct (inorder (plug (FL q (Node z1 z z2) # D) t))"
  shows "del_pre (c(z := RED)) D (Node t q (Node z1 z z2))"
  using assms unfolding distinct_plug
  by (auto simp: del_pre_def kids_invc_black dest: cinvc_BLACK croot_BLACK split: if_splits)

lemma del_pre_inner:
  assumes "del_pre c (FL q (Node (Node a y d) z z2) # D) t" and "c z = BLACK"
    and "c y = RED" and "col c z2 = BLACK"
    and "distinct (inorder (plug (FL q (Node (Node a y d) z z2) # D) t))"
  shows "del_pre (c(y := BLACK, z := RED)) (FL q (Node a y (Node d z z2)) # D) t"
  using assms unfolding distinct_plug by (auto simp: del_pre_def)

lemma del_pre_outer:
  assumes "del_pre c (FL q (Node z1 z (Node w1 w w2)) # D) t" and "c z = BLACK"
    and "c w = RED" and "col c t = BLACK"
    and "distinct (inorder (plug (FL q (Node z1 z (Node w1 w w2)) # D) t))"
  shows "rbtree_inv (c(z := c q, q := BLACK, w := BLACK))
    (plug D (Node (Node t q z1) z (Node w1 w w2)))"
  using assms unfolding distinct_plug rbtree_inv_def invc_plug invh_plug col_plug
  by (cases "c q") (auto simp: del_pre_def kids_invc_black)

lemma del_pre_stop:
  assumes "del_pre c C t" and "C = [] \<or> col c t = RED" and "distinct (inorder (plug C t))"
  shows "case ptr t of None \<Rightarrow> rbtree_inv c (plug C t)
    | Some x \<Rightarrow> rbtree_inv (c(x := BLACK)) (plug C t)"
  using assms unfolding distinct_plug rbtree_inv_def invc_plug invh_plug col_plug
  by (cases t) (auto simp: del_pre_def)

section \<open>The loop body on the heap\<close>

lemma black_at_ptr: "black_at s (ptr t) \<longleftrightarrow> col (colors s) t = BLACK"
  by (cases t) (auto simp: black_at_def colors_def)

lemma rep_dist: "rep s t \<Longrightarrow> distinct (inorder t)"
  by (simp add: rep_def)

lemma rep_frame:
  assumes "rep s (plug (FL q b # D) t)"
  shows "left (procs s q) = ptr t" "right (procs s q) = ptr b" "parentP (procs s q) = cpar D"
  using assms unfolding rep_plug by auto

lemma rep_kids:
  assumes "rep s (plug C (Node l q (Node z1 z z2)))"
  shows "left (procs s z) = ptr z1" "right (procs s z) = ptr z2"
  using assms unfolding rep_plug by auto

lemma sibling_red:
  assumes rep: "rep s (plug (FL q (Node z1 z z2) # D) t)"
    and A: "set_tree (plug (FL q (Node z1 z z2) # D) t) \<subseteq> A"
    and pre: "del_pre (colors s) (FL q (Node z1 z z2) # D) t" and red: "colors s z = RED"
  shows "\<exists>s'. retrieving_sibling s q = Ok (s', ptr z1) \<and>
    rep s' (plug (FL q z1 # FL z z2 # D) t) \<and> relinked A s s' \<and>
    del_pre (colors s') (FL q z1 # FL z z2 # D) t \<and> col (colors s') z1 = BLACK \<and>
    colors s' q = RED \<and> col (colors s') t = col (colors s) t"
proof -
  let ?s = "set_color RED q (set_color BLACK z s)"
  have rep': "rep ?s (plug D (Node t q (Node z1 z z2)))" using rep by simp
  have A': "set_tree (plug D (Node t q (Node z1 z z2))) \<subseteq> A" using A by auto
  obtain s' where s': "rotateLeft ?s (Some q) = Ok s'" "rep s' (plug D (Node (Node t q z1) z z2))"
    "relinked A ?s s'" "colors s' = colors ?s"
    using rotateLeft_rep [OF rep' A'] by blast
  have rep2: "rep s' (plug (FL q z1 # FL z z2 # D) t)" using s'(2) by simp
  have "\<not> black_at s (right (procs s q))" using rep_frame [OF rep] red by (simp add: black_at_def colors_def)
  then have "retrieving_sibling s q = Ok (s', ptr z1)"
    using rep_frame(2) [OF rep] rep_frame(2) [OF rep2] s'(1) by (simp add: retrieving_sibling_def Let_def)
  moreover have "relinked A s s'"
    by (rule relinked_trans [OF _ s'(3)]) (use A in \<open>auto intro!: relinked_intros\<close>)
  moreover have "q \<notin> set_tree t" "z \<notin> set_tree t" using rep_dist [OF rep] unfolding distinct_plug by auto
  ultimately show ?thesis
    using rep2 del_pre_red [OF pre red rep_dist [OF rep]] s'(4) by auto
qed

lemma sibling_black:
  assumes "rep s (plug (FL q b # D) t)" and "col (colors s) b = BLACK"
  shows "retrieving_sibling s q = Ok (s, ptr b)"
  using rep_frame(2) [OF assms(1)] assms(2) black_at_ptr [of s b] by (simp add: retrieving_sibling_def)

text \<open>The rest of the body, once the sibling is black.\<close>

definition body_rest ::
  "'a rq_state_scheme \<Rightarrow> nat \<Rightarrow> nat \<Rightarrow> ('a rq_state_scheme \<times> pptr \<times> pptr) res" where
  "body_rest s q z =
     (if black_at s (left (procs s z)) \<and> black_at s (right (procs s z)) then
         let s1 = set_color RED z s
         in Ok (s1, parentP (procs s1 q), Some q)
       else
         rbind
           (if black_at s (right (procs s z)) then
              let s1 = (case left (procs s z) of None \<Rightarrow> s | Some l \<Rightarrow> set_color BLACK l s);
                  s2 = set_color RED z s1
              in rbind (rotateRight s2 (Some z)) (\<lambda>s3. Ok (s3, right (procs s3 q)))
            else Ok (s, Some z))
           (\<lambda>(s4, sibling2).
             deref sibling2 (\<lambda>y.
               let s5 = set_color (coloring (procs s4 q)) y s4;
                   s6 = set_color BLACK q s5
               in deref (right (procs s6 y)) (\<lambda>w.
                    rbind (rotateLeft (set_color BLACK w s6) (Some q)) (\<lambda>s7.
                      Ok (s7, Some q, rb_root (rbTree s7)))))))"

lemma retrieving_body_rest:
  "retrieving_sibling s q = Ok (s', Some z) \<Longrightarrow> retrieving_body s q = body_rest s' q z"
  by (simp add: retrieving_body_def body_rest_def)

lemma body_recolour:
  assumes rep: "rep s (plug (FL q (Node z1 z z2) # D) t)"
    and pre: "del_pre (colors s) (FL q (Node z1 z z2) # D) t"
    and "colors s z = BLACK" "col (colors s) z1 = BLACK" "col (colors s) z2 = BLACK"
      "col (colors s) t = BLACK" and "z \<in> A"
  shows "\<exists>s'. body_rest s q z = Ok (s', cpar D, Some q) \<and> rep s' (plug D (Node t q (Node z1 z z2))) \<and>
    relinked A s s' \<and> del_pre (colors s') D (Node t q (Node z1 z z2)) \<and> colors s' q = colors s q"
proof -
  have kids: "left (procs s z) = ptr z1" "right (procs s z) = ptr z2"
    using rep_kids [of s D t q z1 z z2] rep by auto
  have "q \<noteq> z" using rep_dist [OF rep] unfolding distinct_plug by auto
  then have "body_rest s q z = Ok (set_color RED z s, cpar D, Some q)"
    using rep_frame(3) [OF rep] assms(4,5) unfolding body_rest_def kids black_at_ptr by (simp add: Let_def)
  then show ?thesis
    using del_pre_black [OF pre assms(3-6) rep_dist [OF rep]] rep \<open>z \<in> A\<close> \<open>q \<noteq> z\<close>
    by (auto intro!: relinked_intros)
qed

definition body_final :: "'a rq_state_scheme \<Rightarrow> nat \<Rightarrow> pptr \<Rightarrow> ('a rq_state_scheme \<times> pptr \<times> pptr) res" where
  "body_final s q sibling =
     deref sibling (\<lambda>y.
       let s5 = set_color (coloring (procs s q)) y s;
           s6 = set_color BLACK q s5
       in deref (right (procs s6 y)) (\<lambda>w.
            rbind (rotateLeft (set_color BLACK w s6) (Some q)) (\<lambda>s7.
              Ok (s7, Some q, rb_root (rbTree s7)))))"

lemma body_final_rep:
  assumes rep: "rep s (plug (FL q (Node z1 z (Node w1 w w2)) # D) t)"
    and A: "set_tree (plug (FL q (Node z1 z (Node w1 w w2)) # D) t) \<subseteq> A"
    and pre: "del_pre (colors s) (FL q (Node z1 z (Node w1 w w2)) # D) t"
    and cols: "colors s z = BLACK" "colors s w = RED" "col (colors s) t = BLACK"
  shows "\<exists>s'. body_final s q (Some z) = Ok (s', Some q, rb_root (rbTree s')) \<and>
    restored A s (plug (FL q (Node z1 z (Node w1 w w2)) # D) t) s'"
proof -
  let ?s = "set_color BLACK w (set_color BLACK q (set_color (colors s q) z s))"
  let ?t = "plug D (Node (Node t q z1) z (Node w1 w w2))"
  have rep': "rep ?s (plug D (Node t q (Node z1 z (Node w1 w w2))))" using rep by simp
  have A': "set_tree (plug D (Node t q (Node z1 z (Node w1 w w2)))) \<subseteq> A" using A by auto
  obtain s' where s': "rotateLeft ?s (Some q) = Ok s'" "rep s' ?t" "relinked A ?s s'" "colors s' = colors ?s"
    using rotateLeft_rep [OF rep' A'] by blast
  have "right (procs s z) = Some w" using rep_kids(2) [of s D t q z1 z] rep by auto
  then have "body_final s q (Some z) = Ok (s', Some q, rb_root (rbTree s'))"
    using s'(1) by (simp add: body_final_def Let_def set_color_links colors_def del: set_color_simps)
  moreover have "relinked A s s'"
    by (rule relinked_trans [OF _ s'(3)]) (use A in \<open>auto intro!: relinked_intros\<close>)
  moreover have "rbtree_inv (colors s') ?t"
    using del_pre_outer [OF pre cols rep_dist [OF rep]] s'(4) by simp
  moreover have "inorder ?t = inorder (plug (FL q (Node z1 z (Node w1 w w2)) # D) t)"
    by (simp add: inorder_plug)
  ultimately show ?thesis using s'(2) unfolding restored_def by blast
qed

lemma body_rest_inner:
  assumes rep: "rep s (plug (FL q (Node (Node a y d) z z2) # D) t)"
    and A: "set_tree (plug (FL q (Node (Node a y d) z z2) # D) t) \<subseteq> A"
    and pre: "del_pre (colors s) (FL q (Node (Node a y d) z z2) # D) t"
    and cols: "colors s z = BLACK" "colors s y = RED" "col (colors s) z2 = BLACK"
      "col (colors s) t = BLACK"
  shows "\<exists>s'. body_rest s q z = Ok (s', Some q, rb_root (rbTree s')) \<and>
    restored A s (plug (FL q (Node (Node a y d) z z2) # D) t) s'"
proof -
  let ?s = "set_color RED z (set_color BLACK y s)"
  let ?t = "plug (FR q t # D) (Node a y (Node d z z2))"
  have rep': "rep ?s (plug (FR q t # D) (Node (Node a y d) z z2))" using rep by simp
  have A': "set_tree (plug (FR q t # D) (Node (Node a y d) z z2)) \<subseteq> A" using A by auto
  obtain s3 where s3: "rotateRight ?s (Some z) = Ok s3" "rep s3 ?t" "relinked A ?s s3" "colors s3 = colors ?s"
    using rotateRight_rep [OF rep' A'] by blast
  have kids: "left (procs s z) = Some y" "right (procs s z) = ptr z2"
    using rep_kids [of s D t q "Node a y d" z z2] rep by auto
  have rep3: "rep s3 (plug (FL q (Node a y (Node d z z2)) # D) t)" using s3(2) by simp
  have A3: "set_tree (plug (FL q (Node a y (Node d z z2)) # D) t) \<subseteq> A" using A by auto
  have "y \<noteq> z" "y \<notin> set_tree t" "z \<notin> set_tree t" using rep_dist [OF rep] unfolding distinct_plug by auto
  then have cols3: "colors s3 y = BLACK" "colors s3 z = RED" "col (colors s3) t = BLACK"
    using s3(4) cols by auto
  have pre3: "del_pre (colors s3) (FL q (Node a y (Node d z z2)) # D) t"
    using del_pre_inner [OF pre cols(1-3) rep_dist [OF rep]] s3(4) by simp
  have rel: "relinked A s s3"
    by (rule relinked_trans [OF _ s3(3)]) (use A in \<open>auto intro!: relinked_intros\<close>)
  have "right (procs s3 q) = Some y" using rep_frame(2) [OF rep3] by simp
  then have "body_rest s q z = body_final s3 q (Some y)"
    using cols(2,3) s3(1) black_at_ptr [of s z2] unfolding body_rest_def kids
    by (simp add: body_final_def Let_def black_at_def colors_def)
  moreover obtain s' where "body_final s3 q (Some y) = Ok (s', Some q, rb_root (rbTree s'))"
    "restored A s3 (plug (FL q (Node a y (Node d z z2)) # D) t) s'"
    using body_final_rep [OF rep3 A3 pre3 cols3] by blast
  moreover have "inorder (plug (FL q (Node a y (Node d z z2)) # D) t) =
    inorder (plug (FL q (Node (Node a y d) z z2) # D) t)" by (simp add: inorder_plug)
  ultimately show ?thesis using restored_after [OF rel] by metis
qed

lemma body_rest_outer:
  assumes rep: "rep s (plug (FL q (Node z1 z (Node w1 w w2)) # D) t)"
    and A: "set_tree (plug (FL q (Node z1 z (Node w1 w w2)) # D) t) \<subseteq> A"
    and pre: "del_pre (colors s) (FL q (Node z1 z (Node w1 w w2)) # D) t"
    and cols: "colors s z = BLACK" "colors s w = RED" "col (colors s) t = BLACK"
  shows "\<exists>s'. body_rest s q z = Ok (s', Some q, rb_root (rbTree s')) \<and>
    restored A s (plug (FL q (Node z1 z (Node w1 w w2)) # D) t) s'"
proof -
  have "right (procs s z) = Some w" using rep_kids(2) [of s D t q z1 z] rep by auto
  then have "body_rest s q z = body_final s q (Some z)"
    using cols(2) by (simp add: body_rest_def body_final_def black_at_def colors_def)
  then show ?thesis using body_final_rep [OF assms] by simp
qed

text \<open>
  One pass with a black sibling: either the defect moves to the parent, or the tree is restored.
\<close>

lemma body_rest_cases:
  assumes rep: "rep s (plug (FL q b # D) t)" and A: "set_tree (plug (FL q b # D) t) \<subseteq> A"
    and pre: "del_pre (colors s) (FL q b # D) t"
    and cols: "col (colors s) b = BLACK" "col (colors s) t = BLACK" and z: "ptr b = Some z"
  shows "(\<exists>s'. body_rest s q z = Ok (s', cpar D, Some q) \<and> rep s' (plug D (Node t q b)) \<and>
      relinked A s s' \<and> del_pre (colors s') D (Node t q b) \<and> colors s' q = colors s q) \<or>
    (\<exists>s'. body_rest s q z = Ok (s', Some q, rb_root (rbTree s')) \<and>
      restored A s (plug (FL q b # D) t) s')"
proof -
  obtain z1 z2 where b: "b = Node z1 z z2" using z by (cases b) auto
  have cz: "colors s z = BLACK" and zA: "z \<in> A" using cols b A by auto
  show ?thesis
  proof (cases "col (colors s) z2 = BLACK")
    case z2: True
    show ?thesis
    proof (cases "col (colors s) z1 = BLACK")
      case True
      then show ?thesis using body_recolour [OF rep [unfolded b] pre [unfolded b] cz _ z2 cols(2) zA] b by blast
    next
      case False
      then obtain a y d where z1: "z1 = Node a y d" "colors s y = RED" by (cases z1) auto
      then show ?thesis
        using body_rest_inner [OF rep [unfolded b z1(1)] A [unfolded b z1(1)] pre [unfolded b z1(1)] cz z1(2) z2 cols(2)]
        unfolding b by blast
    qed
  next
    case False
    then obtain w1 w w2 where z2: "z2 = Node w1 w w2" "colors s w = RED" by (cases z2) auto
    then show ?thesis
      using body_rest_outer [OF rep [unfolded b z2(1)] A [unfolded b z2(1)] pre [unfolded b z2(1)] cz z2(2) cols(2)]
      unfolding b by blast
  qed
qed

section \<open>The loop\<close>

definition painted :: "pptr \<Rightarrow> 'a rq_state_scheme \<Rightarrow> 'a rq_state_scheme" where
  "painted p s = (case p of None \<Rightarrow> s | Some x \<Rightarrow> set_color BLACK x s)"

lemma retrievingCases2_painted:
  "retrieving_loop RB_FUEL s q p = Ok (s1, p1) \<Longrightarrow> retrievingCases2 s q p = Ok (painted p1 s1)"
  by (cases p1) (simp_all add: retrievingCases2_def painted_def)

lemma rep_painted [simp]: "rep (painted p s) t = rep s t"
  by (cases p) (simp_all add: painted_def)

lemma restored_root:
  assumes "restored A s t s'" and "set_tree t \<subseteq> A"
  shows "restored A s t (painted (rb_root (rbTree s')) s')"
proof -
  obtain t' where t': "rep s' t'" "inorder t' = inorder t" "rbtree_inv (colors s') t'" "relinked A s s'"
    using assms(1) unfolding restored_def by blast
  show ?thesis
  proof (cases t')
    case Leaf
    then show ?thesis using assms(1) t'(1) by (simp add: painted_def rep_def)
  next
    case (Node l x r)
    then have "rb_root (rbTree s') = Some x" "colors s' x = BLACK"
      using t'(1,3) by (auto simp: rep_def rbtree_inv_def)
    moreover have "set_tree t' = set_tree t" using t'(2) by (metis set_inorder)
    then have "x \<in> A" using Node assms(2) by auto
    then have "relinked A s (set_color BLACK x s')" using t'(4) by (intro relinked_set_colorI)
    moreover have "colors (set_color BLACK x s') = colors s'"
      using \<open>colors s' x = BLACK\<close> by (simp add: fun_upd_idem)
    ultimately show ?thesis using t' unfolding restored_def painted_def
      by (intro exI [of _ t']) simp
  qed
qed

lemma loop_at_root: "retrieving_loop (Suc n) s q (rb_root (rbTree s)) = Ok (s, rb_root (rbTree s))"
  by simp

lemma loop_stop:
  assumes rep: "rep s (plug C t)" and A: "set_tree (plug C t) \<subseteq> A" and pre: "del_pre (colors s) C t"
    and stop: "C = [] \<or> col (colors s) t = RED"
  shows "retrieving_loop (Suc n) s q (ptr t) = Ok (s, ptr t) \<and>
    restored A s (plug C t) (painted (ptr t) s)"
proof -
  have "ptr t = rb_root (rbTree s) \<or> \<not> black_at s (ptr t)"
    using stop rep black_at_ptr [of s t] by (auto simp: rep_def)
  then have "retrieving_loop (Suc n) s q (ptr t) = Ok (s, ptr t)" by auto
  moreover have "restored A s (plug C t) (painted (ptr t) s)"
    using del_pre_stop [OF pre stop rep_dist [OF rep]] rep A
    by (cases t) (auto simp: restored_def painted_def intro!: exI [of _ "plug C t"] relinked_intros)
  ultimately show ?thesis by blast
qed

lemma ptr_plug: "ptr (plug (f # C) t) = Some x \<Longrightarrow> x \<in> cset (f # C)"
proof (induction C arbitrary: f t)
  case Nil
  then show ?case by (cases f) auto
next
  case (Cons g C)
  have "\<exists>u. plug (f # g # C) t = plug (g # C) u" by (cases f) auto
  then have "x \<in> cset (g # C)" using Cons by metis
  then show ?case by (cases f) auto
qed

lemma focus_not_root:
  assumes rep: "rep s (plug (f # D) t)"
  shows "ptr t \<noteq> rb_root (rbTree s)"
proof
  assume "ptr t = rb_root (rbTree s)"
  then have eq: "ptr t = ptr (plug (f # D) t)" using rep by (simp add: rep_def)
  then obtain x where "ptr t = Some x" using plug_Node [of f D _ t] by (cases t) auto
  with eq have "x \<in> cset (f # D)" using ptr_plug [of f D t x] by simp
  moreover have "x \<in> set_tree t" using \<open>ptr t = Some x\<close> by (rule ptr_SomeD)
  ultimately show False using rep unfolding rep_plug by blast
qed

lemma loop_enter:
  assumes rep: "rep s (plug (FL q b # D) t)" and "col (colors s) t = BLACK"
  shows "retrieving_loop (Suc n) s (Some q) (ptr t) =
    rbind (retrieving_body s q) (\<lambda>(s1, q1, p1). retrieving_loop n s1 q1 p1)"
  using focus_not_root [OF rep] assms(2) rep_frame(1) [OF rep] black_at_ptr [of s t] by simp

lemma loop_red_sibling:
  assumes rep: "rep s (plug (FL q (Node z1 z z2) # D) t)"
    and A: "set_tree (plug (FL q (Node z1 z z2) # D) t) \<subseteq> A"
    and pre: "del_pre (colors s) (FL q (Node z1 z z2) # D) t"
    and cols: "colors s z = RED" "col (colors s) t = BLACK"
  shows "\<exists>s1 p1. retrieving_loop (Suc (Suc n)) s (Some q) (ptr t) = Ok (s1, p1) \<and>
    restored A s (plug (FL q (Node z1 z z2) # D) t) (painted p1 s1)"
proof -
  let ?t = "plug (FL q (Node z1 z z2) # D) t" and ?t1 = "plug (FL q z1 # FL z z2 # D) t"
  obtain s1 where s1: "retrieving_sibling s q = Ok (s1, ptr z1)" "rep s1 ?t1" "relinked A s s1"
    "del_pre (colors s1) (FL q z1 # FL z z2 # D) t" "col (colors s1) z1 = BLACK" "colors s1 q = RED"
    "col (colors s1) t = BLACK"
    using sibling_red [OF rep A pre cols(1)] cols(2) by auto
  have A1: "set_tree ?t1 \<subseteq> A" and io: "inorder ?t1 = inorder ?t" using A by (auto simp: inorder_plug)
  obtain y where y: "ptr z1 = Some y" using del_pre_sibling [OF s1(4)] by auto
  have body: "retrieving_body s q = body_rest s1 q y" using retrieving_body_rest s1(1) y by simp
  from body_rest_cases [OF s1(2) A1 s1(4,5,7) y] show ?thesis
  proof (elim disjE exE conjE)
    fix s2 assume s2: "body_rest s1 q y = Ok (s2, cpar (FL z z2 # D), Some q)"
      "rep s2 (plug (FL z z2 # D) (Node t q z1))" "relinked A s1 s2"
      "del_pre (colors s2) (FL z z2 # D) (Node t q z1)" "colors s2 q = colors s1 q"
    have "retrieving_loop (Suc n) s2 (Some z) (Some q) = Ok (s2, Some q) \<and>
        restored A s2 (plug (FL z z2 # D) (Node t q z1)) (painted (Some q) s2)"
      using loop_stop [OF s2(2) _ s2(4), of A n "Some z"] A1 s2(5) s1(6) by auto
    moreover have "relinked A s s2" using s1(3) s2(3) by (rule relinked_trans)
    ultimately show ?thesis
      using loop_enter [OF rep cols(2), of "Suc n"] s2(1) body io
        restored_after [of A s s2 "plug (FL z z2 # D) (Node t q z1)" ?t] by auto
  next
    fix s2 assume s2: "body_rest s1 q y = Ok (s2, Some q, rb_root (rbTree s2))" "restored A s1 ?t1 s2"
    have "restored A s ?t s2" using restored_after [OF s1(3) io s2(2)] .
    then have "restored A s ?t (painted (rb_root (rbTree s2)) s2)" using A by (rule restored_root)
    then show ?thesis using loop_enter [OF rep cols(2), of "Suc n"] s2(1) body by auto
  qed
qed

lemma loop_black_sibling:
  assumes rep: "rep s (plug (FL q b # D) t)" and A: "set_tree (plug (FL q b # D) t) \<subseteq> A"
    and pre: "del_pre (colors s) (FL q b # D) t"
    and cols: "col (colors s) b = BLACK" "col (colors s) t = BLACK"
  shows "(\<exists>s1. retrieving_loop (Suc n) s (Some q) (ptr t) = retrieving_loop n s1 (cpar D) (Some q) \<and>
      rep s1 (plug D (Node t q b)) \<and> relinked A s s1 \<and> del_pre (colors s1) D (Node t q b)) \<or>
    (\<exists>s1 p1. retrieving_loop (Suc n) s (Some q) (ptr t) = retrieving_loop n s1 p1 (rb_root (rbTree s1)) \<and>
      restored A s (plug (FL q b # D) t) (painted (rb_root (rbTree s1)) s1))"
proof -
  obtain z where z: "ptr b = Some z" using del_pre_sibling [OF pre] by auto
  have body: "retrieving_body s q = body_rest s q z"
    using retrieving_body_rest sibling_black [OF rep cols(1)] z by simp
  from body_rest_cases [OF rep A pre cols z] show ?thesis
  proof (elim disjE exE conjE)
    fix s2 assume "body_rest s q z = Ok (s2, cpar D, Some q)" "rep s2 (plug D (Node t q b))"
      "relinked A s s2" "del_pre (colors s2) D (Node t q b)"
    then show ?thesis using loop_enter [OF rep cols(2), of n] body by auto
  next
    fix s2 assume s2: "body_rest s q z = Ok (s2, Some q, rb_root (rbTree s2))"
      "restored A s (plug (FL q b # D) t) s2"
    have "restored A s (plug (FL q b # D) t) (painted (rb_root (rbTree s2)) s2)"
      using s2(2) A by (rule restored_root)
    then show ?thesis using loop_enter [OF rep cols(2), of n] s2(1) body by auto
  qed
qed

lemma loop_fix:
  assumes "rep s (plug C t)" and "set_tree (plug C t) \<subseteq> A" and "del_pre (colors s) C t"
    and "lefts C = []" and "length C + 2 \<le> n"
  shows "\<exists>s1 p1. retrieving_loop n s (cpar C) (ptr t) = Ok (s1, p1) \<and>
    restored A s (plug C t) (painted p1 s1)"
  using assms
proof (induction C arbitrary: s t n)
  case Nil
  then obtain m where n: "n = Suc m" by (cases n) auto
  show ?case using loop_stop [OF Nil.prems(1-3)] unfolding n by blast
next
  case (Cons f D)
  then obtain q b where f: "f = FL q b" by (cases f) auto
  obtain m where n: "n = Suc (Suc m)" using Cons.prems(5) by (metis add_2_eq_Suc' le_Suc_ex plus_nat.simps(2))
  note rep = Cons.prems(1) [unfolded f] and A = Cons.prems(2) [unfolded f] and pre = Cons.prems(3) [unfolded f]
  show ?case
  proof (cases "col (colors s) t = RED")
    case True
    then show ?thesis using loop_stop [OF Cons.prems(1-3)] unfolding n by blast
  next
    case False
    then have black: "col (colors s) t = BLACK" by simp
    obtain z1 z z2 where b: "b = Node z1 z z2" using del_pre_sibling [OF pre] by blast
    show ?thesis
    proof (cases "colors s z = RED")
      case True
      then show ?thesis
        using loop_red_sibling [OF rep [unfolded b] A [unfolded b] pre [unfolded b] True black] f b
        unfolding n by simp
    next
      case False
      then have "col (colors s) b = BLACK" using b by simp
      from loop_black_sibling [OF rep A pre this black, of "Suc m"] show ?thesis
      proof (elim disjE exE conjE)
        fix s1 assume s1: "retrieving_loop (Suc (Suc m)) s (Some q) (ptr t) =
            retrieving_loop (Suc m) s1 (cpar D) (Some q)"
          "rep s1 (plug D (Node t q b))" "relinked A s s1" "del_pre (colors s1) D (Node t q b)"
        have "\<exists>s2 p2. retrieving_loop (Suc m) s1 (cpar D) (ptr (Node t q b)) = Ok (s2, p2) \<and>
            restored A s1 (plug D (Node t q b)) (painted p2 s2)"
          using Cons.prems f n by (intro Cons.IH [OF s1(2) _ s1(4)]) auto
        then show ?thesis using s1(1) restored_after [OF s1(3)] unfolding n f by auto
      next
        fix s1 p1 assume s1: "retrieving_loop (Suc (Suc m)) s (Some q) (ptr t) =
            retrieving_loop (Suc m) s1 p1 (rb_root (rbTree s1))"
          "restored A s (plug (FL q b # D) t) (painted (rb_root (rbTree s1)) s1)"
        then show ?thesis using loop_at_root [of m s1 p1] unfolding n f by auto
      qed
    qed
  qed
qed

section \<open>retrievingCases on the leftmost process\<close>

lemma leftmost_ctx: "t \<noteq> Leaf \<Longrightarrow> \<exists>C r. t = plug C (Node Leaf (hd (inorder t)) r) \<and> lefts C = []"
proof (induction t)
  case (Node l x r)
  show ?case
  proof (cases "l = Leaf")
    case True
    then show ?thesis by (intro exI [of _ "[]"]) simp
  next
    case False
    then obtain C r' where C: "l = plug C (Node Leaf (hd (inorder l)) r')" "lefts C = []"
      using Node.IH(1) by blast
    have "lefts (C @ [FL x r]) = []" using C(2) by (induction C rule: lefts.induct) auto
    moreover have "Node l x r = plug (C @ [FL x r]) (Node Leaf (hd (inorder l)) r')"
      using C(1) by (simp add: plug_append)
    moreover have "hd (inorder l) = hd (inorder (Node l x r))" using False by (simp add: hd_append)
    ultimately show ?thesis by metis
  qed
qed simp

lemma bh_zero: "bh c t = 0 \<Longrightarrow> col c t = BLACK \<Longrightarrow> t = Leaf"
  by (cases t) auto

lemma leftmost_right:
  assumes "invc c (Node Leaf x r)" and "invh c (Node Leaf x r)"
  shows "r = Leaf \<or> (\<exists>y. r = Node Leaf y Leaf \<and> c y = RED \<and> c x = BLACK)"
proof (cases r)
  case (Node a y b)
  have "c y = RED" "c x = BLACK" "bh c a = 0" "bh c b = 0" "col c a = BLACK" "col c b = BLACK"
    using assms Node by (auto split: if_splits)
  then show ?thesis using Node bh_zero [of c a] bh_zero [of c b] by simp
qed simp

text \<open>Unlinking: the right child takes the place of the removed process.\<close>

lemma unlink_Leaf:
  assumes "rep s (plug (FL q b # D) (Node Leaf x Leaf))"
  shows "rep (upd_proc q (\<lambda>p. p\<lparr>left := None\<rparr>) s) (plug (FL q b # D) Leaf)"
  using assms unfolding rep_plug by auto

lemma unlink_Node:
  assumes "rep s (plug (FL q b # D) (Node Leaf x (Node Leaf y Leaf)))"
  shows "rep (upd_proc q (\<lambda>p. p\<lparr>left := Some y\<rparr>) (upd_proc y (\<lambda>p. p\<lparr>parentP := Some q\<rparr>) s))
    (plug (FL q b # D) (Node Leaf y Leaf))"
  using assms unfolding rep_plug by auto

text \<open>The removal before the links of the removed process are cleared.\<close>

definition removed :: "'a rq_state_scheme \<Rightarrow> ptree \<Rightarrow> 'a rq_state_scheme \<Rightarrow> bool" where
  "removed s t s' \<longleftrightarrow> (\<exists>t'. rep s' t' \<and> inorder t' = tl (inorder t) \<and> rbtree_inv (colors s') t' \<and>
     relinked (set_tree t) s s')"

lemma removed_clear:
  assumes "removed s t s'" and "x = hd (inorder t)" and "t \<noteq> Leaf" and "distinct (inorder t)"
  shows "removed s t (upd_proc x (\<lambda>p. p\<lparr>parentP := None, left := None, right := None\<rparr>) s')"
proof -
  obtain t' where t': "rep s' t'" "inorder t' = tl (inorder t)" "rbtree_inv (colors s') t'"
    "relinked (set_tree t) s s'" using assms(1) unfolding removed_def by blast
  have x: "inorder t = x # tl (inorder t)" using assms(2,3) by simp
  then have "x \<notin> set (inorder t')" "x \<in> set (inorder t)" using assms(4) t'(2) by (metis distinct.simps(2) list.set_intros(1))+
  then have "x \<notin> set_tree t'" "x \<in> set_tree t" by simp_all
  then show ?thesis
    using t' by (auto simp: removed_def rep_def colors_upd_proc payload_def intro!: exI [of _ t'] relinked_intros)
qed

lemma rbtree_inv_plug:
  "rbtree_inv c (plug C t) \<longleftrightarrow> invc c t \<and> invh c t \<and> cinvc c C (col c t) \<and> cinvh c C (bh c t) \<and>
     croot c C (col c t) = BLACK"
  unfolding rbtree_inv_def invc_plug invh_plug col_plug by auto

lemma inorder_leftmost: "lefts C = [] \<Longrightarrow> inorder (plug C (Node Leaf x r)) = x # inorder (plug C r)"
  by (simp add: inorder_plug)

lemma removed_red:
  assumes "rep s (plug (FL q b # D) (Node Leaf x Leaf))" and "lefts D = []"
    and "rbtree_inv (colors s) (plug (FL q b # D) (Node Leaf x Leaf))" and "colors s x = RED"
  shows "removed s (plug (FL q b # D) (Node Leaf x Leaf)) (upd_proc q (\<lambda>p. p\<lparr>left := None\<rparr>) s)"
proof -
  have "rbtree_inv (colors s) (plug (FL q b # D) Leaf)"
    using assms(3,4) unfolding rbtree_inv_plug by auto
  then show ?thesis
    unfolding removed_def
    by (intro exI [of _ "plug (FL q b # D) Leaf"])
       (use unlink_Leaf [OF assms(1)] assms(2) in
         \<open>auto simp: inorder_plug colors_upd_proc payload_def intro!: relinked_intros\<close>)
qed

lemma removed_child:
  assumes rep: "rep s (plug (FL q b # D) (Node Leaf x (Node Leaf y Leaf)))" and "lefts D = []"
    and inv: "rbtree_inv (colors s) (plug (FL q b # D) (Node Leaf x (Node Leaf y Leaf)))"
    and cols: "colors s x = BLACK" "colors s y = RED"
  shows "removed s (plug (FL q b # D) (Node Leaf x (Node Leaf y Leaf)))
    (set_color BLACK y (upd_proc q (\<lambda>p. p\<lparr>left := Some y\<rparr>) (upd_proc y (\<lambda>p. p\<lparr>parentP := Some q\<rparr>) s)))"
proof -
  have "y \<notin> cset (FL q b # D)" using rep_dist [OF rep] unfolding distinct_plug by auto
  then have "rbtree_inv ((colors s)(y := BLACK)) (plug (FL q b # D) (Node Leaf y Leaf))"
    using inv cols unfolding rbtree_inv_plug by auto
  then show ?thesis
    unfolding removed_def
    by (intro exI [of _ "plug (FL q b # D) (Node Leaf y Leaf)"])
       (use unlink_Node [OF rep] assms(2) in
         \<open>auto simp: inorder_plug colors_upd_proc payload_def intro!: relinked_intros\<close>)
qed

lemma removed_black:
  assumes rep: "rep s (plug (FL q b # D) (Node Leaf x Leaf))" and "lefts D = []"
    and inv: "rbtree_inv (colors s) (plug (FL q b # D) (Node Leaf x Leaf))" and "colors s x = BLACK"
    and "length D + 3 \<le> RB_FUEL"
  shows "\<exists>s'. retrievingCases2 (upd_proc q (\<lambda>p. p\<lparr>left := None\<rparr>) s) (Some q) None = Ok s' \<and>
    removed s (plug (FL q b # D) (Node Leaf x Leaf)) s'"
proof -
  let ?s = "upd_proc q (\<lambda>p. p\<lparr>left := None\<rparr>) s" and ?t = "plug (FL q b # D) (Node Leaf x Leaf)"
  have c: "colors ?s = colors s" by (simp add: colors_upd_proc)
  have "del_pre (colors ?s) (FL q b # D) Leaf"
    using inv assms(4) unfolding c rbtree_inv_plug del_pre_def by simp
  moreover have "set_tree (plug (FL q b # D) Leaf) \<subseteq> set_tree ?t" by auto
  ultimately obtain s1 p1 where "retrieving_loop RB_FUEL ?s (Some q) None = Ok (s1, p1)"
    "restored (set_tree ?t) ?s (plug (FL q b # D) Leaf) (painted p1 s1)"
    using loop_fix [OF unlink_Leaf [OF rep], of "set_tree ?t" RB_FUEL] assms(2,5) by auto
  moreover have "relinked (set_tree ?t) s ?s" by (auto simp: payload_def intro!: relinked_intros)
  ultimately show ?thesis
    using retrievingCases2_painted assms(2) relinked_trans [of "set_tree ?t" s ?s]
    unfolding restored_def removed_def by (fastforce simp: inorder_plug)
qed

lemma removed_root:
  assumes rep: "rep s (Node Leaf x r)" and inv: "rbtree_inv (colors s) (Node Leaf x r)"
  shows "r = Leaf \<Longrightarrow> removed s (Node Leaf x r) (upd_tree (\<lambda>t. t\<lparr>rb_root := None\<rparr>) s)"
    and "r = Node Leaf y Leaf \<Longrightarrow> removed s (Node Leaf x r)
      (set_color BLACK y (upd_proc y (\<lambda>p. p\<lparr>parentP := None\<rparr>) (upd_tree (\<lambda>t. t\<lparr>rb_root := Some y\<rparr>) s)))"
  using rep inv
  by (auto simp: removed_def rep_def rbtree_inv_def colors_upd_proc payload_def
      intro!: relinked_intros exI [of _ r])

lemma retrievingCases_leftmost:
  assumes rep: "rep s t" and inv: "rbtree_inv (colors s) t" and "t \<noteq> Leaf" and "nodes t \<le> NPROC"
    and x: "x = hd (inorder t)"
  shows "\<exists>s'. retrievingCases s (parentP (procs s x)) (Some x) 1 = Ok s' \<and> removed s t s' \<and>
    left (procs s' x) = None \<and> right (procs s' x) = None \<and> parentP (procs s' x) = None"
proof -
  let ?clear = "upd_proc x (\<lambda>p. p\<lparr>parentP := None, left := None, right := None\<rparr>)"
  obtain C r where t: "t = plug C (Node Leaf x r)" and lC: "lefts C = []"
    using leftmost_ctx [OF \<open>t \<noteq> Leaf\<close>] x by blast
  have r: "r = Leaf \<or> (\<exists>y. r = Node Leaf y Leaf \<and> colors s y = RED \<and> colors s x = BLACK)"
    using leftmost_right inv unfolding t rbtree_inv_plug by blast
  note focus = rep_focus [OF rep [unfolded t]]
  have root: "rb_root (rbTree s) = ptr (plug C (Node Leaf x r))" using rep t by (simp add: rep_def)
  have "\<exists>s'. retrievingCases s (parentP (procs s x)) (Some x) 1 = Ok (?clear s') \<and> removed s t s'"
  proof (cases C)
    case Nil
    then show ?thesis
      using removed_root [OF rep [unfolded t Nil plug.simps] inv [unfolded t Nil plug.simps]] r root focus(3)
      unfolding t by (auto simp: retrievingCases_def Let_def simp del: One_nat_def)
  next
    case (Cons f D)
    then obtain q b where f: "f = FL q b" using lC by (cases f) auto
    note t' = t [unfolded Cons f]
    have nroot: "Some x \<noteq> rb_root (rbTree s)" and par: "parentP (procs s x) = Some q"
      using focus_not_root [OF rep [unfolded t']] focus(1) Cons f by simp_all
    have fuel: "length D + 3 \<le> RB_FUEL"
      using length_ctx [of C "Node Leaf x r"] \<open>nodes t \<le> NPROC\<close> t Cons by (simp add: RB_FUEL_def NPROC_def)
    show ?thesis
      using r
    proof (elim disjE exE conjE)
      assume "r = Leaf"
      note t'' = t' [unfolded this]
      show ?thesis
      proof (cases "colors s x = RED")
        case True
        then show ?thesis
          using removed_red [OF rep [unfolded t''] _ inv [unfolded t''] True] lC Cons f nroot par focus(3)
          unfolding t'' \<open>r = Leaf\<close>
          by (intro exI) (auto simp: retrievingCases_def Let_def colors_def simp del: One_nat_def)
      next
        case False
        then obtain s' where "retrievingCases2 (upd_proc q (\<lambda>p. p\<lparr>left := None\<rparr>) s) (Some q) None = Ok s'"
          "removed s t s'"
          using removed_black [OF rep [unfolded t''] _ inv [unfolded t''] _ fuel] lC Cons f t'' by auto
        then show ?thesis using nroot par focus(3) False \<open>r = Leaf\<close>
          by (intro exI [of _ s']) (simp add: retrievingCases_def Let_def colors_def del: One_nat_def)
      qed
    next
      fix y assume y: "r = Node Leaf y Leaf" "colors s y = RED" "colors s x = BLACK"
      note t'' = t' [unfolded y(1)]
      show ?thesis
        using removed_child [OF rep [unfolded t''] _ inv [unfolded t''] y(3,2)] lC Cons f nroot par focus(3) y
        unfolding t''
        by (intro exI) (auto simp: retrievingCases_def Let_def colors_def simp del: One_nat_def)
    qed
  qed
  then show ?thesis using removed_clear [OF _ x \<open>t \<noteq> Leaf\<close> rep_dist [OF rep]] by fastforce
qed

end
