(* ===== verification/Weight.thy ===== *)
theory Weight
  imports Xv6_Prelude "HOL-Library.Log_Nat"
begin

text \<open>
  \<^verbatim>\<open>calculateWeight\<close> of \<^verbatim>\<open>kernel/proc.c\<close>, with its arithmetic on \<^verbatim>\<open>double\<close>: binary64 numbers of
  normal range as mantissa and exponent, rounded to nearest, ties to even.
\<close>

section \<open>binary64 arithmetic on positive numbers\<close>

text \<open>\<open>(m, e)\<close> is the number \<open>m * 2 ^ e\<close>, with \<open>m\<close> of at most 53 bits.\<close>

type_synonym double = "int \<times> int"

definition dround :: "int \<Rightarrow> int \<Rightarrow> double" where
  "dround m e =
     (let k = nat (bitlen m - 53)
      in if k = 0 then (m, e)
         else let q = m div 2 ^ k; r = m mod 2 ^ k; half = 2 ^ (k - 1)
              in if half < r \<or> (r = half \<and> odd q) then (q + 1, e + int k) else (q, e + int k))"

definition dmul :: "double \<Rightarrow> double \<Rightarrow> double" where
  "dmul x y = dround (fst x * fst y) (snd x + snd y)"

text \<open>The quotient to at least 55 bits, with a sticky bit for the remainder, then rounded.\<close>

definition ddiv :: "double \<Rightarrow> double \<Rightarrow> double" where
  "ddiv x y =
     (let k = 55 + nat (bitlen (fst y));
          q = (fst x * 2 ^ k) div fst y;
          sticky = (if (fst x * 2 ^ k) mod fst y = 0 then 0 else 1)
      in dround (2 * q + sticky) (snd x - snd y - int k - 1))"

text \<open>The cast to \<^verbatim>\<open>int\<close> truncates.\<close>

definition dint :: "double \<Rightarrow> int" where
  "dint x = (if 0 \<le> snd x then fst x * 2 ^ nat (snd x) else fst x div 2 ^ nat (- snd x))"

definition d1_25 :: double where "d1_25 = (5, -2)"

definition double_of_int :: "int \<Rightarrow> double" where "double_of_int i = (i, 0)"

section \<open>calculateWeight\<close>

function weight_loop :: "int \<Rightarrow> int \<Rightarrow> double \<Rightarrow> double" where
  "weight_loop iterator nice denominator =
     (if iterator < nice \<and> nice > 0
      then weight_loop (iterator + 1) nice (dmul denominator d1_25)
      else denominator)"
  by auto
termination by (relation "measure (\<lambda>(i, n, d). nat (n - i))") auto

declare weight_loop.simps [simp del]

definition calculateWeight :: "int \<Rightarrow> int" where
  "calculateWeight nice =
     (let denominator = d1_25;
          nice1 = (if nice > 30 then 30 else nice)
      in dint (ddiv (double_of_int 1024) (weight_loop 0 nice1 denominator)))"

section \<open>The table of weights\<close>

lemma calculateWeight_clamp:
  "calculateWeight nice = calculateWeight (int (nat (min 30 nice)))"
proof -
  have "weight_loop 0 n d = d" if "n \<le> 0" for n d using that by (simp add: weight_loop.simps)
  then show ?thesis by (auto simp: calculateWeight_def Let_def min_def)
qed

lemma weight_table:
  "map calculateWeight (map int [0..<31]) = map (\<lambda>k. 1024 * 4 ^ (k + 1) div 5 ^ (k + 1)) [0..<31]"
  by code_simp

lemma weight_formula:
  "calculateWeight nice = 1024 * 4 ^ (nat (min 30 nice) + 1) div 5 ^ (nat (min 30 nice) + 1)"
proof -
  let ?k = "nat (min 30 nice)"
  have "?k < 31" by simp
  then have "map calculateWeight (map int [0..<31]) ! ?k = calculateWeight (int ?k)"
    "map (\<lambda>k. 1024 * 4 ^ (k + 1) div 5 ^ (k + 1)) [0..<31] ! ?k = (1024 * 4 ^ (?k + 1) div 5 ^ (?k + 1) :: int)"
    by (simp_all add: nth_append del: upt_Suc)
  then show ?thesis unfolding weight_table using calculateWeight_clamp by simp
qed

lemma frac_antimono:
  assumes "i \<le> j" and "j \<le> (31::nat)"
  shows "1024 * 4 ^ j div 5 ^ j \<le> (1024 * 4 ^ i div 5 ^ i :: int)"
proof -
  obtain d where j: "j = i + d" using assms(1) le_Suc_ex by blast
  have "(1024 * 4 ^ j :: int) div 5 ^ j = (1024 * 4 ^ i * 4 ^ d) div (5 ^ i * 5 ^ d)"
    unfolding j by (simp add: power_add mult.assoc)
  also have "\<dots> \<le> (1024 * 4 ^ i * 5 ^ d) div (5 ^ i * 5 ^ d)"
    by (intro zdiv_mono1 mult_left_mono power_mono) auto
  also have "\<dots> = 1024 * 4 ^ i div 5 ^ i" by simp
  finally show ?thesis .
qed

lemma weight_antimono: "a \<le> b \<Longrightarrow> calculateWeight b \<le> calculateWeight a"
  unfolding weight_formula by (rule frac_antimono) auto

lemma weight_bounds: "1 \<le> calculateWeight nice" "calculateWeight nice \<le> 819"
proof -
  have "(1::int) = 1024 * 4 ^ 31 div 5 ^ 31" by simp
  also have "\<dots> \<le> calculateWeight nice" unfolding weight_formula by (rule frac_antimono) auto
  finally show "1 \<le> calculateWeight nice" .
  have "calculateWeight nice \<le> 1024 * 4 ^ 1 div 5 ^ 1" unfolding weight_formula by (rule frac_antimono) auto
  then show "calculateWeight nice \<le> 819" by simp
qed

text \<open>Rounding is to nearest: the error is at most half a unit in the last place.\<close>

lemma dround_nearest:
  assumes "k = nat (bitlen m - 53)" and "0 < k"
  shows "2 * \<bar>m - fst (dround m e) * 2 ^ k\<bar> \<le> 2 ^ k" and "snd (dround m e) = e + int k"
proof -
  define q r h :: int where "q = m div 2 ^ k" and "r = m mod 2 ^ k" and "h = 2 ^ (k - 1)"
  have k: "(2::int) ^ k = 2 * h" using \<open>0 < k\<close> by (cases k) (auto simp: h_def)
  have m: "m = q * (2 * h) + r" "0 \<le> r" "r < 2 * h"
    unfolding q_def r_def k [symmetric] by (simp_all only: div_mult_mod_eq) simp_all
  have "fst (dround m e) = (if h < r \<or> (r = h \<and> odd q) then q + 1 else q)"
    using \<open>0 < k\<close> by (simp add: dround_def assms(1) [symmetric] Let_def q_def r_def h_def)
  then show "2 * \<bar>m - fst (dround m e) * 2 ^ k\<bar> \<le> 2 ^ k"
    using m unfolding k by (auto simp: algebra_simps)
  show "snd (dround m e) = e + int k" using \<open>0 < k\<close> by (simp add: dround_def assms(1) [symmetric] Let_def)
qed

text \<open>
  C3. The weight of a process, computed in floating point by repeated multiplication: for every nice
  value it is exactly the integer part of \<open>1024 / 1.25 ^ (n + 1)\<close> with \<open>n\<close> the nice value clamped to
  0..30. It lies between 1 and 819, and a higher nice value never gives a higher weight.
\<close>

theorem calculateWeight_exact:
  "calculateWeight nice = 1024 * 4 ^ (nat (min 30 nice) + 1) div 5 ^ (nat (min 30 nice) + 1) \<and>
   1 \<le> calculateWeight nice \<and> calculateWeight nice \<le> 819 \<and>
   calculateWeight (max nice nice') \<le> calculateWeight (min nice nice')"
  by (intro conjI weight_formula weight_bounds weight_antimono) simp

end
