(* ===== verification/RunQueue.thy ===== *)
theory RunQueue
  imports RB_Delete Weight "HOL-Library.Multiset"
begin

text \<open>
  The run queue as the rest of the kernel uses it: \<open>insertProcess\<close>, \<open>retrieveProcess\<close> and
  \<open>checkPreemption\<close> of \<^verbatim>\<open>kernel/proc.c\<close>, its invariant, and its refinement to a stable queue
  ordered by virtual runtime.
\<close>

section \<open>insertProcess\<close>

definition rq_acquire :: "nat \<Rightarrow> 'a rq_state_scheme \<Rightarrow> 'a rq_state_scheme res" where
  "rq_acquire c s = rbind (acquire c s (rb_lock (rbTree s)))
     (\<lambda>(s1, lk). Ok (upd_tree (\<lambda>t. t\<lparr>rb_lock := lk\<rparr>) s1))"

definition rq_release :: "nat \<Rightarrow> 'a rq_state_scheme \<Rightarrow> 'a rq_state_scheme res" where
  "rq_release c s = rbind (release c s (rb_lock (rbTree s)))
     (\<lambda>(s1, lk). Ok (upd_tree (\<lambda>t. t\<lparr>rb_lock := lk\<rparr>) s1))"

text \<open>The last statement of the insertion: keep or recompute the cached minimum.\<close>

definition refresh_min :: "'a rq_state_scheme \<Rightarrow> 'a rq_state_scheme res" where
  "refresh_min s =
     (if (case min_vRuntime (rbTree s) of None \<Rightarrow> True | Some m \<Rightarrow> left (procs s m) \<noteq> None)
      then rbind (setMinimumVRuntimeproc RB_FUEL s (rb_root (rbTree s)))
             (\<lambda>m. Ok (upd_tree (\<lambda>t. t\<lparr>min_vRuntime := m\<rparr>) s))
      else Ok s)"

definition insert_locked :: "'a rq_state_scheme \<Rightarrow> nat \<Rightarrow> 'a rq_state_scheme res" where
  "insert_locked s p =
     (if \<not> fullTree (rbTree s) then
        rbind (insertproc RB_FUEL s (rb_root (rbTree s)) p) (\<lambda>(s1, r).
          let s2 = upd_tree (\<lambda>t. t\<lparr>rb_root := r\<rparr>) s1
          in rbind (if rb_count (rbTree s2) = 0
                    then deref (rb_root (rbTree s2)) (\<lambda>x. Ok (upd_proc x (\<lambda>q. q\<lparr>parentP := None\<rparr>) s2))
                    else Ok s2) (\<lambda>s3.
             let s4 = upd_tree (\<lambda>t. t\<lparr>rb_count := rb_count t + 1\<rparr>) s3;
                 s5 = upd_proc p (\<lambda>q. q\<lparr>weightValue := calculateWeight (niceValue q)\<rparr>) s4;
                 s6 = upd_tree (\<lambda>t. t\<lparr>rbTreeWeight := rbTreeWeight t + weightValue (procs s5 p)\<rparr>) s5
             in rbind (insertionCases RB_FUEL s6 (Some p) 1) refresh_min))
      else Ok s)"

definition insertProcess :: "nat \<Rightarrow> 'a rq_state_scheme \<Rightarrow> nat \<Rightarrow> 'a rq_state_scheme res" where
  "insertProcess c s p =
     rbind (rq_acquire c s) (\<lambda>s1. rbind (insert_locked s1 p) (\<lambda>s2. rq_release c s2))"

section \<open>retrieveProcess\<close>

definition retrieve_locked :: "'a rq_state_scheme \<Rightarrow> ('a rq_state_scheme \<times> pptr) res" where
  "retrieve_locked s =
     (if \<not> emptyTree (rbTree s) then
        let s1 = (if rb_count (rbTree s) > latency div min_granularity
                  then upd_tree (\<lambda>t. t\<lparr>period := rb_count t * min_granularity\<rparr>) s else s);
            foundProcess = min_vRuntime (rbTree s1)
        in deref foundProcess (\<lambda>x.
             if state (procs s1 x) \<noteq> RUNNABLE then Ok (s1, None)
             else
               rbind (retrievingCases s1 (parentP (procs s1 x)) (min_vRuntime (rbTree s1)) 1) (\<lambda>s2.
               let s3 = upd_tree (\<lambda>t. t\<lparr>rb_count := rb_count t - 1\<rparr>) s2
               in rbind (setMinimumVRuntimeproc RB_FUEL s3 (rb_root (rbTree s3))) (\<lambda>m.
               let s4 = upd_tree (\<lambda>t. t\<lparr>min_vRuntime := m\<rparr>) s3
               in rbind (cdiv (period (rbTree s4) * weightValue (procs s4 x)) (rbTreeWeight (rbTree s4))) (\<lambda>slice.
               let s5 = upd_proc x (\<lambda>q. q\<lparr>maximumExecutiontime := slice\<rparr>) s4
               in Ok (upd_tree (\<lambda>t. t\<lparr>rbTreeWeight := rbTreeWeight t - weightValue (procs s5 x)\<rparr>) s5,
                      foundProcess)))))
      else Ok (s, None))"

definition retrieveProcess :: "nat \<Rightarrow> 'a rq_state_scheme \<Rightarrow> ('a rq_state_scheme \<times> pptr) res" where
  "retrieveProcess c s =
     rbind (rq_acquire c s) (\<lambda>s1. rbind (retrieve_locked s1) (\<lambda>(s2, found).
       rbind (rq_release c s2) (\<lambda>s3. Ok (s3, found))))"

section \<open>checkPreemption\<close>

definition checkPreemption :: "'a rq_state_scheme \<Rightarrow> nat \<Rightarrow> pptr \<Rightarrow> int" where
  "checkPreemption s current min_vruntime =
     (let procRuntime = currentRuntime (procs s current)
      in if procRuntime \<ge> maximumExecutiontime (procs s current) \<and> procRuntime \<ge> min_granularity then 1
         else if (case min_vruntime of None \<Rightarrow> False
                  | Some m \<Rightarrow> state (procs s m) = RUNNABLE \<and>
                              virtualRuntime (procs s current) > virtualRuntime (procs s m))
         then if procRuntime \<noteq> 0 \<and> procRuntime \<ge> min_granularity then 1
              else if procRuntime = 0 then 1 else 0
         else 0)"

section \<open>The invariant\<close>

definition vr :: "'a rq_state_scheme \<Rightarrow> nat \<Rightarrow> int" where
  "vr s i = virtualRuntime (procs s i)"

definition wt :: "'a rq_state_scheme \<Rightarrow> nat \<Rightarrow> int" where
  "wt s i = weightValue (procs s i)"

text \<open>\<open>rq_inv s xs\<close>: the run queue holds the processes \<open>xs\<close>, in the order they will be scheduled.\<close>

definition rq_inv :: "'a rq_state_scheme \<Rightarrow> nat list \<Rightarrow> bool" where
  "rq_inv s xs \<longleftrightarrow>
     (\<exists>t. rep s t \<and> inorder t = xs \<and> rbtree_inv (colors s) t) \<and>
     sorted (map (vr s) xs) \<and> set xs \<subseteq> {..<NPROC} \<and>
     rb_count (rbTree s) = int (length xs) \<and>
     rbTreeWeight (rbTree s) = sum_list (map (wt s) xs) \<and> (\<forall>i \<in> set xs. 1 \<le> wt s i \<and> wt s i \<le> 819) \<and>
     min_vRuntime (rbTree s) = (if xs = [] then None else Some (hd xs)) \<and>
     0 \<le> period (rbTree s) \<and> period (rbTree s) \<le> 2 * int NPROC \<and>
     (\<forall>i. i \<notin> set xs \<longrightarrow> left (procs s i) = None \<and> right (procs s i) = None)"

text \<open>The abstract insertion: after every process of no greater virtual runtime.\<close>

definition enq :: "('k \<Rightarrow> int) \<Rightarrow> 'k list \<Rightarrow> 'k \<Rightarrow> 'k list" where
  "enq v xs p = filter (\<lambda>x. v x \<le> v p) xs @ p # filter (\<lambda>x. v p < v x) xs"

fun put_list :: "('s \<Rightarrow> 'k \<Rightarrow> 's res) \<Rightarrow> 's \<Rightarrow> 'k list \<Rightarrow> 's res" where
  "put_list put s [] = Ok s"
| "put_list put s (p # ps) = rbind (put s p) (\<lambda>s1. put_list put s1 ps)"

fun take_list :: "('s \<Rightarrow> ('s \<times> 'k option) res) \<Rightarrow> 's \<Rightarrow> nat \<Rightarrow> ('s \<times> 'k list) res" where
  "take_list tk s 0 = Ok (s, [])"
| "take_list tk s (Suc n) = rbind (tk s) (\<lambda>(s1, x). deref x (\<lambda>y.
     rbind (take_list tk s1 n) (\<lambda>(s2, ys). Ok (s2, y # ys))))"

lemma set_enq [simp]: "set (enq v xs p) = insert p (set xs)"
  by (auto simp: enq_def)

lemma length_enq [simp]: "length (enq v xs p) = Suc (length xs)"
proof -
  have "length (filter (\<lambda>x. v x \<le> v p) xs) + length (filter (\<lambda>x. v p < v x) xs) = length xs"
    by (induction xs) auto
  then show ?thesis by (simp add: enq_def)
qed

lemma sorted_enq: "sorted (map v xs) \<Longrightarrow> sorted (map v (enq v xs p))"
  by (auto simp: enq_def sorted_append sorted_filter intro: order.trans)

lemma sum_enq: "sum_list (map w (enq v xs p)) = sum_list (map w xs) + (w p :: int)"
proof -
  have "sum_list (map w (filter (\<lambda>x. v x \<le> v p) xs)) + sum_list (map w (filter (\<lambda>x. v p < v x) xs)) =
      sum_list (map w xs)" by (induction xs) auto
  then show ?thesis by (simp add: enq_def)
qed

lemma mset_enq: "mset (enq v xs p) = add_mset p (mset xs)"
proof -
  have "mset (filter (\<lambda>x. v x \<le> v p) xs) + mset (filter (\<lambda>x. v p < v x) xs) = mset xs"
    by (induction xs) auto
  then show ?thesis by (simp add: enq_def)
qed

lemma filter_key:
  "filter (\<lambda>x. v x \<le> m \<and> k = v x) xs = (if k \<le> m then filter (\<lambda>x. k = v x) xs else [])"
  "filter (\<lambda>x. m < v x \<and> k = v x) xs = (if m < k then filter (\<lambda>x. k = v x) xs else [])"
  by (induction xs) auto

text \<open>Inserting one by one is a stable sort.\<close>

lemma sort_key_snoc: "sort_key v (ps @ [p]) = enq v (sort_key v ps) p"
proof (rule properties_for_sort_key)
  show "mset (enq v (sort_key v ps) p) = mset (ps @ [p])" by (simp add: mset_enq)
  show "sorted (map v (enq v (sort_key v ps) p))" by (rule sorted_enq) simp
  fix k
  have "filter (\<lambda>x. v k = v x) (enq v (sort_key v ps) p) =
      filter (\<lambda>x. v k = v x) (sort_key v ps) @ (if v k = v p then [p] else [])"
    by (simp add: enq_def filter_key)
  also have "filter (\<lambda>x. v k = v x) (sort_key v ps) = filter (\<lambda>x. v k = v x) ps"
    using sort_key_stable [of v "v k" ps] by (simp add: eq_commute)
  finally show "filter (\<lambda>x. v k = v x) (enq v (sort_key v ps) p) = filter (\<lambda>x. v k = v x) (ps @ [p])"
    by simp
qed

lemma foldl_enq: "foldl (enq v) [] ps = sort_key v ps"
  by (induction ps rule: rev_induct) (simp_all add: sort_key_snoc del: sort_key_conv_fold)

lemma rq_inv_dist: "rq_inv s xs \<Longrightarrow> distinct xs"
  by (auto simp: rq_inv_def rep_def)

lemma rq_inv_length: "rq_inv s xs \<Longrightarrow> length xs \<le> NPROC"
  using card_mono [of "{..<NPROC}" "set xs"] rq_inv_dist [of s xs] distinct_card [of xs]
  by (auto simp: rq_inv_def)

section \<open>What the queue operations leave alone\<close>

text \<open>
  \<open>rq_frame G s s'\<close>: \<open>s'\<close> differs from \<open>s\<close> in the run queue (not its lock) and in the process table,
  and there every process is \<open>G i\<close> up to links and colour.
\<close>

definition rq_frame :: "(nat \<Rightarrow> proc) \<Rightarrow> 'a rq_state_scheme \<Rightarrow> 'a rq_state_scheme \<Rightarrow> bool" where
  "rq_frame G s s' \<longleftrightarrow>
     (\<exists>P T. s' = s\<lparr>procs := P, rbTree := T\<rparr> \<and> rb_lock T = rb_lock (rbTree s)) \<and>
     (\<forall>i. payload (procs s' i) = payload (G i))"

lemma rq_frame_refl: "rq_frame (procs s) s s"
proof -
  have "s = s\<lparr>procs := procs s, rbTree := rbTree s\<rparr>" by simp
  then show ?thesis unfolding rq_frame_def by metis
qed

lemma rq_frame_tree:
  assumes "rq_frame G s s'" and "\<And>t. rb_lock (g t) = rb_lock t"
  shows "rq_frame G s (upd_tree g s')"
proof -
  obtain P T where "s' = s\<lparr>procs := P, rbTree := T\<rparr>" "rb_lock T = rb_lock (rbTree s)"
    using assms(1) unfolding rq_frame_def by blast
  then have "upd_tree g s' = s\<lparr>procs := P, rbTree := g T\<rparr> \<and> rb_lock (g T) = rb_lock (rbTree s)"
    using assms(2) by (simp add: upd_tree_def)
  moreover have "procs (upd_tree g s') = procs s'" by simp
  ultimately show ?thesis using assms(1) unfolding rq_frame_def by metis
qed

lemma rq_frame_relinked:
  assumes "rq_frame G s s'" and "relinked A s' s''"
  shows "rq_frame G s s''"
proof -
  obtain P T where 1: "s' = s\<lparr>procs := P, rbTree := T\<rparr>" "rb_lock T = rb_lock (rbTree s)"
    "\<forall>i. payload (procs s' i) = payload (G i)"
    using assms(1) unfolding rq_frame_def by blast
  obtain P' r where 2: "s'' = s'\<lparr>procs := P', rbTree := (rbTree s')\<lparr>rb_root := r\<rparr>\<rparr>"
    "\<forall>i. payload (P' i) = payload (procs s' i)"
    using assms(2) unfolding relinked_def by blast
  show ?thesis unfolding rq_frame_def
    by (intro conjI exI [of _ P'] exI [of _ "T\<lparr>rb_root := r\<rparr>"]) (use 1 2 in simp_all)
qed

lemma rq_frame_proc:
  assumes "rq_frame G s s'"
    and "\<And>q. payload q = payload (G p) \<Longrightarrow> payload (f q) = payload (h (G p))"
  shows "rq_frame (G(p := h (G p))) s (upd_proc p f s')"
proof -
  obtain P T where 1: "s' = s\<lparr>procs := P, rbTree := T\<rparr>" "rb_lock T = rb_lock (rbTree s)"
    "\<forall>i. payload (procs s' i) = payload (G i)"
    using assms(1) unfolding rq_frame_def by blast
  show ?thesis unfolding rq_frame_def
    by (intro conjI exI [of _ "P(p := f (P p))"] exI [of _ T]) (use 1 assms(2) in \<open>simp_all add: upd_proc_def\<close>)
qed

lemma relinked_tree:
  assumes "relinked A s s'"
  shows "rb_count (rbTree s') = rb_count (rbTree s)" "rbTreeWeight (rbTree s') = rbTreeWeight (rbTree s)"
    "min_vRuntime (rbTree s') = min_vRuntime (rbTree s)" "period (rbTree s') = period (rbTree s)"
    "rb_lock (rbTree s') = rb_lock (rbTree s)"
  using assms by (auto simp: relinked_def)

lemma payload_sel:
  "virtualRuntime (payload p) = virtualRuntime p" "weightValue (payload p) = weightValue p"
  "niceValue (payload p) = niceValue p" "state (payload p) = state p"
  "currentRuntime (payload p) = currentRuntime p"
  "maximumExecutiontime (payload p) = maximumExecutiontime p"
  by (simp_all add: payload_def)

lemma payload_fields:
  assumes "payload p = payload q"
  shows "virtualRuntime p = virtualRuntime q" "weightValue p = weightValue q" "niceValue p = niceValue q"
    "state p = state q" "currentRuntime p = currentRuntime q"
    "maximumExecutiontime p = maximumExecutiontime q"
  using assms by (metis payload_sel)+

lemma rq_frame_vr: "rq_frame G s s' \<Longrightarrow> vr s' = (\<lambda>i. virtualRuntime (G i))"
  unfolding rq_frame_def vr_def by (metis payload_fields(1))

lemma rq_frame_wt: "rq_frame G s s' \<Longrightarrow> wt s' = (\<lambda>i. weightValue (G i))"
  unfolding rq_frame_def wt_def by (metis payload_fields(2))

section \<open>insertProcess keeps the invariant\<close>

lemma rep_upd_tree: "(\<And>t. rb_root (g t) = rb_root t) \<Longrightarrow> rep (upd_tree g s) t = rep s t"
  by (simp add: rep_def)

lemma rep_upd_payload:
  assumes "\<And>q. left (f q) = left q \<and> right (f q) = right q \<and> parentP (f q) = parentP q"
  shows "rep (upd_proc p f s) t = rep s t"
proof -
  have "tree_at (procs (upd_proc p f s)) par t = tree_at (procs s) par t" for par
    by (rule tree_at_cong) (auto simp: same_links_def assms)
  then show ?thesis by (simp add: rep_def del: upd_proc_simps(1))
qed

lemma refresh_min_correct:
  assumes rep: "rep s t" and "nodes t \<le> NPROC" and "t \<noteq> Leaf"
    and min: "min_vRuntime (rbTree s) = None \<or> min_vRuntime (rbTree s) = Some (hd (inorder t)) \<or>
      (\<exists>p q xs. inorder t = p # q # xs \<and> min_vRuntime (rbTree s) = Some q \<and> right (procs s p) = None)"
  shows "refresh_min s = Ok (upd_tree (\<lambda>T. T\<lparr>min_vRuntime := Some (hd (inorder t))\<rparr>) s)"
proof -
  have at: "tree_at (procs s) None t" "rb_root (rbTree s) = ptr t" using rep by (simp_all add: rep_def)
  have "setMinimumVRuntimeproc RB_FUEL s (ptr t) = Ok (Some (hd (inorder t)))"
    using setMinimum_tree [OF at(1), of RB_FUEL] assms(2,3) height_nodes [of t]
    by (simp add: RB_FUEL_def NPROC_def)
  moreover have "upd_tree (\<lambda>T. T\<lparr>min_vRuntime := Some (hd (inorder t))\<rparr>) s = s"
    if "min_vRuntime (rbTree s) = Some (hd (inorder t))"
    using that [symmetric] by (simp add: upd_tree_def)
  ultimately show ?thesis
    using min leftmost_left [OF at(1) assms(3)] second_left [OF at(1)] at(2)
    by (auto simp: refresh_min_def)
qed

text \<open>The state after the leaf insertion and the bookkeeping, before the fix-up.\<close>

definition with_weight :: "proc \<Rightarrow> proc" where
  "with_weight q = q\<lparr>weightValue := calculateWeight (niceValue q)\<rparr>"

lemma payload_with_weight: "payload (with_weight q) = with_weight (payload q)"
  by (simp add: payload_def with_weight_def)

lemma insert_leaf:
  assumes rep: "rep s t" and p: "p \<notin> set_tree t" and links: "left (procs s p) = None" "right (procs s p) = None"
    and size: "nodes t < NPROC" and count: "rb_count (rbTree s) = int (nodes t)"
    and H: "H = hole (vr s) (vr s p) t []"
  shows "\<exists>s3. rbind (insertproc RB_FUEL s (rb_root (rbTree s)) p) (\<lambda>(s1, r).
          let s2 = upd_tree (\<lambda>t. t\<lparr>rb_root := r\<rparr>) s1
          in if rb_count (rbTree s2) = 0
             then deref (rb_root (rbTree s2)) (\<lambda>x. Ok (upd_proc x (\<lambda>q. q\<lparr>parentP := None\<rparr>) s2))
             else Ok s2) = Ok s3 \<and>
    rep s3 (plug H (Node Leaf p Leaf)) \<and> relinked (insert p (set_tree t)) s s3 \<and>
    colors s3 = (colors s)(p := RED)"
proof -
  let ?t = "plug H (Node Leaf p Leaf)" and ?par = "if t = Leaf then parentP (procs s p) else None"
  have "tree_at (procs s) ?par t" "distinct (inorder t)" using rep by (auto simp: rep_def)
  then obtain s1 where s1: "insertproc RB_FUEL s (ptr t) p = Ok (s1, ptr ?t)"
    "tree_at (procs s1) ?par ?t" "relinked (insert p (set_tree t)) s s1" "rbTree s1 = rbTree s"
    "colors s1 = (colors s)(p := RED)"
    using insertproc_tree [of s ?par t p RB_FUEL "vr s"] p links size
    unfolding H vr_def RB_FUEL_def by (auto simp: fun_eq_iff)
  have "cset H = set_tree t" using set_plug_hole [of "vr s" "vr s p" t "[]" Leaf] H by simp
  moreover have "distinct (inorder (plug H Leaf))" using rep by (simp add: H plug_hole rep_def)
  ultimately have dist: "distinct (inorder ?t)" using p by (simp add: distinct_plug)
  have root: "rb_root (rbTree s) = ptr t" using rep by (simp add: rep_def)
  show ?thesis
  proof (cases "t = Leaf")
    case True
    then have "rep (upd_proc p (\<lambda>q. q\<lparr>parentP := None\<rparr>) (upd_tree (\<lambda>t. t\<lparr>rb_root := Some p\<rparr>) s1)) ?t"
      using s1(2) by (simp add: rep_def H)
    then show ?thesis
      using s1 True root count
      by (auto simp: H Let_def colors_upd_proc payload_def intro!: relinked_intros)
  next
    case False
    then have "rb_count (rbTree s) \<noteq> 0" using count by (cases t) auto
    moreover have "rep (upd_tree (\<lambda>u. u\<lparr>rb_root := ptr ?t\<rparr>) s1) ?t"
      using s1(2) dist False by (simp add: rep_def)
    ultimately show ?thesis
      using s1 root by (auto simp: Let_def intro!: relinked_rootI)
  qed
qed

lemma insert_fixed:
  assumes rep: "rep s (plug H (Node Leaf p Leaf))" and "ins_pre (colors s) H (Node Leaf p Leaf)"
    and size: "nodes (plug H (Node Leaf p Leaf)) \<le> NPROC"
    and min: "min_vRuntime (rbTree s) =
      (if plug H Leaf = Leaf then None else Some (hd (inorder (plug H Leaf))))"
  shows "\<exists>s' t'. rbind (insertionCases RB_FUEL s (Some p) 1) refresh_min =
      Ok (upd_tree (\<lambda>T. T\<lparr>min_vRuntime := Some (hd (inorder t'))\<rparr>) s') \<and>
    rep s' t' \<and> inorder t' = lefts H @ p # rights H \<and> rbtree_inv (colors s') t' \<and>
    relinked (set_tree t') s s'"
proof -
  let ?t = "plug H (Node Leaf p Leaf)"
  have "2 * length H + 3 \<le> RB_FUEL"
    using length_ctx [of H "Node Leaf p Leaf"] size by (simp add: RB_FUEL_def NPROC_def)
  from insertionCases_fix [OF rep subset_refl assms(2) this]
  obtain s' t' where s': "insertionCases RB_FUEL s (Some p) 1 = Ok s'" "rep s' t'"
    "inorder t' = inorder ?t" "rbtree_inv (colors s') t'" "relinked (set_tree ?t) s s'"
    "lefts H = [] \<longrightarrow> kids_kept (set_tree (Node Leaf p Leaf)) s s'"
    unfolding restored_def by blast
  have io: "inorder t' = lefts H @ p # rights H" using s'(3) by (simp add: inorder_plug)
  have "min_vRuntime (rbTree s') = min_vRuntime (rbTree s)" by (rule relinked_tree(3) [OF s'(5)])
  then have min': "min_vRuntime (rbTree s') = (if H = [] then None else Some (hd (lefts H @ rights H)))"
    using min plug_Node [of "hd H" "tl H" H Leaf] by (cases H) (auto simp: inorder_plug)
  have "refresh_min s' = Ok (upd_tree (\<lambda>T. T\<lparr>min_vRuntime := Some (hd (inorder t'))\<rparr>) s')"
  proof (rule refresh_min_correct [OF s'(2)])
    show "nodes t' \<le> NPROC" using size s'(3) by (metis length_inorder)
    show "t' \<noteq> Leaf" using io by auto
    show "min_vRuntime (rbTree s') = None \<or> min_vRuntime (rbTree s') = Some (hd (inorder t')) \<or>
      (\<exists>p q xs. inorder t' = p # q # xs \<and> min_vRuntime (rbTree s') = Some q \<and> right (procs s' p) = None)"
    proof (cases "lefts H = []")
      case True
      then have "right (procs s' p) = None" using s'(6) rep_focus(3) [OF rep] by (simp add: kids_kept_def)
      moreover have "\<exists>q xs. rights H = q # xs" if "H \<noteq> []" using that True by (cases H; cases "hd H") auto
      ultimately show ?thesis using io True min' by fastforce
    next
      case False
      then show ?thesis using io min' by (cases "lefts H") auto
    qed
  qed
  moreover have "set_tree t' = set_tree ?t" using s'(3) by (metis set_inorder)
  moreover have "rbind (insertionCases RB_FUEL s (Some p) 1) refresh_min = refresh_min s'"
    unfolding s'(1) by simp
  ultimately show ?thesis
    using s'(2,4,5) io by (intro exI [of _ s'] exI [of _ t']) presburger
qed

lemma insert_locked_correct:
  assumes inv: "rq_inv s xs" and p: "p \<notin> set xs" "p < NPROC"
  shows "\<exists>s'. insert_locked s p = Ok s' \<and> rq_inv s' (enq (vr s) xs p) \<and>
    rq_frame ((procs s)(p := with_weight (procs s p))) s s' \<and> period (rbTree s') = period (rbTree s)"
proof -
  obtain t where t: "rep s t" "inorder t = xs" "rbtree_inv (colors s) t" using inv by (auto simp: rq_inv_def)
  have xs: "set_tree t = set xs" "nodes t = length xs" using t(2) by (metis set_inorder, metis length_inorder)
  have len: "length xs < NPROC"
    using card_mono [of "{..<NPROC}" "insert p (set xs)"] rq_inv_dist [OF inv] distinct_card [of xs] inv p
    by (auto simp: rq_inv_def)
  define H where "H = hole (vr s) (vr s p) t []"
  have lists: "lefts H @ p # rights H = enq (vr s) xs p"
    using hole_lists [of "vr s" t "vr s p" "[]"] inv t(2) by (simp add: H_def enq_def rq_inv_def)
  obtain s3 where s3: "rbind (insertproc RB_FUEL s (rb_root (rbTree s)) p) (\<lambda>(s1, r).
          let s2 = upd_tree (\<lambda>t. t\<lparr>rb_root := r\<rparr>) s1
          in if rb_count (rbTree s2) = 0
             then deref (rb_root (rbTree s2)) (\<lambda>x. Ok (upd_proc x (\<lambda>q. q\<lparr>parentP := None\<rparr>) s2))
             else Ok s2) = Ok s3"
    "rep s3 (plug H (Node Leaf p Leaf))" "relinked (insert p (set_tree t)) s s3"
    "colors s3 = (colors s)(p := RED)"
    using insert_leaf [OF t(1) _ _ _ _ _ H_def] p inv len xs by (auto simp: rq_inv_def)
  define s4 where "s4 = upd_tree (\<lambda>t. t\<lparr>rb_count := rb_count t + 1\<rparr>) s3"
  define s5 where "s5 = upd_proc p with_weight s4"
  define s6 where "s6 = upd_tree (\<lambda>t. t\<lparr>rbTreeWeight := rbTreeWeight t + weightValue (procs s5 p)\<rparr>) s5"
  have run: "insert_locked s p = rbind (insertionCases RB_FUEL s6 (Some p) 1) refresh_min"
  proof -
    have full: "\<not> fullTree (rbTree s)" using inv len by (simp add: fullTree_def rq_inv_def)
    from s3(1) obtain s1 r where 1: "insertproc RB_FUEL s (rb_root (rbTree s)) p = Ok (s1, r)"
      "(let s2 = upd_tree (\<lambda>t. t\<lparr>rb_root := r\<rparr>) s1
        in if rb_count (rbTree s2) = 0
           then deref (rb_root (rbTree s2)) (\<lambda>x. Ok (upd_proc x (\<lambda>q. q\<lparr>parentP := None\<rparr>) s2))
           else Ok s2) = Ok s3"
      by (auto simp: rbind_Ok_iff)
    show ?thesis
      using full 1(2) unfolding insert_locked_def 1(1) s6_def s5_def s4_def with_weight_def [abs_def]
      by (simp add: Let_def del: upd_tree_simps upd_proc_simps)
  qed
  define G where "G = (procs s)(p := with_weight (procs s p))"
  have fr5: "rq_frame G s s5"
    unfolding G_def s5_def s4_def
    by (intro rq_frame_proc rq_frame_tree rq_frame_relinked [OF rq_frame_refl s3(3)])
       (simp_all add: payload_with_weight)
  have wp: "weightValue (procs s5 p) = calculateWeight (niceValue (procs s p))"
    using fr5 payload_fields(2) [of "procs s5 p" "G p"] by (simp add: rq_frame_def G_def with_weight_def)
  have rep6: "rep s6 (plug H (Node Leaf p Leaf))"
    using s3(2) by (simp add: s6_def s5_def s4_def rep_upd_tree rep_upd_payload with_weight_def)
  have col6: "colors s6 = (colors s)(p := RED)"
    unfolding s6_def s5_def s4_def by (simp add: colors_upd_proc with_weight_def s3(4))
  have tH: "plug H Leaf = t" by (simp add: H_def plug_hole)
  have "ins_pre (colors s6) H (Node Leaf p Leaf)"
    unfolding col6 H_def by (rule leaf_ins_pre [OF t(3)]) (use xs p in simp)
  moreover have "nodes (plug H (Node Leaf p Leaf)) \<le> NPROC"
    using len lists arg_cong [OF lists, of length] by (simp flip: length_inorder add: inorder_plug)
  moreover have "min_vRuntime (rbTree s6) =
      (if plug H Leaf = Leaf then None else Some (hd (inorder (plug H Leaf))))"
    using inv t(2) relinked_tree(3) [OF s3(3)]
    unfolding tH by (auto simp: s6_def s5_def s4_def rq_inv_def)
  ultimately obtain s' t' where s': "insert_locked s p =
      Ok (upd_tree (\<lambda>T. T\<lparr>min_vRuntime := Some (hd (inorder t'))\<rparr>) s')"
    "rep s' t'" "inorder t' = enq (vr s) xs p" "rbtree_inv (colors s') t'"
    "relinked (set_tree t') s6 s'"
    using insert_fixed [OF rep6] unfolding lists run by blast
  define s'' where "s'' = upd_tree (\<lambda>T. T\<lparr>min_vRuntime := Some (hd (inorder t'))\<rparr>) s'"
  have fr: "rq_frame G s s''"
    unfolding s''_def by (rule rq_frame_tree [OF rq_frame_relinked [OF _ s'(5)]])
      (auto simp: s6_def intro: rq_frame_tree [OF fr5])
  have st: "set_tree t' = insert p (set xs)" using s'(3) by (metis set_inorder set_enq)
  have tr: "rb_count (rbTree s'') = rb_count (rbTree s) + 1" "period (rbTree s'') = period (rbTree s)"
      "rbTreeWeight (rbTree s'') = rbTreeWeight (rbTree s) + calculateWeight (niceValue (procs s p))"
      "min_vRuntime (rbTree s'') = Some (hd (enq (vr s) xs p))"
    using relinked_tree [OF s3(3)] relinked_tree [OF s'(5)] wp s'(3)
    by (simp_all add: s''_def s6_def s5_def s4_def)
  have out: "procs s'' i = procs s i" if "i \<noteq> p" "i \<notin> set xs" for i
    using that relinked_out [OF s'(5)] relinked_out [OF s3(3)] xs st
    by (simp add: s''_def s6_def s5_def s4_def)
  have vr: "vr s'' = vr s" unfolding rq_frame_vr [OF fr] by (auto simp: G_def vr_def with_weight_def)
  have wt: "wt s'' = (wt s)(p := calculateWeight (niceValue (procs s p)))"
    unfolding rq_frame_wt [OF fr] by (auto simp: G_def wt_def with_weight_def)
  have "rq_inv s'' (enq (vr s) xs p)"
    unfolding rq_inv_def
  proof (intro conjI)
    show "\<exists>t. rep s'' t \<and> inorder t = enq (vr s) xs p \<and> rbtree_inv (colors s'') t"
      using s'(2-4) by (auto simp: s''_def rep_upd_tree)
    show "sorted (map (vr s'') (enq (vr s) xs p))" using inv by (simp add: vr sorted_enq rq_inv_def)
    show "rbTreeWeight (rbTree s'') = sum_list (map (wt s'') (enq (vr s) xs p))"
    proof -
      have "map (wt s'') xs = map (wt s) xs" using p by (auto simp: wt)
      moreover have "wt s'' p = calculateWeight (niceValue (procs s p))" by (simp add: wt)
      ultimately show ?thesis using inv tr(3) by (simp only: sum_enq rq_inv_def)
    qed
    show "\<forall>i\<in>set (enq (vr s) xs p). 1 \<le> wt s'' i \<and> wt s'' i \<le> 819" using inv weight_bounds by (auto simp: wt rq_inv_def)
    show "\<forall>i. i \<notin> set (enq (vr s) xs p) \<longrightarrow> left (procs s'' i) = None \<and> right (procs s'' i) = None"
      using out inv by (auto simp: rq_inv_def)
  qed (use inv p tr in \<open>auto simp: rq_inv_def\<close>, auto simp: enq_def)
  then show ?thesis using s'(1) fr tr unfolding s''_def G_def by auto
qed

section \<open>retrieveProcess keeps the invariant\<close>

text \<open>The period after the adjustment at the start of a retrieval.\<close>

definition next_period :: "redblackTree \<Rightarrow> int" where
  "next_period t = (if rb_count t > latency div min_granularity then rb_count t * min_granularity
     else period t)"

definition with_period :: "'a rq_state_scheme \<Rightarrow> 'a rq_state_scheme" where
  "with_period s = upd_tree (\<lambda>t. t\<lparr>period := next_period t\<rparr>) s"

lemma with_period_eq:
  "(if rb_count (rbTree s) > latency div min_granularity
    then upd_tree (\<lambda>t. t\<lparr>period := rb_count t * min_granularity\<rparr>) s else s) = with_period s"
  by (simp add: with_period_def next_period_def upd_tree_def)

lemma next_period_bound: "rq_inv s xs \<Longrightarrow> 0 \<le> next_period (rbTree s) \<and> next_period (rbTree s) \<le> 2 * int NPROC"
  using rq_inv_length [of s xs] by (simp add: next_period_def rq_inv_def min_granularity_def)

lemma with_period_inv: "rq_inv s xs \<Longrightarrow> rq_inv (with_period s) xs"
  using next_period_bound [of s xs]
  by (simp add: rq_inv_def with_period_def next_period_def rep_upd_tree vr_def [abs_def] wt_def [abs_def]
      min_granularity_def)

lemma with_period_frame: "rq_frame (procs s) s (with_period s)"
  unfolding with_period_def by (rule rq_frame_tree [OF rq_frame_refl]) simp

text \<open>The time slice given to the process that is removed.\<close>

definition slice :: "'a rq_state_scheme \<Rightarrow> nat \<Rightarrow> int" where
  "slice s x = (next_period (rbTree s) * wt s x) div rbTreeWeight (rbTree s)"

lemma payload_slice:
  "payload (q\<lparr>maximumExecutiontime := k\<rparr>) = (payload q)\<lparr>maximumExecutiontime := k\<rparr>"
  by (simp add: payload_def)

lemma retrieve_empty: "rq_inv s [] \<Longrightarrow> retrieve_locked s = Ok (s, None)"
  by (simp add: retrieve_locked_def emptyTree_def rq_inv_def)

lemma retrieve_not_runnable:
  "rq_inv s (x # xs) \<Longrightarrow> state (procs s x) \<noteq> RUNNABLE \<Longrightarrow> retrieve_locked s = Ok (with_period s, None)"
  unfolding retrieve_locked_def with_period_eq
  by (simp add: emptyTree_def rq_inv_def Let_def with_period_def)

lemma retrieve_runnable:
  assumes inv0: "rq_inv s0 (x # xs)" and run: "state (procs s0 x) = RUNNABLE"
  shows "\<exists>s'. retrieve_locked s0 = Ok (s', Some x) \<and> rq_inv s' xs \<and>
    rq_frame ((procs s0)(x := (procs s0 x)\<lparr>maximumExecutiontime := slice s0 x\<rparr>)) s0 s' \<and>
    period (rbTree s') = next_period (rbTree s0)"
proof -
  define s where "s = with_period s0"
  have inv: "rq_inv s (x # xs)" and fr0: "rq_frame (procs s0) s0 s"
    unfolding s_def using with_period_inv [OF inv0] with_period_frame by auto
  obtain t where t: "rep s t" "inorder t = x # xs" "rbtree_inv (colors s) t"
    using inv by (auto simp: rq_inv_def)
  have size: "nodes t \<le> NPROC" "t \<noteq> Leaf" "x = hd (inorder t)" "set_tree t = insert x (set xs)"
    using rq_inv_length [OF inv] t(2) by (auto simp flip: length_inorder set_inorder)
  obtain s2 t2 where s2: "retrievingCases s (parentP (procs s x)) (Some x) 1 = Ok s2"
    "rep s2 t2" "inorder t2 = xs" "rbtree_inv (colors s2) t2" "relinked (set_tree t) s s2"
    "left (procs s2 x) = None" "right (procs s2 x) = None"
    using retrievingCases_leftmost [OF t(1,3) size(2,1,3)] t(2) unfolding removed_def by auto
  define s3 where "s3 = upd_tree (\<lambda>t. t\<lparr>rb_count := rb_count t - 1\<rparr>) s2"
  define m where "m = (if xs = [] then None else Some (hd xs))"
  define s4 where "s4 = upd_tree (\<lambda>t. t\<lparr>min_vRuntime := m\<rparr>) s3"
  have "setMinimumVRuntimeproc RB_FUEL s3 (rb_root (rbTree s3)) = Ok m"
  proof -
    have "tree_at (procs s3) None t2" "rb_root (rbTree s3) = ptr t2" "nodes t2 < RB_FUEL"
      using s2(2,3) rq_inv_length [OF inv] by (auto simp: s3_def rep_def RB_FUEL_def NPROC_def simp flip: length_inorder)
    then show ?thesis using setMinimum_tree [of s3 None t2 RB_FUEL] height_nodes [of t2] s2(3)
      by (auto simp: m_def)
  qed
  moreover have fr4: "rq_frame (procs s0) s0 s4"
    unfolding s4_def s3_def by (intro rq_frame_tree rq_frame_relinked [OF fr0 s2(5)]) simp_all
  moreover have tr4: "rbTreeWeight (rbTree s4) = rbTreeWeight (rbTree s0)" "rb_lock (rbTree s4) = rb_lock (rbTree s0)"
    "period (rbTree s4) = next_period (rbTree s0)" "rb_count (rbTree s4) = rb_count (rbTree s0) - 1"
    "min_vRuntime (rbTree s4) = m"
    using relinked_tree [OF s2(5)] by (simp_all add: s4_def s3_def s_def with_period_def)
  moreover have wt4: "wt s4 = wt s0" "vr s4 = vr s0"
    unfolding rq_frame_wt [OF fr4] rq_frame_vr [OF fr4] by (simp_all add: fun_eq_iff vr_def wt_def)
  moreover have pos: "1 \<le> rbTreeWeight (rbTree s0)" "0 \<le> next_period (rbTree s0) * wt s0 x"
  proof -
    have "0 \<le> sum_list (map (wt s0) xs)" using inv0 by (intro sum_list_nonneg) (auto simp: rq_inv_def)
    then show "1 \<le> rbTreeWeight (rbTree s0)" using inv0 by (auto simp: rq_inv_def)
    show "0 \<le> next_period (rbTree s0) * wt s0 x"
      using inv0 next_period_bound [OF inv0] by (auto simp: rq_inv_def)
  qed
  define s5 where "s5 = upd_proc x (\<lambda>q. q\<lparr>maximumExecutiontime := slice s0 x\<rparr>) s4"
  define s6 where "s6 = upd_tree (\<lambda>t. t\<lparr>rbTreeWeight := rbTreeWeight t - weightValue (procs s5 x)\<rparr>) s5"
  have "retrieve_locked s0 = Ok (s6, Some x)"
  proof -
    have "cdiv (period (rbTree s4) * weightValue (procs s4 x)) (rbTreeWeight (rbTree s4)) = Ok (slice s0 x)"
      using tr4 pos fun_cong [OF wt4(1), of x] by (simp add: slice_def wt_def)
    moreover have "\<not> emptyTree (rbTree s0)" "min_vRuntime (rbTree s) = Some x" "state (procs s x) = RUNNABLE"
      using inv0 inv run by (auto simp: emptyTree_def rq_inv_def s_def with_period_def)
    ultimately show ?thesis
      using s2(1) \<open>setMinimumVRuntimeproc RB_FUEL s3 (rb_root (rbTree s3)) = Ok m\<close>
      unfolding retrieve_locked_def with_period_eq s_def [symmetric] s6_def s5_def
      by (simp add: Let_def s3_def s4_def del: upd_tree_simps upd_proc_simps One_nat_def)
  qed
  moreover have fr6: "rq_frame ((procs s0)(x := (procs s0 x)\<lparr>maximumExecutiontime := slice s0 x\<rparr>)) s0 s6"
    unfolding s6_def s5_def
    by (intro rq_frame_tree rq_frame_proc [OF fr4]) (simp_all add: payload_slice)
  moreover have "rq_inv s6 xs"
  proof -
    have xin: "x \<notin> set xs" using rq_inv_dist [OF inv] by simp
    have wv: "vr s6 = vr s0" "wt s6 = wt s0"
      unfolding rq_frame_wt [OF fr6] rq_frame_vr [OF fr6] by (auto simp: vr_def wt_def fun_eq_iff)
    have rb: "rep s6 t2" "colors s6 = colors s2"
      using s2(2) by (simp_all add: s6_def s5_def s4_def s3_def rep_upd_tree rep_upd_payload colors_upd_proc)
    have lnk: "left (procs s6 i) = None \<and> right (procs s6 i) = None" if "i \<notin> set xs" for i
    proof (cases "i = x")
      case True
      then show ?thesis using s2(6,7) by (simp add: s6_def s5_def s4_def s3_def)
    next
      case False
      then have "procs s6 i = procs s i"
        using that relinked_out [OF s2(5)] size(4) by (simp add: s6_def s5_def s4_def s3_def)
      then show ?thesis using False that inv by (simp add: rq_inv_def)
    qed
    have tr6: "rbTreeWeight (rbTree s6) = rbTreeWeight (rbTree s0) - wt s0 x"
      "rb_count (rbTree s6) = rb_count (rbTree s0) - 1" "min_vRuntime (rbTree s6) = m"
      "period (rbTree s6) = next_period (rbTree s0)"
      using tr4 fun_cong [OF wt4(1), of x] by (simp_all add: s6_def s5_def wt_def)
    show ?thesis
      unfolding rq_inv_def wv tr6 m_def using rb s2(3,4) lnk inv0 next_period_bound [OF inv0]
      by (auto simp: rq_inv_def)
  qed
  ultimately show ?thesis using tr4(3) by (auto simp: s6_def s5_def)
qed

section \<open>Bounds\<close>

lemma rq_inv_weight_bounds:
  assumes "rq_inv s xs"
  shows "0 \<le> rbTreeWeight (rbTree s)" "rbTreeWeight (rbTree s) \<le> 64 * 819"
    "x \<in> set xs \<Longrightarrow> wt s x \<le> rbTreeWeight (rbTree s)"
proof -
  have w: "\<forall>i \<in> set xs. 1 \<le> wt s i \<and> wt s i \<le> 819" using assms by (auto simp: rq_inv_def)
  have eq: "rbTreeWeight (rbTree s) = sum_list (map (wt s) xs)" using assms by (auto simp: rq_inv_def)
  show "0 \<le> rbTreeWeight (rbTree s)" unfolding eq using w by (intro sum_list_nonneg) auto
  have "sum_list (map (wt s) xs) \<le> int (length xs) * 819" using w by (induction xs) auto
  also have "\<dots> \<le> 64 * 819" using rq_inv_length [OF assms] by (simp add: NPROC_def)
  finally show "rbTreeWeight (rbTree s) \<le> 64 * 819" unfolding eq .
  show "wt s x \<le> rbTreeWeight (rbTree s)" if "x \<in> set xs"
    unfolding eq using w that by (intro member_le_sum_list) auto
qed

lemma slice_product:
  assumes "rq_inv s xs" and "x \<in> set xs"
  shows "0 < rbTreeWeight (rbTree s)" "0 < wt s x" "next_period (rbTree s) * wt s x < 2 ^ 31"
proof -
  have w: "1 \<le> wt s x" "wt s x \<le> 819" using assms by (auto simp: rq_inv_def)
  then show "0 < wt s x" "0 < rbTreeWeight (rbTree s)" using rq_inv_weight_bounds(3) [OF assms] by auto
  have "next_period (rbTree s) * wt s x \<le> 128 * 819"
    using w next_period_bound [OF assms(1)] by (intro mult_mono) (auto simp: NPROC_def)
  then show "next_period (rbTree s) * wt s x < 2 ^ 31" by simp
qed

lemma slice_bounds:
  assumes "rq_inv s (x # xs)"
  shows "0 \<le> slice s x \<and> slice s x \<le> next_period (rbTree s)"
proof -
  have p: "0 < rbTreeWeight (rbTree s)" "0 < wt s x" "wt s x \<le> rbTreeWeight (rbTree s)" "0 \<le> next_period (rbTree s)"
    using slice_product [OF assms] rq_inv_weight_bounds(3) [OF assms] next_period_bound [OF assms] by auto
  have "next_period (rbTree s) * wt s x div rbTreeWeight (rbTree s) \<le>
      next_period (rbTree s) * rbTreeWeight (rbTree s) div rbTreeWeight (rbTree s)"
    using p by (intro zdiv_mono1 mult_left_mono) auto
  then show ?thesis using p by (simp add: slice_def pos_imp_zdiv_nonneg_iff)
qed

lemma rq_inv_min_depth:
  assumes "rq_inv s xs"
  shows "setMinimumVRuntimeproc 13 s (rb_root (rbTree s)) = Ok (min_vRuntime (rbTree s))"
proof -
  obtain t where t: "rep s t" "inorder t = xs" "rbtree_inv (colors s) t" using assms by (auto simp: rq_inv_def)
  have "nodes t \<le> NPROC" using rq_inv_length [OF assms] t(2) by (simp flip: length_inorder)
  then have "height t < 13" using height_NPROC [OF t(3)] by simp
  then show ?thesis
    using setMinimum_tree [of s None t 13] t(1,2) assms by (auto simp: rep_def rq_inv_def)
qed

section \<open>The operations with their lock\<close>

text \<open>
  \<open>rq_env c G s s'\<close>: after a call by CPU \<open>c\<close> the queue lock is as before, the CPU's interrupt state is
  restored, and every process is \<open>G i\<close> up to links and colour.
\<close>

definition rq_env :: "nat \<Rightarrow> (nat \<Rightarrow> proc) \<Rightarrow> 'a rq_state_scheme \<Rightarrow> 'a rq_state_scheme \<Rightarrow> bool" where
  "rq_env c G s s' \<longleftrightarrow>
     (\<exists>P T. s' = after_lock c (s\<lparr>procs := P, rbTree := T\<rparr>) \<and> rb_lock T = rb_lock (rbTree s)) \<and>
     (\<forall>i. payload (procs s' i) = payload (G i))"

definition rq_locked :: "nat \<Rightarrow> 'a rq_state_scheme \<Rightarrow> 'a rq_state_scheme" where
  "rq_locked c s = upd_tree (\<lambda>t. t\<lparr>rb_lock := (rb_lock t)\<lparr>locked := 1, lk_cpu := Some c\<rparr>\<rparr>) (push_off c s)"

lemma rq_acquire_free: "lock_free (rb_lock (rbTree s)) \<Longrightarrow> rq_acquire c s = Ok (rq_locked c s)"
  by (simp add: rq_acquire_def acquire_free rq_locked_def upd_tree_def push_off_upd)

lemma rq_locked_sel [simp]:
  "procs (rq_locked c s) = procs s" "vr (rq_locked c s) = vr s" "wt (rq_locked c s) = wt s"
  "rb_root (rbTree (rq_locked c s)) = rb_root (rbTree s)"
  "rb_count (rbTree (rq_locked c s)) = rb_count (rbTree s)"
  "rbTreeWeight (rbTree (rq_locked c s)) = rbTreeWeight (rbTree s)"
  "min_vRuntime (rbTree (rq_locked c s)) = min_vRuntime (rbTree s)"
  "period (rbTree (rq_locked c s)) = period (rbTree s)"
  "next_period (rbTree (rq_locked c s)) = next_period (rbTree s)"
  by (simp_all add: rq_locked_def push_off_upd vr_def [abs_def] wt_def [abs_def] next_period_def)

lemma rq_inv_same:
  assumes "procs s' = procs s" and "rbTree s' = (rbTree s)\<lparr>rb_lock := lk\<rparr>"
  shows "rq_inv s' xs = rq_inv s xs"
  using assms by (simp add: rq_inv_def rep_def vr_def [abs_def] wt_def [abs_def] colors_def [abs_def])

lemma rq_locked_inv [simp]: "rq_inv (rq_locked c s) xs = rq_inv s xs"
  by (rule rq_inv_same) (auto simp: rq_locked_def push_off_upd)

lemma push_off_rq [simp]: "procs (push_off c s) = procs s" "rbTree (push_off c s) = rbTree s"
  by (simp_all add: push_off_upd)

lemma rq_release_frame:
  assumes "lock_free (rb_lock (rbTree s))" and "cpu_ok (cpus s c)" and "rq_frame G (rq_locked c s) s'"
  shows "\<exists>s''. rq_release c s' = Ok s'' \<and> rq_env c G s s'' \<and> procs s'' = procs s' \<and>
    rbTree s'' = (rbTree s')\<lparr>rb_lock := rb_lock (rbTree s)\<rparr>"
proof -
  obtain P T where s': "s' = (rq_locked c s)\<lparr>procs := P, rbTree := T\<rparr>"
    "rb_lock T = (rb_lock (rbTree s))\<lparr>locked := 1, lk_cpu := Some c\<rparr>" "\<forall>i. payload (procs s' i) = payload (G i)"
    using assms(3) unfolding rq_frame_def by (auto simp: rq_locked_def push_off_upd)
  define u where "u = s\<lparr>procs := P, rbTree := T\<rparr>"
  have "s' = push_off c u" by (simp add: s'(1) u_def rq_locked_def push_off_upd upd_tree_def)
  then have "release c s' (rb_lock (rbTree s')) = Ok (after_lock c u, rb_lock (rbTree s))"
    using release_held [of u c "rb_lock (rbTree s)"] assms(1,2) s'(1,2) by (simp add: u_def)
  then have "rq_release c s' = Ok (after_lock c (s\<lparr>procs := P, rbTree := T\<lparr>rb_lock := rb_lock (rbTree s)\<rparr>\<rparr>))"
    by (simp add: rq_release_def u_def after_lock_def upd_cpu_def upd_tree_def)
  moreover have "rq_env c G s (after_lock c (s\<lparr>procs := P, rbTree := T\<lparr>rb_lock := rb_lock (rbTree s)\<rparr>\<rparr>))"
    unfolding rq_env_def
    by (intro conjI exI [of _ P] exI [of _ "T\<lparr>rb_lock := rb_lock (rbTree s)\<rparr>"])
       (use s' in \<open>simp_all add: after_lock_def upd_cpu_def\<close>)
  ultimately show ?thesis using s' by (simp add: after_lock_def upd_cpu_def)
qed

definition rq_ok :: "nat \<Rightarrow> 'a rq_state_scheme \<Rightarrow> nat list \<Rightarrow> bool" where
  "rq_ok c s xs \<longleftrightarrow> rq_inv s xs \<and> lock_free (rb_lock (rbTree s)) \<and> cpu_ok (cpus s c)"

lemma rq_env_ok:
  assumes "rq_env c G s s'" and "lock_free (rb_lock (rbTree s))" and "cpu_ok (cpus s c)"
  shows "lock_free (rb_lock (rbTree s'))" and "cpu_ok (cpus s' c)"
    and "\<forall>d. intr (cpus s' d) = intr (cpus s d) \<and> noff (cpus s' d) = noff (cpus s d)"
    and "\<forall>d. d \<noteq> c \<longrightarrow> cpus s' d = cpus s d"
  using assms by (auto simp: rq_env_def after_lock_cpu) (simp_all add: after_lock_def cpu_defs)

lemma rq_env_fields:
  assumes "rq_env c G s s'"
  shows "vr s' i = virtualRuntime (G i)" "wt s' i = weightValue (G i)" "state (procs s' i) = state (G i)"
  using assms payload_fields unfolding rq_env_def vr_def wt_def by blast+

lemma insertProcess_ok:
  assumes "rq_ok c s xs" and "p \<notin> set xs" and "p < NPROC"
  shows "\<exists>s'. insertProcess c s p = Ok s' \<and> rq_ok c s' (enq (vr s) xs p) \<and>
    rq_env c ((procs s)(p := with_weight (procs s p))) s s' \<and> period (rbTree s') = period (rbTree s)"
proof -
  have ok: "rq_inv s xs" "lock_free (rb_lock (rbTree s))" "cpu_ok (cpus s c)" using assms(1) by (auto simp: rq_ok_def)
  have inv: "rq_inv (rq_locked c s) xs" using ok(1) by simp
  obtain s1 where s1: "insert_locked (rq_locked c s) p = Ok s1" "rq_inv s1 (enq (vr s) xs p)"
    "rq_frame ((procs s)(p := with_weight (procs s p))) (rq_locked c s) s1"
    "period (rbTree s1) = period (rbTree s)"
    using insert_locked_correct [OF inv assms(2,3)] by auto
  obtain s2 where s2: "rq_release c s1 = Ok s2" "rq_env c ((procs s)(p := with_weight (procs s p))) s s2"
    "procs s2 = procs s1" "rbTree s2 = (rbTree s1)\<lparr>rb_lock := rb_lock (rbTree s)\<rparr>"
    using rq_release_frame [OF ok(2,3) s1(3)] by blast
  have "insertProcess c s p = Ok s2"
    using s1(1) s2(1) by (simp add: insertProcess_def rq_acquire_free [OF ok(2)])
  moreover have "rq_ok c s2 (enq (vr s) xs p)"
    using rq_inv_same [OF s2(3,4)] s1(2) rq_env_ok [OF s2(2) ok(2,3)] by (simp add: rq_ok_def)
  ultimately show ?thesis using s2 s1(4) by auto
qed

lemma retrieveProcess_locked:
  assumes ok: "lock_free (rb_lock (rbTree s))" "cpu_ok (cpus s c)"
    and run: "retrieve_locked (rq_locked c s) = Ok (s1, x)" "rq_frame G (rq_locked c s) s1"
    and inv: "rq_inv s1 xs"
  shows "\<exists>s'. retrieveProcess c s = Ok (s', x) \<and> rq_ok c s' xs \<and> rq_env c G s s' \<and>
    period (rbTree s') = period (rbTree s1)"
proof -
  obtain s2 where s2: "rq_release c s1 = Ok s2" "rq_env c G s s2"
    "procs s2 = procs s1" "rbTree s2 = (rbTree s1)\<lparr>rb_lock := rb_lock (rbTree s)\<rparr>"
    using rq_release_frame [OF ok run(2)] by blast
  have "retrieveProcess c s = Ok (s2, x)"
    using run(1) s2(1) by (simp add: retrieveProcess_def rq_acquire_free [OF ok(1)])
  moreover have "rq_ok c s2 xs"
    using rq_inv_same [OF s2(3,4)] inv rq_env_ok [OF s2(2) ok] by (simp add: rq_ok_def)
  ultimately show ?thesis using s2 by auto
qed

lemma slice_locked [simp]: "slice (rq_locked c s) = slice s"
  by (simp add: fun_eq_iff slice_def)

lemma retrieveProcess_ok:
  assumes "rq_ok c s (x # xs)" and "state (procs s x) = RUNNABLE"
  shows "\<exists>s'. retrieveProcess c s = Ok (s', Some x) \<and> rq_ok c s' xs \<and>
    rq_env c ((procs s)(x := (procs s x)\<lparr>maximumExecutiontime := slice s x\<rparr>)) s s' \<and>
    period (rbTree s') = next_period (rbTree s)"
  using retrieve_runnable [of "rq_locked c s" x xs] assms retrieveProcess_locked [of s c]
  by (fastforce simp: rq_ok_def)

lemma retrieveProcess_blocked:
  assumes "rq_ok c s (x # xs)" and "state (procs s x) \<noteq> RUNNABLE"
  shows "\<exists>s'. retrieveProcess c s = Ok (s', None) \<and> rq_ok c s' (x # xs) \<and> rq_env c (procs s) s s'"
  using retrieve_not_runnable [of "rq_locked c s" x xs] assms retrieveProcess_locked [of s c]
    with_period_inv [of "rq_locked c s" "x # xs"] with_period_frame [of "rq_locked c s"]
  by (fastforce simp: rq_ok_def)

lemma retrieveProcess_empty:
  assumes "rq_ok c s []"
  shows "\<exists>s'. retrieveProcess c s = Ok (s', None) \<and> rq_ok c s' [] \<and> rq_env c (procs s) s s'"
  using retrieve_empty [of "rq_locked c s"] assms retrieveProcess_locked [of s c]
    rq_frame_refl [of "rq_locked c s"]
  by (fastforce simp: rq_ok_def)

section \<open>The interface the scheduler relies on\<close>

text \<open>
  A queue ordered by a key, first in first out among equal keys. Only a process that is ready
  leaves it.
\<close>

locale key_queue =
  fixes inv :: "'s \<Rightarrow> 'k list \<Rightarrow> bool" and key :: "'s \<Rightarrow> 'k \<Rightarrow> int" and ready :: "'s \<Rightarrow> 'k \<Rightarrow> bool"
    and universe :: "'k set"
    and put :: "'s \<Rightarrow> 'k \<Rightarrow> 's res" and take_min :: "'s \<Rightarrow> ('s \<times> 'k option) res"
  assumes put_law: "inv s xs \<Longrightarrow> p \<notin> set xs \<Longrightarrow> p \<in> universe \<Longrightarrow>
      \<exists>s'. put s p = Ok s' \<and> inv s' (enq (key s) xs p) \<and> key s' = key s \<and> ready s' = ready s"
    and take_law: "inv s (x # xs) \<Longrightarrow> ready s x \<Longrightarrow>
      \<exists>s'. take_min s = Ok (s', Some x) \<and> inv s' xs \<and> key s' = key s \<and> ready s' = ready s"
    and take_empty_law: "inv s [] \<Longrightarrow> \<exists>s'. take_min s = Ok (s', None) \<and> inv s' []"
begin

lemma put_all:
  assumes "inv s xs" and "distinct ps" and "set ps \<subseteq> universe" and "set ps \<inter> set xs = {}"
  shows "\<exists>s'. put_list put s ps = Ok s' \<and> inv s' (foldl (enq (key s)) xs ps) \<and> key s' = key s \<and> ready s' = ready s"
  using assms
proof (induction ps arbitrary: s xs)
  case (Cons p ps)
  then obtain s1 where s1: "put s p = Ok s1" "inv s1 (enq (key s) xs p)" "key s1 = key s" "ready s1 = ready s"
    using put_law [of s xs p] by auto
  then show ?case using Cons.IH [OF s1(2)] Cons.prems by auto
qed simp

lemma take_all:
  assumes "inv s xs" and "\<forall>x \<in> set xs. ready s x"
  shows "\<exists>s'. take_list take_min s (length xs) = Ok (s', xs) \<and> inv s' []"
  using assms
proof (induction xs arbitrary: s)
  case (Cons x xs)
  then obtain s1 where "take_min s = Ok (s1, Some x)" "inv s1 xs" "ready s1 = ready s"
    using take_law [of s x xs] by auto
  then show ?case using Cons.IH [of s1] Cons.prems by auto
qed simp

lemma put_then_take:
  assumes "inv s []" and "distinct ps" and "set ps \<subseteq> universe" and "\<forall>p \<in> set ps. ready s p"
  shows "\<exists>s1 s2. put_list put s ps = Ok s1 \<and>
    take_list take_min s1 (length ps) = Ok (s2, sort_key (key s) ps) \<and> inv s2 []"
proof -
  obtain s1 where s1: "put_list put s ps = Ok s1" "inv s1 (sort_key (key s) ps)" "ready s1 = ready s"
    using put_all [OF assms(1-3)] by (auto simp: foldl_enq)
  then show ?thesis using take_all [OF s1(2)] assms(4) by (auto simp: s1)
qed

end

interpretation rq: key_queue "rq_ok c" vr "\<lambda>s p. state (procs s p) = RUNNABLE" "{..<NPROC}"
  "insertProcess c" "retrieveProcess c" for c
proof (unfold_locales, goal_cases)
  case (1 s xs p)
  then obtain s' where s': "insertProcess c s p = Ok s'" "rq_ok c s' (enq (vr s) xs p)"
    "rq_env c ((procs s)(p := with_weight (procs s p))) s s'" using insertProcess_ok [of c s xs p] by auto
  then show ?case using rq_env_fields [OF s'(3)] by (auto simp: with_weight_def vr_def fun_eq_iff)
next
  case (2 s x xs)
  then obtain s' where s': "retrieveProcess c s = Ok (s', Some x)" "rq_ok c s' xs"
    "rq_env c ((procs s)(x := (procs s x)\<lparr>maximumExecutiontime := slice s x\<rparr>)) s s'"
    using retrieveProcess_ok [of c s x xs] by auto
  then show ?case using rq_env_fields [OF s'(3)] by (auto simp: vr_def fun_eq_iff)
next
  case (3 s)
  then show ?case using retrieveProcess_empty [of c s] by blast
qed

section \<open>Properties\<close>

text \<open>
  C4. \<^verbatim>\<open>insertProcess\<close> on a well-formed run queue holding the processes \<open>xs\<close>, for a process that is
  not queued: it returns (no null dereference, no exhausted recursion, no silent drop at the capacity
  check), and afterwards the queue is again a red-black tree ordered by virtual runtime with correct
  count, total weight and cached minimum, and holds \<open>xs\<close> with the new process placed after every
  process of equal or smaller virtual runtime. The queue lock is free again, interrupts are as before,
  and no field of any process other than links, colour and the new weight changes.
\<close>

theorem insertProcess_refines:
  assumes "rq_ok c s xs" and "p \<notin> set xs" and "p < NPROC"
  shows "\<exists>s'. insertProcess c s p = Ok s' \<and> rq_ok c s' (enq (vr s) xs p) \<and>
    rq_env c ((procs s)(p := (procs s p)\<lparr>weightValue := calculateWeight (niceValue (procs s p))\<rparr>)) s s'"
  using insertProcess_ok [OF assms] unfolding with_weight_def by blast

text \<open>
  C5. \<^verbatim>\<open>retrieveProcess\<close> on a well-formed run queue: an empty queue gives the null pointer; if the
  process of least virtual runtime is not RUNNABLE it stays queued and null is returned; otherwise that
  process is removed and returned, the tree invariant holds for the remaining processes, its links are
  cleared, and its time slice is the period scaled by its share of the total weight, between 0 and the
  period. On every path the lock is released and the interrupt state restored.
\<close>

theorem retrieveProcess_refines:
  assumes "rq_ok c s xs"
  shows "case xs of
      [] \<Rightarrow> \<exists>s'. retrieveProcess c s = Ok (s', None) \<and> rq_ok c s' [] \<and> rq_env c (procs s) s s'
    | x # ys \<Rightarrow>
        if state (procs s x) \<noteq> RUNNABLE
        then \<exists>s'. retrieveProcess c s = Ok (s', None) \<and> rq_ok c s' (x # ys) \<and> rq_env c (procs s) s s'
        else \<exists>s' sl. retrieveProcess c s = Ok (s', Some x) \<and> rq_ok c s' ys \<and>
          Min (vr s ` set xs) = vr s x \<and>
          sl = (next_period (rbTree s) * wt s x) div rbTreeWeight (rbTree s) \<and>
          0 \<le> sl \<and> sl \<le> next_period (rbTree s) \<and>
          rq_env c ((procs s)(x := (procs s x)\<lparr>maximumExecutiontime := sl\<rparr>)) s s'"
proof (cases xs)
  case Nil
  then show ?thesis using retrieveProcess_empty [of c s] assms by simp
next
  case (Cons x ys)
  have inv: "rq_inv s (x # ys)" using assms Cons by (simp add: rq_ok_def)
  have "Min (vr s ` set xs) = vr s x"
    using inv Cons by (intro Min_eqI) (auto simp: rq_inv_def)
  moreover have "0 \<le> slice s x \<and> slice s x \<le> next_period (rbTree s)" by (rule slice_bounds [OF inv])
  ultimately show ?thesis
    using retrieveProcess_ok [of c s x ys] retrieveProcess_blocked [of c s x ys] assms Cons
    by (auto simp: slice_def)
qed

text \<open>
  C6. Scheduling order: queue any processes in any order on an empty run queue and let the scheduler
  take them while they are all RUNNABLE; it gets them sorted by virtual runtime, and in the order they
  were queued where virtual runtimes are equal.
\<close>

theorem schedule_order:
  assumes "rq_ok c s []" and "distinct ps" and "set ps \<subseteq> {..<NPROC}"
    and "\<forall>p \<in> set ps. state (procs s p) = RUNNABLE"
  shows "\<exists>s1 s2. put_list (insertProcess c) s ps = Ok s1 \<and>
    take_list (retrieveProcess c) s1 (length ps) = Ok (s2, sort_key (vr s) ps) \<and> rq_ok c s2 []"
  by (rule rq.put_then_take [OF assms])


section \<open>Witnesses\<close>

definition demo_rq :: rq_state where
  "demo_rq = \<lparr>cpus = (\<lambda>_. zero_cpu\<lparr>intr := True\<rparr>), mem = (\<lambda>_. 0), kmem_lock = zero_lock, freelist = 0, kend = KERNBASE,
     rbTree = rbinit zero_tree ''runnableTasks'',
     procs = (\<lambda>i. zero_proc\<lparr>state := RUNNABLE, virtualRuntime := (if i < 4 then [3, 1, 3, 2] ! i else 0)\<rparr>)\<rparr>"

lemma demo_rq_ok: "rq_ok 0 demo_rq []"
  by (simp add: rq_ok_def rq_inv_def demo_rq_def rbinit_def zero_tree_def zero_lock_def zero_cpu_def
      zero_proc_def initlock_def lock_free_def cpu_ok_def rep_def latency_def NPROC_def
      exI [of _ Leaf] rbtree_inv_def)

lemma demo_rq_one: "\<exists>s :: rq_state. rq_ok 0 s [2] \<and> state (procs s 2) = RUNNABLE"
proof -
  obtain s' where s': "rq_ok 0 s' (enq (vr demo_rq) [] 2)"
    "rq_env 0 ((procs demo_rq)(2 := with_weight (procs demo_rq 2))) demo_rq s'"
    using insertProcess_ok [OF demo_rq_ok, of 2] by (auto simp: NPROC_def)
  have "state (procs s' 2) = RUNNABLE"
    using rq_env_fields(3) [OF s'(2), of 2] by (simp add: with_weight_def demo_rq_def)
  then show ?thesis using s'(1) by (auto simp: enq_def)
qed

theorem insertProcess_refines_witness:
  "rq_ok 0 demo_rq [] \<and> (\<exists>s'. insertProcess 0 demo_rq 2 = Ok s' \<and> rq_ok 0 s' [2])"
proof -
  have "\<exists>s'. insertProcess 0 demo_rq 2 = Ok s' \<and> rq_ok 0 s' (enq (vr demo_rq) [] 2)"
    using insertProcess_refines [OF demo_rq_ok, of 2] by (auto simp: NPROC_def)
  then show ?thesis using demo_rq_ok by (simp add: enq_def)
qed

theorem retrieveProcess_refines_witness:
  "\<exists>s s' :: rq_state. rq_ok 0 s [2] \<and> retrieveProcess 0 s = Ok (s', Some 2) \<and> rq_ok 0 s' []"
proof -
  obtain s :: rq_state where s: "rq_ok 0 s [2]" "state (procs s 2) = RUNNABLE" using demo_rq_one by blast
  with retrieveProcess_refines [OF s(1)] show ?thesis by auto
qed

theorem schedule_order_witness:
  "\<exists>s1 s2. put_list (insertProcess 0) demo_rq [0, 1, 2, 3] = Ok s1 \<and>
    take_list (retrieveProcess 0) s1 4 = Ok (s2, [1, 3, 0, 2]) \<and> rq_ok 0 s2 []"
proof -
  have "sort_key (vr demo_rq) [0, 1, 2, 3] = [1, 3, 0, 2]"
    by (simp add: vr_def demo_rq_def)
  moreover have "\<exists>s1 s2. put_list (insertProcess 0) demo_rq [0, 1, 2, 3] = Ok s1 \<and>
    take_list (retrieveProcess 0) s1 (length [0, 1, 2, 3 :: nat]) =
      Ok (s2, sort_key (vr demo_rq) [0, 1, 2, 3]) \<and> rq_ok 0 s2 []"
    by (rule schedule_order [OF demo_rq_ok]) (auto simp: NPROC_def demo_rq_def)
  moreover have "length [0, 1, 2, 3 :: nat] = 4" by simp
  ultimately show ?thesis by (simp only:)
qed


end
