(* ===== verification/Vm.thy ===== *)
theory Vm
  imports Kalloc
begin

text \<open>
  \<^verbatim>\<open>kernel/vm.c\<close>: Sv39 page tables in physical memory, user address spaces, and copies between
  user and kernel. Physical memory is mapped at its own address in the kernel, so a physical address
  is also a kernel pointer; a null pointer is 0.
\<close>

section \<open>walk and mappages\<close>

definition pte_addr :: "uint64 \<Rightarrow> uint64 \<Rightarrow> uint64" where
  "pte_addr pagetable i = pagetable + 8 * i"

text \<open>The body of the loop of \<^verbatim>\<open>walk\<close>: the next table, or \<open>None\<close> for the early \<^verbatim>\<open>return 0\<close>.\<close>

definition walk_step :: "nat \<Rightarrow> 'a kstate_scheme \<Rightarrow> uint64 \<Rightarrow> uint64 \<Rightarrow> bool \<Rightarrow> nat \<Rightarrow>
    ('a kstate_scheme \<times> uint64 option) res" where
  "walk_step c s pagetable va alloc level =
     (let pte = pte_addr pagetable (PX level va)
      in if load64 (mem s) pte AND PTE_V \<noteq> 0 then Ok (s, Some (PTE2PA (load64 (mem s) pte)))
         else if \<not> alloc then Ok (s, None)
         else rbind (kalloc c s) (\<lambda>(s1, pt).
           if pt = 0 then Ok (s1, None)
           else let s2 = s1\<lparr>mem := memset (mem s1) pt 0 (ucast PGSIZE)\<rparr>
                in Ok (s2\<lparr>mem := store64 (mem s2) pte (PA2PTE pt OR PTE_V)\<rparr>, Some pt)))"

primrec walk_loop :: "nat \<Rightarrow> nat \<Rightarrow> 'a kstate_scheme \<Rightarrow> uint64 \<Rightarrow> uint64 \<Rightarrow> bool \<Rightarrow> ('a kstate_scheme \<times> uint64) res" where
  "walk_loop 0 c s pagetable va alloc = Ok (s, pte_addr pagetable (PX 0 va))"
| "walk_loop (Suc l) c s pagetable va alloc =
     rbind (walk_step c s pagetable va alloc (Suc l)) (\<lambda>(s1, pt).
       case pt of None \<Rightarrow> Ok (s1, 0) | Some pt1 \<Rightarrow> walk_loop l c s1 pt1 va alloc)"

definition walk :: "nat \<Rightarrow> 'a kstate_scheme \<Rightarrow> uint64 \<Rightarrow> uint64 \<Rightarrow> bool \<Rightarrow> ('a kstate_scheme \<times> uint64) res" where
  "walk c s pagetable va alloc =
     (if va \<ge> MAXVA then Panic ''walk'' else walk_loop 2 c s pagetable va alloc)"

definition walkaddr :: "nat \<Rightarrow> 'a kstate_scheme \<Rightarrow> uint64 \<Rightarrow> uint64 \<Rightarrow> uint64 res" where
  "walkaddr c s pagetable va =
     (if va \<ge> MAXVA then Ok 0
      else rbind (walk c s pagetable va False) (\<lambda>(s1, pte).
        if pte = 0 then Ok 0
        else if load64 (mem s1) pte AND PTE_V = 0 then Ok 0
        else if load64 (mem s1) pte AND PTE_U = 0 then Ok 0
        else Ok (PTE2PA (load64 (mem s1) pte))))"

fun mappages_loop :: "nat \<Rightarrow> nat \<Rightarrow> 'a kstate_scheme \<Rightarrow> uint64 \<Rightarrow> uint64 \<Rightarrow> uint64 \<Rightarrow> uint64 \<Rightarrow> uint64 \<Rightarrow>
    ('a kstate_scheme \<times> int) res" where
  "mappages_loop 0 c s pagetable a lst pa perm = Hang"
| "mappages_loop (Suc n) c s pagetable a lst pa perm =
     rbind (walk c s pagetable a True) (\<lambda>(s1, pte).
       if pte = 0 then Ok (s1, -1)
       else if load64 (mem s1) pte AND PTE_V \<noteq> 0 then Panic ''mappages: remap''
       else let s2 = s1\<lparr>mem := store64 (mem s1) pte (PA2PTE pa OR perm OR PTE_V)\<rparr>
            in if a = lst then Ok (s2, 0)
               else mappages_loop n c s2 pagetable (a + PGSIZE) lst (pa + PGSIZE) perm)"

text \<open>Fuel: one iteration per page from the first to the last.\<close>

definition mappages :: "nat \<Rightarrow> 'a kstate_scheme \<Rightarrow> uint64 \<Rightarrow> uint64 \<Rightarrow> uint64 \<Rightarrow> uint64 \<Rightarrow> uint64 \<Rightarrow>
    ('a kstate_scheme \<times> int) res" where
  "mappages c s pagetable va sz pa perm =
     (if sz = 0 then Panic ''mappages: size''
      else let a = PGROUNDDOWN va; lst = PGROUNDDOWN (va + sz - 1)
           in mappages_loop (Suc (off lst a div 4096)) c s pagetable a lst pa perm)"

definition kvmmap :: "nat \<Rightarrow> 'a kstate_scheme \<Rightarrow> uint64 \<Rightarrow> uint64 \<Rightarrow> uint64 \<Rightarrow> uint64 \<Rightarrow> uint64 \<Rightarrow> 'a kstate_scheme res" where
  "kvmmap c s kpgtbl va pa sz perm =
     rbind (mappages c s kpgtbl va sz pa perm) (\<lambda>(s1, r). if r \<noteq> 0 then Panic ''kvmmap'' else Ok s1)"

section \<open>User address spaces\<close>

fun uvmunmap_loop :: "nat \<Rightarrow> nat \<Rightarrow> 'a kstate_scheme \<Rightarrow> uint64 \<Rightarrow> uint64 \<Rightarrow> uint64 \<Rightarrow> bool \<Rightarrow> 'a kstate_scheme res" where
  "uvmunmap_loop 0 c s pagetable a stop do_free = Hang"
| "uvmunmap_loop (Suc n) c s pagetable a stop do_free =
     (if a < stop then
        rbind (walk c s pagetable a False) (\<lambda>(s1, pte).
          if pte = 0 then Panic ''uvmunmap: walk''
          else if load64 (mem s1) pte AND PTE_V = 0 then Panic ''uvmunmap: not mapped''
          else if PTE_FLAGS (load64 (mem s1) pte) = PTE_V then Panic ''uvmunmap: not a leaf''
          else rbind (if do_free then kfree c s1 (PTE2PA (load64 (mem s1) pte)) else Ok s1) (\<lambda>s2.
            uvmunmap_loop n c (s2\<lparr>mem := store64 (mem s2) pte 0\<rparr>) pagetable (a + PGSIZE) stop do_free))
      else Ok s)"

definition uvmunmap :: "nat \<Rightarrow> 'a kstate_scheme \<Rightarrow> uint64 \<Rightarrow> uint64 \<Rightarrow> uint64 \<Rightarrow> bool \<Rightarrow> 'a kstate_scheme res" where
  "uvmunmap c s pagetable va npages do_free =
     (if va mod PGSIZE \<noteq> 0 then Panic ''uvmunmap: not aligned''
      else uvmunmap_loop (Suc (unat npages)) c s pagetable va (va + npages * PGSIZE) do_free)"

definition uvmcreate :: "nat \<Rightarrow> 'a kstate_scheme \<Rightarrow> ('a kstate_scheme \<times> uint64) res" where
  "uvmcreate c s =
     rbind (kalloc c s) (\<lambda>(s1, pagetable).
       if pagetable = 0 then Ok (s1, 0)
       else Ok (s1\<lparr>mem := memset (mem s1) pagetable 0 (ucast PGSIZE)\<rparr>, pagetable))"

definition uvmfirst :: "nat \<Rightarrow> 'a kstate_scheme \<Rightarrow> uint64 \<Rightarrow> uint64 \<Rightarrow> uint \<Rightarrow> 'a kstate_scheme res" where
  "uvmfirst c s pagetable src sz =
     (if ucast sz \<ge> PGSIZE then Panic ''uvmfirst: more than a page''
      else rbind (kalloc c s) (\<lambda>(s1, p).
        let s2 = s1\<lparr>mem := memset (mem s1) p 0 (ucast PGSIZE)\<rparr>
        in rbind (mappages c s2 pagetable 0 PGSIZE p (PTE_W OR PTE_R OR PTE_X OR PTE_U)) (\<lambda>(s3, r).
           Ok (s3\<lparr>mem := memmove (mem s3) p src sz\<rparr>))))"

definition uvmdealloc :: "nat \<Rightarrow> 'a kstate_scheme \<Rightarrow> uint64 \<Rightarrow> uint64 \<Rightarrow> uint64 \<Rightarrow> ('a kstate_scheme \<times> uint64) res" where
  "uvmdealloc c s pagetable oldsz newsz =
     (if newsz \<ge> oldsz then Ok (s, oldsz)
      else rbind (if PGROUNDUP newsz < PGROUNDUP oldsz
                  then let npages = scast (ucast ((PGROUNDUP oldsz - PGROUNDUP newsz) div PGSIZE) :: uint)
                       in uvmunmap c s pagetable (PGROUNDUP newsz) npages True
                  else Ok s) (\<lambda>s1. Ok (s1, newsz)))"

fun uvmalloc_loop :: "nat \<Rightarrow> nat \<Rightarrow> 'a kstate_scheme \<Rightarrow> uint64 \<Rightarrow> uint64 \<Rightarrow> uint64 \<Rightarrow> uint64 \<Rightarrow> uint64 \<Rightarrow>
    ('a kstate_scheme \<times> uint64) res" where
  "uvmalloc_loop 0 c s pagetable a oldsz newsz xperm = Hang"
| "uvmalloc_loop (Suc n) c s pagetable a oldsz newsz xperm =
     (if a < newsz then
        rbind (kalloc c s) (\<lambda>(s1, p).
          if p = 0 then
            rbind (uvmdealloc c s1 pagetable a oldsz) (\<lambda>(s2, _). Ok (s2, 0))
          else
            let s2 = s1\<lparr>mem := memset (mem s1) p 0 (ucast PGSIZE)\<rparr>
            in rbind (mappages c s2 pagetable a PGSIZE p (PTE_R OR PTE_U OR xperm)) (\<lambda>(s3, r).
               if r \<noteq> 0 then
                 rbind (kfree c s3 p) (\<lambda>s4.
                 rbind (uvmdealloc c s4 pagetable a oldsz) (\<lambda>(s5, _). Ok (s5, 0)))
               else uvmalloc_loop n c s3 pagetable (a + PGSIZE) oldsz newsz xperm))
      else Ok (s, newsz))"

definition uvmalloc :: "nat \<Rightarrow> 'a kstate_scheme \<Rightarrow> uint64 \<Rightarrow> uint64 \<Rightarrow> uint64 \<Rightarrow> uint64 \<Rightarrow> ('a kstate_scheme \<times> uint64) res" where
  "uvmalloc c s pagetable oldsz newsz xperm =
     (if newsz < oldsz then Ok (s, oldsz)
      else let oldsz1 = PGROUNDUP oldsz
           in uvmalloc_loop (Suc (Suc (off newsz oldsz1 div 4096))) c s pagetable oldsz1 oldsz1 newsz xperm)"

fun freewalk_loop :: "('s \<Rightarrow> uint64 \<Rightarrow> 's res) \<Rightarrow> ('s \<Rightarrow> memory) \<Rightarrow> (memory \<Rightarrow> 's \<Rightarrow> 's) \<Rightarrow> 's \<Rightarrow> uint64 \<Rightarrow> nat \<Rightarrow> nat \<Rightarrow> 's res" where
  "freewalk_loop fw get put s pagetable i 0 = Ok s"
| "freewalk_loop fw get put s pagetable i (Suc k) =
     (let pte = load64 (get s) (pte_addr pagetable (of_nat i))
      in if pte AND PTE_V \<noteq> 0 \<and> pte AND (PTE_R OR PTE_W OR PTE_X) = 0 then
           rbind (fw s (PTE2PA pte)) (\<lambda>s1.
             freewalk_loop fw get put
               (put (store64 (get s1) (pte_addr pagetable (of_nat i)) 0) s1) pagetable (Suc i) k)
         else if pte AND PTE_V \<noteq> 0 then Panic ''freewalk: leaf''
         else freewalk_loop fw get put s pagetable (Suc i) k)"

text \<open>The recursion depth is the fuel: 3 for the three levels of a page table.\<close>

primrec freewalk_depth :: "nat \<Rightarrow> nat \<Rightarrow> 'a kstate_scheme \<Rightarrow> uint64 \<Rightarrow> 'a kstate_scheme res" where
  "freewalk_depth 0 c s pagetable = Hang"
| "freewalk_depth (Suc d) c s pagetable =
     rbind (freewalk_loop (freewalk_depth d c) mem (\<lambda>m s. s\<lparr>mem := m\<rparr>) s pagetable 0 512) (\<lambda>s1.
       kfree c s1 pagetable)"

definition freewalk :: "nat \<Rightarrow> 'a kstate_scheme \<Rightarrow> uint64 \<Rightarrow> 'a kstate_scheme res" where
  "freewalk c s pagetable = freewalk_depth 3 c s pagetable"

definition uvmfree :: "nat \<Rightarrow> 'a kstate_scheme \<Rightarrow> uint64 \<Rightarrow> uint64 \<Rightarrow> 'a kstate_scheme res" where
  "uvmfree c s pagetable sz =
     rbind (if sz > 0 then uvmunmap c s pagetable 0 (PGROUNDUP sz div PGSIZE) True else Ok s) (\<lambda>s1.
       freewalk c s1 pagetable)"

fun uvmcopy_loop :: "nat \<Rightarrow> nat \<Rightarrow> 'a kstate_scheme \<Rightarrow> uint64 \<Rightarrow> uint64 \<Rightarrow> uint64 \<Rightarrow> uint64 \<Rightarrow>
    ('a kstate_scheme \<times> int) res" where
  "uvmcopy_loop 0 c s old new i sz = Hang"
| "uvmcopy_loop (Suc n) c s old new i sz =
     (if i < sz then
        rbind (walk c s old i False) (\<lambda>(s1, pte).
          if pte = 0 then Panic ''uvmcopy: pte should exist''
          else if load64 (mem s1) pte AND PTE_V = 0 then Panic ''uvmcopy: page not present''
          else
            let pa = PTE2PA (load64 (mem s1) pte);
                flags = PTE_FLAGS (load64 (mem s1) pte)
            in rbind (kalloc c s1) (\<lambda>(s2, p).
               if p = 0 then
                 rbind (uvmunmap c s2 new 0 (i div PGSIZE) True) (\<lambda>s3. Ok (s3, -1))
               else
                 let s3 = s2\<lparr>mem := memmove (mem s2) p pa (ucast PGSIZE)\<rparr>
                 in rbind (mappages c s3 new i PGSIZE p flags) (\<lambda>(s4, r).
                    if r \<noteq> 0 then
                      rbind (kfree c s4 p) (\<lambda>s5.
                      rbind (uvmunmap c s5 new 0 (i div PGSIZE) True) (\<lambda>s6. Ok (s6, -1)))
                    else uvmcopy_loop n c s4 old new (i + PGSIZE) sz)))
      else Ok (s, 0))"

definition uvmcopy :: "nat \<Rightarrow> 'a kstate_scheme \<Rightarrow> uint64 \<Rightarrow> uint64 \<Rightarrow> uint64 \<Rightarrow> ('a kstate_scheme \<times> int) res" where
  "uvmcopy c s old new sz = uvmcopy_loop (Suc (Suc (unat sz div 4096))) c s old new 0 sz"

definition uvmclear :: "nat \<Rightarrow> 'a kstate_scheme \<Rightarrow> uint64 \<Rightarrow> uint64 \<Rightarrow> 'a kstate_scheme res" where
  "uvmclear c s pagetable va =
     rbind (walk c s pagetable va False) (\<lambda>(s1, pte).
       if pte = 0 then Panic ''uvmclear''
       else Ok (s1\<lparr>mem := store64 (mem s1) pte (load64 (mem s1) pte AND NOT PTE_U)\<rparr>))"

section \<open>Copies between user and kernel\<close>

fun copyout_loop :: "nat \<Rightarrow> nat \<Rightarrow> 'a kstate_scheme \<Rightarrow> uint64 \<Rightarrow> uint64 \<Rightarrow> uint64 \<Rightarrow> uint64 \<Rightarrow>
    ('a kstate_scheme \<times> int) res" where
  "copyout_loop 0 c s pagetable dstva src len = Hang"
| "copyout_loop (Suc k) c s pagetable dstva src len =
     (if len > 0 then
        let va0 = PGROUNDDOWN dstva
        in rbind (walkaddr c s pagetable va0) (\<lambda>pa0.
           if pa0 = 0 then Ok (s, -1)
           else
             let n0 = PGSIZE - (dstva - va0);
                 n = (if n0 > len then len else n0);
                 s1 = s\<lparr>mem := memmove (mem s) (pa0 + (dstva - va0)) src (ucast n)\<rparr>
             in copyout_loop k c s1 pagetable (va0 + PGSIZE) (src + n) (len - n))
      else Ok (s, 0))"

definition copyout :: "nat \<Rightarrow> 'a kstate_scheme \<Rightarrow> uint64 \<Rightarrow> uint64 \<Rightarrow> uint64 \<Rightarrow> uint64 \<Rightarrow> ('a kstate_scheme \<times> int) res" where
  "copyout c s pagetable dstva src len =
     copyout_loop (unat len div 4096 + 3) c s pagetable dstva src len"

fun copyin_loop :: "nat \<Rightarrow> nat \<Rightarrow> 'a kstate_scheme \<Rightarrow> uint64 \<Rightarrow> uint64 \<Rightarrow> uint64 \<Rightarrow> uint64 \<Rightarrow>
    ('a kstate_scheme \<times> int) res" where
  "copyin_loop 0 c s pagetable dst srcva len = Hang"
| "copyin_loop (Suc k) c s pagetable dst srcva len =
     (if len > 0 then
        let va0 = PGROUNDDOWN srcva
        in rbind (walkaddr c s pagetable va0) (\<lambda>pa0.
           if pa0 = 0 then Ok (s, -1)
           else
             let n0 = PGSIZE - (srcva - va0);
                 n = (if n0 > len then len else n0);
                 s1 = s\<lparr>mem := memmove (mem s) dst (pa0 + (srcva - va0)) (ucast n)\<rparr>
             in copyin_loop k c s1 pagetable (dst + n) (va0 + PGSIZE) (len - n))
      else Ok (s, 0))"

definition copyin :: "nat \<Rightarrow> 'a kstate_scheme \<Rightarrow> uint64 \<Rightarrow> uint64 \<Rightarrow> uint64 \<Rightarrow> uint64 \<Rightarrow> ('a kstate_scheme \<times> int) res" where
  "copyin c s pagetable dst srcva len =
     copyin_loop (unat len div 4096 + 3) c s pagetable dst srcva len"

text \<open>
  The inner loop of \<^verbatim>\<open>copyinstr\<close> over the bytes of one page: the memory, the new \<^verbatim>\<open>max\<close> and
  \<^verbatim>\<open>dst\<close>, and whether the terminator was found.
\<close>

fun copyinstr_page :: "memory \<Rightarrow> uint64 \<Rightarrow> uint64 \<Rightarrow> uint64 \<Rightarrow> nat \<Rightarrow> memory \<times> uint64 \<times> uint64 \<times> bool" where
  "copyinstr_page m dst p mx 0 = (m, dst, mx, False)"
| "copyinstr_page m dst p mx (Suc n) =
     (if m p = 0 then (m(dst := 0), dst, mx, True)
      else copyinstr_page (m(dst := m p)) (dst + 1) (p + 1) (mx - 1) n)"

fun copyinstr_loop :: "nat \<Rightarrow> nat \<Rightarrow> 'a kstate_scheme \<Rightarrow> uint64 \<Rightarrow> uint64 \<Rightarrow> uint64 \<Rightarrow> uint64 \<Rightarrow>
    ('a kstate_scheme \<times> int) res" where
  "copyinstr_loop 0 c s pagetable dst srcva mx = Hang"
| "copyinstr_loop (Suc k) c s pagetable dst srcva mx =
     (if mx > 0 then
        let va0 = PGROUNDDOWN srcva
        in rbind (walkaddr c s pagetable va0) (\<lambda>pa0.
           if pa0 = 0 then Ok (s, -1)
           else
             let n0 = PGSIZE - (srcva - va0);
                 n = (if n0 > mx then mx else n0);
                 (m1, dst1, mx1, got_null) = copyinstr_page (mem s) dst (pa0 + (srcva - va0)) mx (unat n);
                 s1 = s\<lparr>mem := m1\<rparr>
             in if got_null then Ok (s1, 0)
                else copyinstr_loop k c s1 pagetable dst1 (va0 + PGSIZE) mx1)
      else Ok (s, -1))"

definition copyinstr :: "nat \<Rightarrow> 'a kstate_scheme \<Rightarrow> uint64 \<Rightarrow> uint64 \<Rightarrow> uint64 \<Rightarrow> uint64 \<Rightarrow> ('a kstate_scheme \<times> int) res" where
  "copyinstr c s pagetable dst srcva mx =
     copyinstr_loop (unat mx div 4096 + 3) c s pagetable dst srcva mx"

section \<open>The kernel's own page table\<close>

text \<open>\<^verbatim>\<open>proc_mapstacks\<close> of \<^verbatim>\<open>proc.c\<close>: a mapped stack page for each process slot.\<close>

primrec proc_mapstacks_loop :: "nat \<Rightarrow> nat \<Rightarrow> 'a kstate_scheme \<Rightarrow> uint64 \<Rightarrow> 'a kstate_scheme res" where
  "proc_mapstacks_loop 0 c s kpgtbl = Ok s"
| "proc_mapstacks_loop (Suc k) c s kpgtbl =
     rbind (kalloc c s) (\<lambda>(s1, pa).
       if pa = 0 then Panic ''kalloc''
       else let va = KSTACK (of_nat (NPROC - Suc k))
            in rbind (kvmmap c s1 kpgtbl va pa PGSIZE (PTE_R OR PTE_W)) (\<lambda>s2.
               proc_mapstacks_loop k c s2 kpgtbl))"

definition proc_mapstacks :: "nat \<Rightarrow> 'a kstate_scheme \<Rightarrow> uint64 \<Rightarrow> 'a kstate_scheme res" where
  "proc_mapstacks c s kpgtbl = proc_mapstacks_loop NPROC c s kpgtbl"

text \<open>\<open>etext\<close> and \<open>trampoline\<close> are addresses set by the linker.\<close>

definition kvmmake :: "nat \<Rightarrow> 'a kstate_scheme \<Rightarrow> uint64 \<Rightarrow> uint64 \<Rightarrow> ('a kstate_scheme \<times> uint64) res" where
  "kvmmake c s etext trampoline =
     rbind (kalloc c s) (\<lambda>(s1, kpgtbl).
       let s2 = s1\<lparr>mem := memset (mem s1) kpgtbl 0 (ucast PGSIZE)\<rparr>
       in rbind (kvmmap c s2 kpgtbl UART0 UART0 PGSIZE (PTE_R OR PTE_W)) (\<lambda>s3.
          rbind (kvmmap c s3 kpgtbl VIRTIO0 VIRTIO0 PGSIZE (PTE_R OR PTE_W)) (\<lambda>s4.
          rbind (kvmmap c s4 kpgtbl PLIC PLIC 0x400000 (PTE_R OR PTE_W)) (\<lambda>s5.
          rbind (kvmmap c s5 kpgtbl KERNBASE KERNBASE (etext - KERNBASE) (PTE_R OR PTE_X)) (\<lambda>s6.
          rbind (kvmmap c s6 kpgtbl etext etext (PHYSTOP - etext) (PTE_R OR PTE_W)) (\<lambda>s7.
          rbind (kvmmap c s7 kpgtbl TRAMPOLINE trampoline PGSIZE (PTE_R OR PTE_X)) (\<lambda>s8.
          rbind (proc_mapstacks c s8 kpgtbl) (\<lambda>s9. Ok (s9, kpgtbl)))))))))"

end
