(* ===== verification/Vm_Tables.thy ===== *)
theory Vm_Tables
  imports Vm
begin

text \<open>
  Page tables as trees in memory: the tables reachable from a root, when they are well formed, and
  what a store to one entry does to them.
\<close>

section \<open>Paths from the root\<close>

definition pentry :: "memory \<Rightarrow> uint64 \<Rightarrow> uint64 \<Rightarrow> uint64 option" where
  "pentry m p i = (let e = load64 m (pte_addr p i) in if e AND PTE_V \<noteq> 0 then Some (PTE2PA e) else None)"

fun tbl :: "memory \<Rightarrow> uint64 \<Rightarrow> uint64 list \<Rightarrow> uint64 option" where
  "tbl m r [] = Some r"
| "tbl m r (i # is) = (case pentry m r i of None \<Rightarrow> None | Some p \<Rightarrow> tbl m p is)"

lemma tbl_append: "tbl m r (is @ js) = (case tbl m r is of None \<Rightarrow> None | Some p \<Rightarrow> tbl m p js)"
  by (induction "is" arbitrary: r) (auto split: option.splits)

lemma tbl_snoc: "tbl m r (is @ [i]) = (case tbl m r is of None \<Rightarrow> None | Some p \<Rightarrow> pentry m p i)"
  by (simp add: tbl_append split: option.splits)

text \<open>Paths to tables: at most two indices, each below 512.\<close>

definition path :: "uint64 list \<Rightarrow> bool" where
  "path \<pi> \<longleftrightarrow> length \<pi> \<le> 2 \<and> (\<forall>i \<in> set \<pi>. i < 512)"

definition pt_pages :: "memory \<Rightarrow> uint64 \<Rightarrow> uint64 set" where
  "pt_pages m r = {p. \<exists>\<pi>. path \<pi> \<and> tbl m r \<pi> = Some p}"

definition pt_wf :: "memory \<Rightarrow> uint64 \<Rightarrow> bool" where
  "pt_wf m r \<longleftrightarrow> (\<forall>p \<in> pt_pages m r. aligned p \<and> p \<noteq> 0) \<and>
     (\<forall>\<pi> \<rho> p. path \<pi> \<and> path \<rho> \<and> tbl m r \<pi> = Some p \<and> tbl m r \<rho> = Some p \<longrightarrow> \<pi> = \<rho>)"

lemma path_simps [simp]:
  "path []" "path (\<pi> @ [i]) \<longleftrightarrow> length \<pi> \<le> 1 \<and> path \<pi> \<and> i < 512"
  by (auto simp: path_def)

lemma pt_pagesI: "path \<pi> \<Longrightarrow> tbl m r \<pi> = Some p \<Longrightarrow> p \<in> pt_pages m r"
  by (auto simp: pt_pages_def)

section \<open>Entries do not overlap\<close>

lemma unat_pte: "aligned p \<Longrightarrow> i < 512 \<Longrightarrow> k < 8 \<Longrightarrow> unat (pte_addr p i + of_nat k) = unat p + 8 * unat i + k"
proof -
  assume al: "aligned p" and i: "i < 512" and k: "k < 8"
  obtain j where j: "unat p = 4096 * j" using al unfolding aligned_unat dvd_def by blast
  have "4096 * j + 4096 \<le> 2 ^ 64"
  proof -
    have "4096 * j < 4096 * 2 ^ 52" using unat_lt [of p] j by simp
    then have "j < 2 ^ 52" by simp
    then have "Suc j \<le> 2 ^ 52" by (rule Suc_leI)
    then have "4096 * Suc j \<le> 4096 * 2 ^ 52" by (rule mult_le_mono2)
    then show ?thesis by simp
  qed
  moreover have "unat i < 512" using i by (simp add: word_less_nat_alt)
  moreover have "unat (8 * i) = 8 * unat i" using calculation(2) by (simp add: unat_mult_lem [THEN iffD1])
  moreover have "unat (of_nat k :: uint64) = k" using k by (simp add: unat_of_nat)
  ultimately show ?thesis using j k by (simp add: pte_addr_def unat_plus_if')
qed

lemma pte_in_page: "aligned p \<Longrightarrow> i < 512 \<Longrightarrow> k < 8 \<Longrightarrow> in_page p (pte_addr p i + of_nat k)"
proof -
  assume al: "aligned p" and i: "i < 512" and k: "k < 8"
  have "unat i < 512" using i by (simp add: word_less_nat_alt)
  moreover obtain j where "unat p = 4096 * j" using al unfolding aligned_unat dvd_def by blast
  ultimately show ?thesis using unat_pte [OF al i k] k by (simp add: in_page_iff al)
qed

lemma load_pte_other:
  assumes "aligned p" "aligned q" "i < 512" "j < 512" "(p, i) \<noteq> (q, j)"
  shows "load64 (store64 m (pte_addr p i) v) (pte_addr q j) = load64 m (pte_addr q j)"
proof (rule load_store_other)
  fix k :: nat assume k: "k < 8"
  have ua: "unat (pte_addr p i) = unat p + 8 * unat i" using unat_pte [OF assms(1,3), of 0] by simp
  have ub: "unat (pte_addr q j + of_nat k) = unat q + 8 * unat j + k" by (rule unat_pte [OF assms(2,4) k])
  have ij: "unat i < 512" "unat j < 512" using assms(3,4) by (simp_all add: word_less_nat_alt)
  obtain x y where xy: "unat p = 4096 * x" "unat q = 4096 * y"
    using assms(1,2) unfolding aligned_unat dvd_def by blast
  have lt: "unat (pte_addr q j + of_nat k) < 2 ^ 64" "unat (pte_addr p i) < 2 ^ 64"
    using unat_lt [of "pte_addr q j + of_nat k"] unat_lt [of "pte_addr p i"] by simp_all
  have "x \<noteq> y \<or> unat i \<noteq> unat j" using assms(5) xy by (auto simp: word_unat_eq_iff)
  then have "8 \<le> (if unat (pte_addr p i) \<le> unat (pte_addr q j + of_nat k)
      then unat (pte_addr q j + of_nat k) - unat (pte_addr p i)
      else unat (pte_addr q j + of_nat k) + 2 ^ 64 - unat (pte_addr p i))"
  proof -
    define a b where "a = 512 * x + unat i" and "b = 512 * y + unat j"
    have e: "unat (pte_addr p i) = 8 * a" "unat (pte_addr q j + of_nat k) = 8 * b + k"
      using ua ub xy by (simp_all add: a_def b_def)
    have "a div 512 = x" "a mod 512 = unat i" "b div 512 = y" "b mod 512 = unat j"
      using ij by (simp_all add: a_def b_def)
    then have "a \<noteq> b" using \<open>x \<noteq> y \<or> unat i \<noteq> unat j\<close> by auto
    moreover have "8 * a + 8 \<le> 2 ^ 64" using lt(2) e(1) by simp
    ultimately show ?thesis unfolding e using k by (cases "8 * a \<le> 8 * b + k") auto
  qed
  then show "8 \<le> off (pte_addr q j + of_nat k) (pte_addr p i)" unfolding off_unat .
qed

section \<open>What a store to one entry does\<close>

lemma pentry_other:
  assumes "aligned p" "aligned q" "i < 512" "j < 512" "(p, i) \<noteq> (q, j)"
  shows "pentry (store64 m (pte_addr p i) v) q j = pentry m q j"
  using load_pte_other [OF assms] by (simp add: pentry_def)

lemma pt_wf_page: "pt_wf m r \<Longrightarrow> path \<pi> \<Longrightarrow> tbl m r \<pi> = Some p \<Longrightarrow> aligned p \<and> p \<noteq> 0"
  by (auto simp: pt_wf_def dest: pt_pagesI)

lemma pt_wf_inj: "pt_wf m r \<Longrightarrow> path \<pi> \<Longrightarrow> path \<rho> \<Longrightarrow> tbl m r \<pi> = Some p \<Longrightarrow> tbl m r \<rho> = Some p \<Longrightarrow> \<pi> = \<rho>"
  by (auto simp: pt_wf_def)

lemma path_prefix: "path (\<pi> @ \<rho>) \<Longrightarrow> path \<pi>"
  by (auto simp: path_def)

text \<open>A path that does not go through the entry still reaches the same table.\<close>

lemma tbl_store_other:
  assumes wf: "pt_wf m r" and \<pi>: "path \<pi>" "tbl m r \<pi> = Some p" "i < 512"
  shows "path \<rho> \<Longrightarrow> \<not> (\<exists>\<sigma>. \<rho> = \<pi> @ i # \<sigma>) \<Longrightarrow> tbl (store64 m (pte_addr p i) v) r \<rho> = tbl m r \<rho>"
proof (induction \<rho> rule: rev_induct)
  case (snoc j \<rho>)
  have pr: "path \<rho>" "j < 512" using snoc.prems(1) by auto
  have "\<not> (\<exists>\<sigma>. \<rho> = \<pi> @ i # \<sigma>)" using snoc.prems(2) by auto
  then have IH: "tbl (store64 m (pte_addr p i) v) r \<rho> = tbl m r \<rho>" using snoc.IH pr by blast
  show ?case
  proof (cases "tbl m r \<rho>")
    case None
    then show ?thesis using IH by (simp add: tbl_snoc)
  next
    case (Some q)
    have "(p, i) \<noteq> (q, j)"
    proof
      assume "(p, i) = (q, j)"
      then have "\<pi> = \<rho>" using pt_wf_inj [OF wf \<pi>(1) pr(1) \<pi>(2)] Some by simp
      then show False using snoc.prems(2) \<open>(p, i) = (q, j)\<close> by auto
    qed
    then have "pentry (store64 m (pte_addr p i) v) q j = pentry m q j"
      using pentry_other pt_wf_page [OF wf \<pi>(1,2)] pt_wf_page [OF wf pr(1) Some] \<pi>(3) pr(2) by blast
    then show ?thesis using IH Some by (simp add: tbl_snoc)
  qed
qed simp

text \<open>Writing an entry of a last-level table changes no table.\<close>

lemma tbl_store_leaf:
  assumes "pt_wf m r" and "path \<pi>" "length \<pi> = 2" "tbl m r \<pi> = Some p" "i < 512" and "path \<rho>"
  shows "tbl (store64 m (pte_addr p i) v) r \<rho> = tbl m r \<rho>"
  by (rule tbl_store_other [OF assms(1,2,4,5,6)]) (use assms(3,6) in \<open>auto simp: path_def\<close>)

lemma tbl_cong:
  assumes "\<And>\<pi> p a. path \<pi> \<Longrightarrow> tbl m r \<pi> = Some p \<Longrightarrow> in_page p a \<Longrightarrow> m' a = m a"
    and al: "\<And>\<pi> p. path \<pi> \<Longrightarrow> tbl m r \<pi> = Some p \<Longrightarrow> aligned p"
  shows "path \<rho> \<Longrightarrow> tbl m' r \<rho> = tbl m r \<rho>"
proof (induction \<rho> rule: rev_induct)
  case (snoc j \<rho>)
  have pr: "path \<rho>" "j < 512" using snoc.prems by auto
  have "pentry m' q j = pentry m q j" if "tbl m r \<rho> = Some q" for q
  proof -
    have "load64 m' (pte_addr q j) = load64 m (pte_addr q j)"
      by (rule load64_cong, rule assms(1) [OF pr(1) that])
         (rule pte_in_page [OF al [OF pr(1) that] pr(2)])
    then show ?thesis by (simp add: pentry_def)
  qed
  then show ?case using snoc.IH [OF pr(1)] by (simp add: tbl_snoc split: option.splits)
qed simp

section \<open>PTE encoding\<close>

lemma PTE_V_mask: "e AND PTE_V \<noteq> 0 \<longleftrightarrow> bit e 0"
  by (simp add: PTE_V_def and_one_eq odd_iff_mod_2_eq_one bit_0 flip: even_iff_mod_2_eq_zero)

lemma aligned_bits: "aligned p \<Longrightarrow> k < 12 \<Longrightarrow> \<not> bit p k"
proof -
  assume "aligned p" and k: "k < 12"
  then have "take_bit 12 p = 0" by (simp add: aligned_def PGSIZE_def take_bit_eq_mod)
  then show ?thesis using k by (metis bit_take_bit_iff bit_0_eq bot_apply bot_bool_def)
qed

definition flag_bits :: "uint64 \<Rightarrow> bool" where
  "flag_bits fl \<longleftrightarrow> take_bit 10 fl = fl"

lemma PTE2PA_PA2PTE: "aligned p \<Longrightarrow> flag_bits fl \<Longrightarrow> PTE2PA (PA2PTE p OR fl) = p"
proof (rule bit_word_eqI)
  fix k assume al: "aligned p" and fl: "flag_bits fl" and k: "k < LENGTH(64)"
  have "\<not> bit fl n" if "10 \<le> n" for n using fl that unfolding flag_bits_def by (metis bit_take_bit_iff not_le)
  then show "bit (PTE2PA (PA2PTE p OR fl)) k = bit p k"
    using aligned_bits [OF al, of k] k
    by (cases "k < 12") (auto simp: PTE2PA_def PA2PTE_def bit_simps not_less)
qed

lemma PA2PTE_low: "k < 10 \<Longrightarrow> \<not> bit (PA2PTE p) k"
  by (simp add: PA2PTE_def bit_simps)

lemma flag_bits_simps [simp]:
  "flag_bits PTE_V" "flag_bits PTE_R" "flag_bits PTE_W" "flag_bits PTE_X" "flag_bits PTE_U"
  "flag_bits a \<Longrightarrow> flag_bits b \<Longrightarrow> flag_bits (a OR b)"
  by (simp_all add: flag_bits_def PTE_V_def PTE_R_def PTE_W_def PTE_X_def PTE_U_def)

lemma PTE_V_set: "(e OR PTE_V) AND PTE_V \<noteq> 0"
  unfolding PTE_V_mask by (simp add: bit_simps PTE_V_def)

section \<open>Virtual addresses\<close>

lemma PX_less: "PX l va < 512"
  unfolding PX_def PXMASK_def by (rule le_less_trans [OF word_and_le1]) simp

lemma unat_MAXVA: "unat MAXVA = 2 ^ 38"
  by (simp add: MAXVA_def)

lemma PXMASK_mask: "PXMASK = mask 9"
  by (simp add: PXMASK_def mask_eq_exp_minus_1)

lemma bit_PX: "k < LENGTH(64) \<Longrightarrow> bit (PX l va) k \<longleftrightarrow> k < 9 \<and> bit va (12 + 9 * l + k)"
  unfolding PX_def PXMASK_mask by (auto simp: PXSHIFT_def PGSHIFT_def bit_simps)

lemma PX_bit: "12 + 9 * l \<le> k \<Longrightarrow> k < 21 + 9 * l \<Longrightarrow> k < LENGTH(64) \<Longrightarrow> bit va k = bit (PX l va) (k - (12 + 9 * l))"
  by (subst bit_PX) auto

lemma PX_inj:
  assumes "PX 2 a = PX 2 b" "PX 1 a = PX 1 b" "PX 0 a = PX 0 b" and lt: "a < MAXVA" "b < MAXVA"
  shows "PGROUNDDOWN a = PGROUNDDOWN b"
proof (rule bit_word_eqI)
  fix k assume "k < LENGTH(64)"
  have high: "\<not> bit x k" if "x < MAXVA" "38 \<le> k" for x
  proof -
    have "unat x < 2 ^ 38" using that(1) unat_MAXVA by (simp add: word_less_nat_alt)
    then have "take_bit 38 x = x" by (simp add: take_bit_word_eq_self word_unat_eq_iff unsigned_take_bit_eq take_bit_nat_eq_self)
    then show ?thesis using that(2) by (metis bit_take_bit_iff not_le)
  qed
  have mid: "bit a k = bit b k" if "12 \<le> k" "k < 39"
  proof -
    have "k < 21 \<or> 21 \<le> k \<and> k < 30 \<or> 30 \<le> k" by auto
    then show ?thesis
      using PX_bit [of 0 k a] PX_bit [of 0 k b] PX_bit [of 1 k a] PX_bit [of 1 k b]
        PX_bit [of 2 k a] PX_bit [of 2 k b] assms(1-3) that by auto
  qed
  show "bit (PGROUNDDOWN a) k = bit (PGROUNDDOWN b) k"
    using mid high [OF lt(1)] high [OF lt(2)]
    by (cases "k < 39") (auto simp: PGROUNDDOWN_bits bit_simps)
qed

lemma PX_page: "PX l (PGROUNDDOWN a) = PX l a"
  by (rule bit_word_eqI) (auto simp: bit_PX PGROUNDDOWN_bits bit_simps ac_simps dest: bit_imp_le_length)

section \<open>Translations\<close>

lemma path_px: "path [PX l va]"
  using PX_less by (auto simp: path_def)

definition vpath :: "uint64 \<Rightarrow> uint64 list" where
  "vpath va = [PX 2 va, PX 1 va]"

text \<open>The last-level entry for a virtual address, 0 when there is no last-level table.\<close>

definition leaf_ptr :: "memory \<Rightarrow> uint64 \<Rightarrow> uint64 \<Rightarrow> uint64" where
  "leaf_ptr m r va = (case tbl m r (vpath va) of None \<Rightarrow> 0 | Some p \<Rightarrow> pte_addr p (PX 0 va))"

definition leaf :: "memory \<Rightarrow> uint64 \<Rightarrow> uint64 \<Rightarrow> uint64" where
  "leaf m r va = (case tbl m r (vpath va) of None \<Rightarrow> 0 | Some p \<Rightarrow> load64 m (pte_addr p (PX 0 va)))"

lemma path_va [simp]: "path (vpath va)" "length (vpath va) = 2"
  using PX_less by (auto simp: path_def vpath_def)

lemma leaf_page: "leaf m r (PGROUNDDOWN va) = leaf m r va"
  unfolding leaf_def vpath_def PX_page ..

lemma walk_noalloc: "va < MAXVA \<Longrightarrow> walk c s r va False = Ok (s, leaf_ptr (mem s) r va)"
  by (auto simp: walk_def not_le [symmetric] numeral_2_eq_2 walk_step_def leaf_ptr_def vpath_def pentry_def Let_def)

lemma pte_addr_nonzero: "aligned p \<Longrightarrow> p \<noteq> 0 \<Longrightarrow> i < 512 \<Longrightarrow> pte_addr p i \<noteq> 0"
  using unat_pte [of p i 0] by (auto simp: word_unat_eq_iff)

lemma leaf_cong:
  assumes wf: "pt_wf m r" and eq: "\<And>p a. p \<in> pt_pages m r \<Longrightarrow> in_page p a \<Longrightarrow> m' a = m a"
  shows "leaf m' r va = leaf m r va" and "pt_wf m' r" and "pt_pages m' r = pt_pages m r"
proof -
  have t: "tbl m' r \<rho> = tbl m r \<rho>" if "path \<rho>" for \<rho>
    by (rule tbl_cong [OF _ _ that]) (use eq pt_pagesI pt_wf_page [OF wf] in blast)+
  then show pp: "pt_pages m' r = pt_pages m r" by (auto simp: pt_pages_def)
  show "pt_wf m' r" using wf t unfolding pt_wf_def pp by metis
  have "load64 m' (pte_addr p (PX 0 va)) = load64 m (pte_addr p (PX 0 va))" if "tbl m r (vpath va) = Some p" for p
    by (rule load64_cong, rule eq [OF pt_pagesI [OF path_va(1) that]])
       (rule pte_in_page, use pt_wf_page [OF wf path_va(1) that] PX_less in auto)
  then show "leaf m' r va = leaf m r va" using t [OF path_va(1)] by (simp add: leaf_def split: option.splits)
qed

lemma load64_zero: "load64 (\<lambda>a. 0) p = 0"
  using load_le_bytes [of 8 "\<lambda>a. 0" p 0] by (simp add: load64_def)

section \<open>Adding a table\<close>

lemma store_pte_out: "aligned p \<Longrightarrow> i < 512 \<Longrightarrow> \<not> in_page p a \<Longrightarrow> store64 m (pte_addr p i) v a = m a"
proof -
  assume al: "aligned p" and i: "i < 512" and a: "\<not> in_page p a"
  have "\<not> off a (pte_addr p i) < 8"
  proof
    assume "off a (pte_addr p i) < 8"
    moreover have "pte_addr p i + of_nat (off a (pte_addr p i)) = a" by (simp add: off_def)
    ultimately show False using pte_in_page [OF al i] a by metis
  qed
  then show ?thesis by (simp add: store64_def)
qed

text \<open>A zeroed page \<open>x\<close> linked at the invalid entry \<open>i\<close> of the table \<open>p\<close>.\<close>

definition link_table :: "memory \<Rightarrow> uint64 \<Rightarrow> uint64 \<Rightarrow> uint64 \<Rightarrow> memory" where
  "link_table m p i x = store64 (\<lambda>a. if in_page x a then 0 else m a) (pte_addr p i) (PA2PTE x OR PTE_V)"

lemma link_tbl:
  assumes wf: "pt_wf m r" and \<pi>: "path (\<pi> @ [i])" "tbl m r \<pi> = Some p" and none: "pentry m p i = None"
    and x: "aligned x" "x \<noteq> 0" "x \<notin> pt_pages m r" and \<rho>: "path \<rho>"
  shows "tbl (link_table m p i x) r \<rho> = (if \<rho> = \<pi> @ [i] then Some x else tbl m r \<rho>)"
proof -
  let ?z = "\<lambda>a. if in_page x a then 0 else m a" and ?m = "link_table m p i x"
  have pi: "path \<pi>" "i < 512" using \<pi>(1) by auto
  have dis: "?z a = m a" if "q \<in> pt_pages m r" "in_page q a" for q a
    using page_disjoint [of q x a] that wf x by (auto simp: pt_wf_def)
  note z = leaf_cong [OF wf dis]
  have tz: "tbl ?z r \<sigma> = tbl m r \<sigma>" if "path \<sigma>" for \<sigma>
    by (rule tbl_cong [OF _ _ that]) (use dis pt_pagesI pt_wf_page [OF wf] in blast)+
  have al: "aligned p" "p \<noteq> x" using pt_wf_page [OF wf pi(1) \<pi>(2)] pt_pagesI [OF pi(1) \<pi>(2)] x(3) by auto
  have other: "tbl ?m r \<sigma> = tbl m r \<sigma>" if "path \<sigma>" "\<not> (\<exists>\<tau>. \<sigma> = \<pi> @ i # \<tau>)" for \<sigma>
    unfolding link_table_def using tbl_store_other [OF z(2) pi(1) _ pi(2) that] tz that(1) pi(1) \<pi>(2) by simp
  have ep: "pentry ?m p i = Some x"
    using PTE2PA_PA2PTE [OF x(1), of PTE_V] PTE_V_set by (simp add: link_table_def pentry_def load_store)
  have ex: "pentry ?m x j = None" if "j < 512" for j
  proof -
    have "load64 ?m (pte_addr x j) = load64 ?z (pte_addr x j)"
      unfolding link_table_def by (rule load_pte_other) (use al x(1) pi(2) that in auto)
    also have "\<dots> = load64 (\<lambda>a. 0) (pte_addr x j)"
      by (rule load64_cong) (use pte_in_page [OF x(1) that] in auto)
    also have "\<dots> = 0" by (simp add: load64_zero)
    finally show ?thesis by (simp add: pentry_def)
  qed
  show ?thesis
  proof (cases "\<exists>\<tau>. \<rho> = \<pi> @ i # \<tau>")
    case True
    then obtain \<tau> where \<tau>: "\<rho> = \<pi> @ i # \<tau>" by blast
    have "tbl ?m r \<pi> = Some p" using other [OF pi(1)] \<pi>(2) by simp
    then have 1: "tbl ?m r \<rho> = tbl ?m x \<tau>" "tbl m r \<rho> = None" using ep none \<pi>(2) by (auto simp: \<tau> tbl_append)
    show ?thesis
    proof (cases \<tau>)
      case (Cons j \<tau>')
      then have "j < 512" using \<rho> by (auto simp: \<tau> path_def)
      then show ?thesis using 1 ex Cons by (simp add: \<tau>)
    qed (use 1 \<tau> in simp)
  qed (use other [OF \<rho>] in auto)
qed

end
