(* ===== verification/Vm_Walk.thy ===== *)
theory Vm_Walk
  imports Vm_Tables
begin

text \<open>
  \<^verbatim>\<open>walk\<close> with allocation and \<^verbatim>\<open>mappages\<close> keep page tables well formed, and \<^verbatim>\<open>mappages\<close> installs
  exactly the translations it is asked for.
\<close>

section \<open>Walking and allocating\<close>

lemma link_wf:
  assumes a: "pt_wf m r" "path (\<pi> @ [i])" "tbl m r \<pi> = Some p" "pentry m p i = None"
    "aligned x" "x \<noteq> 0" "x \<notin> pt_pages m r"
  shows "pt_wf (link_table m p i x) r" and "pt_pages (link_table m p i x) r = insert x (pt_pages m r)"
proof -
  note t = link_tbl [OF a]
  have pi: "tbl m r (\<pi> @ [i]) = None" using a(3,4) by (simp add: tbl_snoc)
  show pp: "pt_pages (link_table m p i x) r = insert x (pt_pages m r)"
  proof (intro set_eqI iffI)
    fix q assume "q \<in> insert x (pt_pages m r)"
    then consider "q = x" | \<rho> where "path \<rho>" "tbl m r \<rho> = Some q" by (auto simp: pt_pages_def)
    then show "q \<in> pt_pages (link_table m p i x) r"
    proof cases
      case 1
      then show ?thesis using t [OF a(2)] by (intro pt_pagesI [OF a(2)]) simp
    next
      case 2
      then show ?thesis using t [OF 2(1)] pi by (intro pt_pagesI [OF 2(1)]) auto
    qed
  qed (use t in \<open>auto simp: pt_pages_def split: if_splits\<close>)
  have inj: "\<pi>1 = \<rho>" if h: "path \<pi>1" "path \<rho>" "tbl (link_table m p i x) r \<pi>1 = Some q" "tbl (link_table m p i x) r \<rho> = Some q" for \<pi>1 \<rho> q
    using h t pt_wf_inj [OF a(1) h(1,2)] pt_pagesI a(7) by (auto split: if_splits)
  have "\<forall>q \<in> insert x (pt_pages m r). aligned q \<and> q \<noteq> 0" using a(1,5,6) by (simp add: pt_wf_def)
  then show "pt_wf (link_table m p i x) r" unfolding pt_wf_def pp using inj by (intro conjI allI impI) (auto elim: inj)
qed

lemma link_out:
  "aligned p \<Longrightarrow> i < 512 \<Longrightarrow> \<not> in_page p a \<Longrightarrow> \<not> in_page x a \<Longrightarrow> link_table m p i x a = m a"
  by (simp add: link_table_def store_pte_out)

lemma link_leaf:
  assumes a: "pt_wf m r" "path (\<pi> @ [i])" "tbl m r \<pi> = Some p" "pentry m p i = None"
    "aligned x" "x \<noteq> 0" "x \<notin> pt_pages m r"
  shows "leaf (link_table m p i x) r va = leaf m r va"
proof -
  let ?\<rho> = "vpath va" and ?m = "link_table m p i x" and ?z = "\<lambda>a. if in_page x a then 0 else m a"
  have pi: "path \<pi>" "i < 512" "length \<pi> \<le> 1" using a(2) by auto
  have al: "aligned p" "p \<noteq> x" using pt_wf_page [OF a(1) pi(1) a(3)] pt_pagesI [OF pi(1) a(3)] a(7) by auto
  have t: "tbl ?m r ?\<rho> = (if ?\<rho> = \<pi> @ [i] then Some x else tbl m r ?\<rho>)" by (rule link_tbl [OF a path_va(1)])
  show ?thesis
  proof (cases "?\<rho> = \<pi> @ [i]")
    case True
    have "load64 ?m (pte_addr x (PX 0 va)) = load64 ?z (pte_addr x (PX 0 va))"
      unfolding link_table_def by (rule load_pte_other) (use al a(5) pi(2) PX_less in auto)
    also have "\<dots> = load64 (\<lambda>a. 0) (pte_addr x (PX 0 va))"
      by (rule load64_cong) (use pte_in_page [OF a(5) PX_less] in auto)
    finally have "load64 ?m (pte_addr x (PX 0 va)) = 0" by (simp add: load64_zero)
    moreover have "tbl m r ?\<rho> = None" unfolding True using a(3,4) by (simp add: tbl_snoc)
    ultimately show ?thesis using t True unfolding leaf_def by simp
  next
    case False
    have "load64 ?m (pte_addr q (PX 0 va)) = load64 m (pte_addr q (PX 0 va))" if q: "tbl m r ?\<rho> = Some q" for q
    proof -
      have "\<pi> \<noteq> ?\<rho>" using pi(3) path_va(2) [of va] by fastforce
      then have ne: "p \<noteq> q" using pt_wf_inj [OF a(1) pi(1) path_va(1) a(3)] q by auto
      have qq: "aligned q" "q \<noteq> x" using pt_wf_page [OF a(1) path_va(1) q] pt_pagesI [OF path_va(1) q] a(7) by auto
      show ?thesis
      proof (rule load64_cong)
        fix k :: nat assume "k < 8"
        then have "in_page q (pte_addr q (PX 0 va) + of_nat k)" using pte_in_page qq(1) PX_less by blast
        then show "?m (pte_addr q (PX 0 va) + of_nat k) = m (pte_addr q (PX 0 va) + of_nat k)"
          using link_out [OF al(1) pi(2)] page_disjoint [OF qq(1) al(1)] page_disjoint [OF qq(1) a(5)] ne qq(2) by auto
      qed
    qed
    then show ?thesis using t False unfolding leaf_def by (auto split: option.splits)
  qed
qed

text \<open>
  \<open>vm_ok c s r xs\<close>: a page table rooted at \<open>r\<close> whose pages are not on the free list \<open>xs\<close>.
\<close>

definition vm_ok :: "nat \<Rightarrow> 'a kstate_scheme \<Rightarrow> uint64 \<Rightarrow> uint64 list \<Rightarrow> bool" where
  "vm_ok c s r xs \<longleftrightarrow> kmem_ok c s xs \<and> pt_wf (mem s) r \<and> set xs \<inter> pt_pages (mem s) r = {}"

text \<open>
  What an operation on the table may do: take pages off the front of the free list for tables, and
  write to those and to the tables.
\<close>

definition vm_step :: "nat \<Rightarrow> uint64 \<Rightarrow> 'a kstate_scheme \<Rightarrow> uint64 list \<Rightarrow> 'a kstate_scheme \<Rightarrow> uint64 list \<Rightarrow> bool" where
  "vm_step c r s xs s' ys \<longleftrightarrow> vm_ok c s' r ys \<and> kend s' = kend s \<and> 
     (\<exists>zs. xs = zs @ ys \<and> pt_pages (mem s') r = set zs \<union> pt_pages (mem s) r) \<and>
     (\<forall>a. (\<forall>p \<in> pt_pages (mem s') r. \<not> in_page p a) \<longrightarrow> mem s' a = mem s a)"

lemma vm_step_refl: "vm_ok c s r xs \<Longrightarrow> vm_step c r s xs s xs"
  by (auto simp: vm_step_def)

lemma vm_step_trans:
  assumes a: "vm_step c r s xs s1 ys" and b: "vm_step c r s1 ys s2 zs"
  shows "vm_step c r s xs s2 zs"
proof -
  obtain us vs where u: "xs = us @ ys" "pt_pages (mem s1) r = set us \<union> pt_pages (mem s) r"
    and v: "ys = vs @ zs" "pt_pages (mem s2) r = set vs \<union> pt_pages (mem s1) r"
    using a b unfolding vm_step_def by blast
  have "xs = (us @ vs) @ zs" "pt_pages (mem s2) r = set (us @ vs) \<union> pt_pages (mem s) r" using u v by auto
  moreover have "mem s2 q = mem s q" if q: "\<forall>p \<in> pt_pages (mem s2) r. \<not> in_page p q" for q
  proof -
    have "\<forall>p \<in> pt_pages (mem s1) r. \<not> in_page p q" using q v(2) by auto
    then show ?thesis using a b q by (simp add: vm_step_def)
  qed
  ultimately show ?thesis using a b unfolding vm_step_def by metis
qed

lemma kmem_ok_cong:
  assumes "kmem_ok c s xs" and "\<And>x a. x \<in> set xs \<Longrightarrow> in_page x a \<Longrightarrow> m a = mem s a"
  shows "kmem_ok c (s\<lparr>mem := m\<rparr>) xs"
  using assms free_at_cong [of xs m "mem s"] by (auto simp: kmem_ok_def page_ok_def)

lemma walk_step_ok:
  assumes ok: "vm_ok c s r xs" and \<pi>: "path (\<pi> @ [PX l va])" "tbl (mem s) r \<pi> = Some p"
  shows "\<exists>s' ys q. walk_step c s p va True l = Ok (s', q) \<and> vm_step c r s xs s' ys \<and>
    (\<forall>v. leaf (mem s') r v = leaf (mem s) r v) \<and>
    tbl (mem s') r (\<pi> @ [PX l va]) = q \<and> length xs \<le> Suc (length ys) \<and> (q = None \<longrightarrow> xs = [])"
proof (cases "pentry (mem s) p (PX l va)")
  case (Some t)
  then have "walk_step c s p va True l = Ok (s, Some t)"
    by (auto simp: walk_step_def pentry_def Let_def split: if_splits)
  then show ?thesis using vm_step_refl [OF ok] Some \<pi>(2) by (auto simp: tbl_snoc)
next
  case None
  have inv: "kmem_ok c s xs" "pt_wf (mem s) r" "set xs \<inter> pt_pages (mem s) r = {}" using ok by (auto simp: vm_ok_def)
  have nv: "load64 (mem s) (pte_addr p (PX l va)) AND PTE_V = 0" using None by (auto simp: pentry_def Let_def split: if_splits)
  show ?thesis
  proof (cases xs)
    case Nil
    then have k: "kalloc c s = Ok (after_lock c s, 0)" "kmem_ok c (after_lock c s) []" using kalloc_none inv(1) by auto
    then have "walk_step c s p va True l = Ok (after_lock c s, None)"
      using nv by (simp add: walk_step_def)
    moreover have "vm_step c r s xs (after_lock c s) []" using k(2) inv Nil by (auto simp: vm_step_def vm_ok_def)
    moreover have "tbl (mem s) r (\<pi> @ [PX l va]) = None" using None \<pi>(2) by (simp add: tbl_snoc)
    ultimately show ?thesis using Nil by fastforce
  next
    case (Cons x ys)
    have x: "x \<notin> pt_pages (mem s) r" "aligned x" "x \<noteq> 0" "distinct (x # ys)" "\<forall>y \<in> set ys. aligned y"
      using inv(1,3) Cons by (auto simp: kmem_ok_def page_ok_def)
    have pi: "path \<pi>" "PX l va < 512" using \<pi>(1) by auto
    have p: "aligned p" "p \<in> pt_pages (mem s) r" using pt_wf_page [OF inv(2) pi(1) \<pi>(2)] pt_pagesI [OF pi(1) \<pi>(2)] by auto
    let ?m = "link_table (mem s) p (PX l va) x"
    obtain s1 where s1: "kalloc c s = Ok (s1, x)" "kmem_ok c s1 ys"
      "s1 = after_lock c (s\<lparr>mem := memset (mem s) x 5 (ucast PGSIZE), freelist := load64 (mem s) x\<rparr>)"
      using kalloc_some inv(1) Cons by blast
    have m1: "store64 (memset (mem s1) x 0 (ucast PGSIZE)) (pte_addr p (PX l va)) (PA2PTE x OR PTE_V) = ?m"
      unfolding link_table_def by (rule arg_cong [where f = "\<lambda>f. store64 f _ _"]) (auto simp: s1(3) memset_page)
    have run: "walk_step c s p va True l = Ok (s1\<lparr>mem := ?m\<rparr>, Some x)"
      using nv s1(1) x(3) m1 by (simp add: walk_step_def Let_def)
    note lk = link_wf [OF inv(2) \<pi> None x(2,3,1)]
    have out: "?m a = mem s a" if "\<not> in_page p a" "\<not> in_page x a" for a by (rule link_out [OF p(1) pi(2) that])
    have "kmem_ok c (s1\<lparr>mem := ?m\<rparr>) ys"
    proof (rule kmem_ok_cong [OF s1(2)])
      fix y a assume y: "y \<in> set ys" "in_page y a"
      have "y \<noteq> p" "y \<noteq> x" "aligned y" using y(1) p(2) inv(3) Cons x(4,5) by auto
      then have "\<not> in_page p a" "\<not> in_page x a" using page_disjoint y(2) p(1) x(2) by blast+
      then show "?m a = mem s1 a" using out by (simp add: s1(3) memset_page)
    qed
    moreover have "kend s1 = kend s" by (simp add: s1(3))
    ultimately have "vm_step c r s xs (s1\<lparr>mem := ?m\<rparr>) ys"
      using lk inv(3) Cons x(4) out p(2) unfolding vm_step_def vm_ok_def by auto
    moreover have "tbl ?m r (\<pi> @ [PX l va]) = Some x" using link_tbl [OF inv(2) \<pi> None x(2,3,1) \<pi>(1)] by simp
    ultimately show ?thesis using run link_leaf [OF inv(2) \<pi> None x(2,3,1)] Cons by fastforce
  qed
qed

lemma walk_alloc:
  assumes ok: "vm_ok c s r xs" and va: "va < MAXVA"
  shows "\<exists>s' ys. walk c s r va True = Ok (s', leaf_ptr (mem s') r va) \<and> vm_step c r s xs s' ys \<and>
    (\<forall>v. leaf (mem s') r v = leaf (mem s) r v) \<and> length xs \<le> length ys + 2 \<and>
    (tbl (mem s') r (vpath va) = None \<longrightarrow> length xs < 2)"
proof -
  have w: "walk c s r va True = walk_loop (Suc (Suc 0)) c s r va True"
    using va by (auto simp: walk_def numeral_2_eq_2 dest: leD)
  obtain s1 ys q where 1: "walk_step c s r va True 2 = Ok (s1, q)" "vm_step c r s xs s1 ys"
    "\<forall>v. leaf (mem s1) r v = leaf (mem s) r v" "tbl (mem s1) r [PX 2 va] = q" "length xs \<le> Suc (length ys)" "q = None \<longrightarrow> xs = []"
    using walk_step_ok [OF ok, of "[]" 2 va r] path_px [of 2 va] by auto
  have w1: "walk c s r va True = (case q of None \<Rightarrow> Ok (s1, 0) | Some t \<Rightarrow> walk_loop (Suc 0) c s1 t va True)"
    using w 1(1) by (simp add: numeral_2_eq_2 split: option.splits)
  show ?thesis
  proof (cases q)
    case None
    then have "tbl (mem s1) r (vpath va) = None" using 1(4) tbl_append [of "mem s1" r "[PX 2 va]" "[PX 1 va]"] by (simp add: vpath_def)
    then have "leaf_ptr (mem s1) r va = 0" unfolding leaf_ptr_def by simp
    then show ?thesis using 1 None w1 by auto
  next
    case (Some t)
    have ok1: "vm_ok c s1 r ys" using 1(2) by (simp add: vm_step_def)
    have v: "[PX 2 va] @ [PX 1 va] = vpath va" by (simp add: vpath_def)
    obtain s2 zs q2 where 2: "walk_step c s1 t va True 1 = Ok (s2, q2)" "vm_step c r s1 ys s2 zs"
      "\<forall>v. leaf (mem s2) r v = leaf (mem s1) r v" "tbl (mem s2) r (vpath va) = q2" "length ys \<le> Suc (length zs)" "q2 = None \<longrightarrow> ys = []"
      using walk_step_ok [OF ok1, of "[PX 2 va]" 1 va t] trans [OF 1(4) Some] path_va(1) [of va] unfolding v by metis
    have "walk c s r va True = (case q2 of None \<Rightarrow> Ok (s2, 0) | Some t \<Rightarrow> Ok (s2, pte_addr t (PX 0 va)))"
      using w1 Some 2(1) by simp
    then have "walk c s r va True = Ok (s2, leaf_ptr (mem s2) r va)"
      unfolding leaf_ptr_def 2(4) by (simp split: option.splits)
    moreover have "length xs \<le> length zs + 2" "tbl (mem s2) r (vpath va) = None \<longrightarrow> length xs < 2"
      using 1(5) 2(4-6) by auto
    ultimately show ?thesis using vm_step_trans [OF 1(2) 2(2)] 1(3) 2(3) by metis
  qed
qed

section \<open>Writing a last-level entry\<close>

lemma leaf_ptr_cong: "leaf_ptr m r (PGROUNDDOWN va) = leaf_ptr m r va"
  unfolding leaf_ptr_def vpath_def PX_page ..

lemma load_leaf_ptr: "tbl m r (vpath va) \<noteq> None \<Longrightarrow> load64 m (leaf_ptr m r va) = leaf m r va"
  by (auto simp: leaf_def leaf_ptr_def)

lemma leaf_ptr_nonzero: "pt_wf m r \<Longrightarrow> leaf_ptr m r va = 0 \<longleftrightarrow> tbl m r (vpath va) = None"
  using pt_wf_page [OF _ path_va(1)] pte_addr_nonzero PX_less by (auto simp: leaf_ptr_def split: option.splits)

lemma leaf_eq:
  assumes "va < MAXVA" "u < MAXVA" "vpath u = vpath va" "PX 0 u = PX 0 va"
  shows "PGROUNDDOWN u = PGROUNDDOWN va"
  by (rule PX_inj) (use assms in \<open>auto simp: vpath_def\<close>)

lemma set_leaf:
  fixes m :: memory and v :: uint64
  assumes wf: "pt_wf m r" and va: "va < MAXVA" and t: "tbl m r (vpath va) = Some p"
  defines "m' \<equiv> store64 m (leaf_ptr m r va) v"
  shows "\<And>\<rho>. path \<rho> \<Longrightarrow> tbl m' r \<rho> = tbl m r \<rho>" and "pt_wf m' r" and "pt_pages m' r = pt_pages m r"
    and "u < MAXVA \<Longrightarrow> leaf m' r u = (if PGROUNDDOWN u = PGROUNDDOWN va then v else leaf m r u)"
    and "\<And>a. \<not> in_page p a \<Longrightarrow> m' a = m a"
proof -
  have lp: "leaf_ptr m r va = pte_addr p (PX 0 va)" by (simp add: leaf_ptr_def t)
  have al: "aligned p" using pt_wf_page [OF wf path_va(1) t] by simp
  show tt: "tbl m' r \<rho> = tbl m r \<rho>" if "path \<rho>" for \<rho>
    unfolding m'_def lp by (rule tbl_store_leaf [OF wf path_va t PX_less that])
  then show pp: "pt_pages m' r = pt_pages m r" by (auto simp: pt_pages_def)
  show "pt_wf m' r" using wf tt unfolding pt_wf_def pp by metis
  show "m' a = m a" if "\<not> in_page p a" for a
    unfolding m'_def lp by (rule store_pte_out [OF al PX_less that])
  show "leaf m' r u = (if PGROUNDDOWN u = PGROUNDDOWN va then v else leaf m r u)" if u: "u < MAXVA"
  proof (cases "PGROUNDDOWN u = PGROUNDDOWN va")
    case True
    have "leaf m' r va = v" using t tt [OF path_va(1)] unfolding leaf_def m'_def lp by (simp add: load_store)
    then show ?thesis using True leaf_page [of m' r u] leaf_page [of m' r va] by simp
  next
    case False
    have "load64 m' (pte_addr q (PX 0 u)) = load64 m (pte_addr q (PX 0 u))" if q: "tbl m r (vpath u) = Some q" for q
    proof -
      have "(p, PX 0 va) \<noteq> (q, PX 0 u)"
        using pt_wf_inj [OF wf path_va(1) path_va(1) t, of u] q leaf_eq [OF va u] False by auto
      then show ?thesis
        unfolding m'_def lp using load_pte_other al pt_wf_page [OF wf path_va(1) q] PX_less by blast
    qed
    then show ?thesis using False tt [OF path_va(1)] unfolding leaf_def by (auto split: option.splits)
  qed
qed

lemma set_leaf_step:
  assumes ok: "vm_ok c s r xs" and va: "va < MAXVA" and t: "tbl (mem s) r (vpath va) = Some p"
  shows "vm_step c r s xs (s\<lparr>mem := store64 (mem s) (leaf_ptr (mem s) r va) v\<rparr>) xs"
proof -
  have inv: "kmem_ok c s xs" "pt_wf (mem s) r" "set xs \<inter> pt_pages (mem s) r = {}" using ok by (auto simp: vm_ok_def)
  note sl = set_leaf [OF inv(2) va t, where v = v]
  have p: "p \<in> pt_pages (mem s) r" by (rule pt_pagesI [OF path_va(1) t])
  have al: "aligned p" using pt_wf_page [OF inv(2) path_va(1) t] by simp
  have "kmem_ok c (s\<lparr>mem := store64 (mem s) (leaf_ptr (mem s) r va) v\<rparr>) xs"
  proof (rule kmem_ok_cong [OF inv(1)], rule sl(5))
    fix x a assume x: "x \<in> set xs" "in_page x a"
    then have "aligned x" "x \<noteq> p" using inv(1,3) p by (auto simp: kmem_ok_def page_ok_def)
    then show "\<not> in_page p a" using page_disjoint [OF _ al _ x(2)] by blast
  qed
  then show ?thesis using sl inv(3) p by (simp add: vm_step_def vm_ok_def)
qed

section \<open>mappages\<close>

lemma aligned_next:
  assumes "aligned a" "aligned b" "a < b"
  shows "aligned (a + PGSIZE)" "unat (a + PGSIZE) = unat a + 4096" "a < a + PGSIZE" "a + PGSIZE \<le> b"
proof -
  obtain i j where ij: "unat a = 4096 * i" "unat b = 4096 * j" using assms(1,2) unfolding aligned_unat dvd_def by blast
  have lt: "i < j" using assms(3) ij by (simp add: word_less_nat_alt)
  have "4096 * j < 2 ^ 64" using unat_lt [of b] ij(2) by simp
  then show u: "unat (a + PGSIZE) = unat a + 4096" using ij lt by (simp add: PGSIZE_def unat_plus_if')
  then show "aligned (a + PGSIZE)" "a < a + PGSIZE" "a + PGSIZE \<le> b"
    using ij lt by (simp_all add: aligned_unat word_less_nat_alt word_le_nat_alt)
qed

text \<open>The entry that mapping the range starting at \<open>a\<close> onto \<open>pa\<close> installs for the address \<open>u\<close>.\<close>

definition new_pte :: "uint64 \<Rightarrow> uint64 \<Rightarrow> uint64 \<Rightarrow> uint64 \<Rightarrow> uint64" where
  "new_pte a pa perm u = PA2PTE (pa + (PGROUNDDOWN u - a)) OR perm OR PTE_V"

definition mapped_to :: "memory \<Rightarrow> memory \<Rightarrow> uint64 \<Rightarrow> uint64 \<Rightarrow> uint64 \<Rightarrow> uint64 \<Rightarrow> uint64 \<Rightarrow> bool" where
  "mapped_to m m' r a stop pa perm \<longleftrightarrow>
     (\<forall>u < MAXVA. leaf m' r u = (if a \<le> PGROUNDDOWN u \<and> PGROUNDDOWN u < stop then new_pte a pa perm u else leaf m r u))"

lemma mapped_to_step:
  assumes "aligned a" "aligned stop" "a < stop"
    and first: "\<forall>u < MAXVA. leaf m1 r u = (if PGROUNDDOWN u = a then PA2PTE pa OR perm OR PTE_V else leaf m r u)"
    and rest: "mapped_to m1 m2 r (a + PGSIZE) stop (pa + PGSIZE) perm"
  shows "mapped_to m m2 r a stop pa perm"
  unfolding mapped_to_def
proof (intro allI impI)
  fix u assume u: "u < MAXVA"
  note nx = aligned_next [OF assms(1-3)]
  show "leaf m2 r u = (if a \<le> PGROUNDDOWN u \<and> PGROUNDDOWN u < stop then new_pte a pa perm u else leaf m r u)"
  proof (cases "PGROUNDDOWN u = a")
    case True
    then show ?thesis using rest first u nx(3) assms(3) by (auto simp: mapped_to_def new_pte_def)
  next
    case False
    have "a \<le> PGROUNDDOWN u \<longleftrightarrow> a + PGSIZE \<le> PGROUNDDOWN u"
      using aligned_next(4) [OF assms(1) aligned_PGROUNDDOWN [of u]] False nx(3) by (auto simp: order_le_less)
    moreover have "new_pte (a + PGSIZE) (pa + PGSIZE) perm u = new_pte a pa perm u" by (simp add: new_pte_def)
    ultimately show ?thesis using rest first u False by (simp add: mapped_to_def)
  qed
qed

lemma mapped_to_empty: "mapped_to m m r a a pa perm"
  by (auto simp: mapped_to_def)

lemma page_below_MAXVA: "aligned a \<Longrightarrow> a < MAXVA \<Longrightarrow> aligned (a + PGSIZE) \<and> a < a + PGSIZE \<and> a + PGSIZE \<le> MAXVA"
  using aligned_next [of a MAXVA] by (simp add: aligned_unat unat_MAXVA)

definition unmapped :: "memory \<Rightarrow> uint64 \<Rightarrow> uint64 \<Rightarrow> uint64 \<Rightarrow> bool" where
  "unmapped m r a lst \<longleftrightarrow> (\<forall>u < MAXVA. a \<le> PGROUNDDOWN u \<and> PGROUNDDOWN u \<le> lst \<longrightarrow> leaf m r u AND PTE_V = 0)"

lemma mappages_first:
  assumes ok: "vm_ok c s r xs" and a: "aligned a" "a < MAXVA" and un: "leaf (mem s) r a AND PTE_V = 0"
  shows "\<exists>s1 ys pte. walk c s r a True = Ok (s1, pte) \<and> vm_step c r s xs s1 ys \<and>
    (\<forall>u. leaf (mem s1) r u = leaf (mem s) r u) \<and> length xs \<le> length ys + 2 \<and>
    (if pte = 0 then length xs < 2
     else load64 (mem s1) pte AND PTE_V = 0 \<and> vm_step c r s xs (s1\<lparr>mem := store64 (mem s1) pte v\<rparr>) ys \<and>
       (\<forall>u < MAXVA. leaf (store64 (mem s1) pte v) r u = (if PGROUNDDOWN u = a then v else leaf (mem s) r u)))"
proof -
  obtain s1 ys where 1: "walk c s r a True = Ok (s1, leaf_ptr (mem s1) r a)" "vm_step c r s xs s1 ys"
    "\<forall>u. leaf (mem s1) r u = leaf (mem s) r u" "length xs \<le> length ys + 2" "tbl (mem s1) r (vpath a) = None \<longrightarrow> length xs < 2"
    using walk_alloc [OF ok a(2)] by metis
  have ok1: "vm_ok c s1 r ys" "pt_wf (mem s1) r" using 1(2) by (simp_all add: vm_step_def vm_ok_def)
  show ?thesis
  proof (cases "tbl (mem s1) r (vpath a)")
    case None
    then show ?thesis using 1 leaf_ptr_nonzero [OF ok1(2), of a] by auto
  next
    case (Some p)
    have "load64 (mem s1) (leaf_ptr (mem s1) r a) AND PTE_V = 0" using load_leaf_ptr [of "mem s1" r a] Some 1(3) un by simp
    moreover have "vm_step c r s xs (s1\<lparr>mem := store64 (mem s1) (leaf_ptr (mem s1) r a) v\<rparr>) ys"
      by (rule vm_step_trans [OF 1(2) set_leaf_step [OF ok1(1) a(2) Some]])
    moreover have "\<forall>u < MAXVA. leaf (store64 (mem s1) (leaf_ptr (mem s1) r a) v) r u = (if PGROUNDDOWN u = a then v else leaf (mem s) r u)"
      using set_leaf(4) [OF ok1(2) a(2) Some, where v = v] 1(3) PGROUNDDOWN_aligned [OF a(1)] by simp
    ultimately show ?thesis using 1 Some leaf_ptr_nonzero [OF ok1(2), of a] by auto
  qed
qed

lemma mappages_loop_ok:
  assumes "vm_ok c s r xs" and "aligned a" "aligned lst" "a \<le> lst" "lst < MAXVA" and "unat lst - unat a < 4096 * n"
    and "unmapped (mem s) r a lst"
  shows "\<exists>s' ys k stop. mappages_loop n c s r a lst pa perm = Ok (s', k) \<and> vm_step c r s xs s' ys \<and>
    mapped_to (mem s) (mem s') r a stop pa perm \<and> aligned stop \<and> a \<le> stop \<and>
    (if k = 0 then stop = lst + PGSIZE else k = -1 \<and> stop \<le> lst \<and> length xs < 2 * ((unat lst - unat a) div 4096 + 1))"
  using assms
proof (induction n arbitrary: s xs a pa)
  case (Suc n)
  have am: "a < MAXVA" using Suc.prems(4,5) by (rule le_less_trans)
  let ?v = "PA2PTE pa OR perm OR PTE_V"
  have un: "leaf (mem s) r a AND PTE_V = 0"
    using Suc.prems(7,4) am PGROUNDDOWN_aligned [OF Suc.prems(2)] unfolding unmapped_def by auto
  obtain s1 ys pte where w: "walk c s r a True = Ok (s1, pte)" "vm_step c r s xs s1 ys"
    "\<forall>u. leaf (mem s1) r u = leaf (mem s) r u" "length xs \<le> length ys + 2"
    "if pte = 0 then length xs < 2 else load64 (mem s1) pte AND PTE_V = 0 \<and> vm_step c r s xs (s1\<lparr>mem := store64 (mem s1) pte ?v\<rparr>) ys \<and>
       (\<forall>u < MAXVA. leaf (store64 (mem s1) pte ?v) r u = (if PGROUNDDOWN u = a then ?v else leaf (mem s) r u))"
    using mappages_first [OF Suc.prems(1,2) am un, of ?v] by blast
  show ?case
  proof (cases "pte = 0")
    case True
    have "mapped_to (mem s) (mem s1) r a a pa perm" using w(3) by (auto simp: mapped_to_def)
    then show ?thesis using w True Suc.prems(2,4) by fastforce
  next
    case False
    let ?s = "s1\<lparr>mem := store64 (mem s1) pte ?v\<rparr>"
    have st: "load64 (mem s1) pte AND PTE_V = 0" "vm_step c r s xs ?s ys"
      and first: "\<forall>u < MAXVA. leaf (mem ?s) r u = (if PGROUNDDOWN u = a then ?v else leaf (mem s) r u)"
      using w(5) False by auto
    have run: "mappages_loop (Suc n) c s r a lst pa perm =
        (if a = lst then Ok (?s, 0) else mappages_loop n c ?s r (a + PGSIZE) lst (pa + PGSIZE) perm)"
      using w(1) False st(1) by (simp add: Let_def)
    note nxt = page_below_MAXVA [OF Suc.prems(2) am]
    show ?thesis
    proof (cases "a = lst")
      case True
      have "mapped_to (mem s) (mem ?s) r a (a + PGSIZE) pa perm"
        using mapped_to_step [OF Suc.prems(2) _ _ first mapped_to_empty] nxt by blast
      then show ?thesis using run st(2) True nxt by (force intro: less_imp_le)
    next
      case False
      then have lt: "a < lst" using Suc.prems(4) by simp
      note nx = aligned_next [OF Suc.prems(2,3) lt]
      have "unmapped (mem ?s) r (a + PGSIZE) lst"
        unfolding unmapped_def
      proof (intro allI impI)
        fix u assume u: "u < MAXVA" "a + PGSIZE \<le> PGROUNDDOWN u \<and> PGROUNDDOWN u \<le> lst"
        then have "a < PGROUNDDOWN u" using nx(3) by (blast intro: less_le_trans)
        then show "leaf (mem ?s) r u AND PTE_V = 0" using first Suc.prems(7) u by (auto simp: unmapped_def)
      qed
      moreover have "vm_ok c ?s r ys" using st(2) by (simp add: vm_step_def)
      moreover have "unat lst - unat (a + PGSIZE) < 4096 * n" using Suc.prems(6) nx(2,4) by (simp add: word_le_nat_alt)
      ultimately obtain s' zs k stop where r: "mappages_loop n c ?s r (a + PGSIZE) lst (pa + PGSIZE) perm = Ok (s', k)"
        "vm_step c r ?s ys s' zs" "mapped_to (mem ?s) (mem s') r (a + PGSIZE) stop (pa + PGSIZE) perm" "aligned stop"
        "a + PGSIZE \<le> stop" 
        "if k = 0 then stop = lst + PGSIZE else k = -1 \<and> stop \<le> lst \<and> length ys < 2 * ((unat lst - unat (a + PGSIZE)) div 4096 + 1)"
        using Suc.IH [of ?s ys "a + PGSIZE" "pa + PGSIZE"] nx Suc.prems(3,5) by blast
      have "a < stop" using nx(3) r(5) by (rule less_le_trans)
      then have "mapped_to (mem s) (mem s') r a stop pa perm" 
        using mapped_to_step [OF Suc.prems(2) r(4) _ first r(3)] by blast
      moreover have "if k = 0 then stop = lst + PGSIZE else k = -1 \<and> stop \<le> lst \<and> length xs < 2 * ((unat lst - unat a) div 4096 + 1)"
      proof -
        have "(unat lst - unat a) div 4096 = Suc ((unat lst - unat (a + PGSIZE)) div 4096)"
          using nx(2,4) by (simp add: word_le_nat_alt le_div_geq)
        then show ?thesis using r(6) w(4) by (auto split: if_splits)
      qed
      ultimately show ?thesis using run False r vm_step_trans [OF st(2) r(2)] less_imp_le [OF \<open>a < stop\<close>] by metis
    qed
  qed
qed simp

end
