(* ===== verification/Vm_Copy.thy ===== *)
theory Vm_Copy
  imports Vm_Walk
begin

text \<open>
  \<^verbatim>\<open>copyout\<close>, \<^verbatim>\<open>copyin\<close> and the address translation they use: a user address space is a partial map
  from virtual addresses to bytes of private frames.
\<close>

section \<open>User addresses\<close>

definition frame :: "memory \<Rightarrow> uint64 \<Rightarrow> uint64 \<Rightarrow> uint64" where
  "frame m r va = PTE2PA (leaf m r va)"

definition user_ok :: "memory \<Rightarrow> uint64 \<Rightarrow> uint64 \<Rightarrow> bool" where
  "user_ok m r va \<longleftrightarrow> va < MAXVA \<and> leaf m r va AND PTE_V \<noteq> 0 \<and> leaf m r va AND PTE_U \<noteq> 0 \<and> frame m r va \<noteq> 0"

definition uaddr :: "memory \<Rightarrow> uint64 \<Rightarrow> uint64 \<Rightarrow> uint64" where
  "uaddr m r va = frame m r va + (va - PGROUNDDOWN va)"

text \<open>
  A sane address space: user frames are in RAM, are not tables, and no two pages share a frame.
\<close>

definition uvm_sane :: "memory \<Rightarrow> uint64 \<Rightarrow> bool" where
  "uvm_sane m r \<longleftrightarrow> pt_wf m r \<and> (\<forall>va. user_ok m r va \<longrightarrow> frame m r va < PHYSTOP \<and> frame m r va \<notin> pt_pages m r \<and>
     (\<forall>vb. user_ok m r vb \<and> frame m r vb = frame m r va \<longrightarrow> PGROUNDDOWN vb = PGROUNDDOWN va))"

text \<open>A kernel buffer that no user page overlaps.\<close>

definition user_byte :: "memory \<Rightarrow> uint64 \<Rightarrow> uint64 \<Rightarrow> bool" where
  "user_byte m r a \<longleftrightarrow> (\<exists>va. user_ok m r va \<and> in_page (frame m r va) a)"

definition kaddr :: "memory \<Rightarrow> uint64 \<Rightarrow> uint64 \<Rightarrow> bool" where
  "kaddr m r a \<longleftrightarrow> \<not> user_byte m r a \<and> (\<forall>p \<in> pt_pages m r. \<not> in_page p a)"

definition kbuf :: "memory \<Rightarrow> uint64 \<Rightarrow> uint64 \<Rightarrow> nat \<Rightarrow> bool" where
  "kbuf m r b n \<longleftrightarrow> unat b + n < 2 ^ 64 \<and> (\<forall>j < n. kaddr m r (b + of_nat j))"

lemma aligned_PTE2PA [simp]: "aligned (PTE2PA e)"
  by (simp add: PTE2PA_def aligned_def PGSIZE_def flip: take_bit_eq_mod [where n = 12 and 'a = "64 word", simplified])
     (rule bit_word_eqI, simp add: bit_simps)

lemma aligned_frame [simp]: "aligned (frame m r va)"
  by (simp add: frame_def)

lemma walkaddr_eq: "pt_wf (mem s) r \<Longrightarrow> walkaddr c s r va = Ok (if user_ok (mem s) r va then frame (mem s) r va else 0)"
proof (cases "va < MAXVA")
  case True
  assume wf: "pt_wf (mem s) r"
  have nle: "\<not> MAXVA \<le> va" using True by simp
  show ?thesis
  proof (cases "tbl (mem s) r (vpath va)")
    case None
    then have "leaf_ptr (mem s) r va = 0" "leaf (mem s) r va = 0" by (simp_all add: leaf_ptr_def leaf_def)
    then show ?thesis using nle walk_noalloc [OF True, of c s r] by (simp add: walkaddr_def user_ok_def)
  next
    case (Some p)
    then show ?thesis
      using nle walk_noalloc [OF True, of c s r] load_leaf_ptr [of "mem s" r va] leaf_ptr_nonzero [OF wf, of va] True
      by (auto simp: walkaddr_def user_ok_def frame_def)
  qed
qed (simp add: walkaddr_def user_ok_def not_less)

lemma user_cong:
  assumes "uvm_sane m r" and "\<And>p a. p \<in> pt_pages m r \<Longrightarrow> in_page p a \<Longrightarrow> m1 a = m a"
  shows "user_ok m1 r = user_ok m r" and "frame m1 r = frame m r" and "uaddr m1 r = uaddr m r"
    and "uvm_sane m1 r" and "kbuf m1 r = kbuf m r" and "kaddr m1 r = kaddr m r" and "user_byte m1 r = user_byte m r"
proof -
  have wf: "pt_wf m r" using assms(1) by (simp add: uvm_sane_def)
  have lc: "leaf m1 r va = leaf m r va" "pt_wf m1 r" "pt_pages m1 r = pt_pages m r" for va
    using leaf_cong [OF wf, of m1] assms(2) by blast+
  show f: "frame m1 r = frame m r" by (rule ext) (simp add: frame_def lc(1))
  then show u: "user_ok m1 r = user_ok m r" by (intro ext) (simp add: user_ok_def lc(1))
  show "uaddr m1 r = uaddr m r" by (intro ext) (simp add: uaddr_def f)
  show "uvm_sane m1 r" using assms(1) lc(2) unfolding uvm_sane_def f u lc(3) by blast
  show ub: "user_byte m1 r = user_byte m r" by (intro ext) (simp add: user_byte_def f u)
  show k: "kaddr m1 r = kaddr m r" by (intro ext) (simp add: kaddr_def ub lc(3))
  show "kbuf m1 r = kbuf m r" by (intro ext) (simp add: kbuf_def k)
qed

section \<open>One page of a copy\<close>

lemma page_offset: "unat (va - PGROUNDDOWN va) = unat va mod 4096"
proof -
  have "PGROUNDDOWN va \<le> va" by (simp add: word_le_nat_alt unat_PGROUNDDOWN)
  then have "unat (va - PGROUNDDOWN va) = unat va - unat (PGROUNDDOWN va)" by (rule unat_sub)
  then show ?thesis by (simp add: unat_PGROUNDDOWN minus_mult_div_eq_mod)
qed

lemma page_rest: "unat (PGSIZE - (va - PGROUNDDOWN va)) = 4096 - unat va mod 4096"
proof -
  have "va - PGROUNDDOWN va \<le> PGSIZE" using page_offset [of va] by (simp add: word_le_nat_alt PGSIZE_def less_imp_le)
  then have "unat (PGSIZE - (va - PGROUNDDOWN va)) = unat PGSIZE - unat (va - PGROUNDDOWN va)" by (rule unat_sub)
  then show ?thesis by (simp add: page_offset PGSIZE_def)
qed

lemma same_page:
  assumes "unat va mod 4096 + i < 4096"
  shows "PGROUNDDOWN (va + of_nat i) = PGROUNDDOWN va" and "unat (va + of_nat i) = unat va + i"
proof -
  have "4096 * (unat va div 4096) + 4096 \<le> 2 ^ 64"
  proof -
    have "unat va < 4096 * 2 ^ 52" using unat_lt [of va] by simp
    then have "unat va div 4096 < 2 ^ 52" by (simp add: less_mult_imp_div_less)
    then show ?thesis by simp
  qed
  then have lt: "unat va + i < 2 ^ 64" using assms mult_div_mod_eq [of 4096 "unat va"] by linarith
  then show u: "unat (va + of_nat i) = unat va + i" using assms by (simp add: unat_plus_if' unat_of_nat)
  have "(unat va + i) div 4096 = unat va div 4096" using assms by (simp add: div_add1_eq [of "unat va" i])
  then show "PGROUNDDOWN (va + of_nat i) = PGROUNDDOWN va"
    by (simp add: word_unat_eq_iff unat_PGROUNDDOWN u)
qed

lemma uaddr_add:
  assumes "unat va mod 4096 + i < 4096"
  shows "uaddr m r (va + of_nat i) = uaddr m r va + of_nat i" and "in_page (frame m r va) (uaddr m r va + of_nat i)"
    and "frame m r (va + of_nat i) = frame m r va"
proof -
  have lf: "leaf m r (va + of_nat i) = leaf m r va"
    using leaf_page [of m r "va + of_nat i"] leaf_page [of m r va] same_page(1) [OF assms] by simp
  then show "frame m r (va + of_nat i) = frame m r va" by (simp add: frame_def)
  then show "uaddr m r (va + of_nat i) = uaddr m r va + of_nat i"
    by (simp add: uaddr_def same_page(1) [OF assms])
  have "uaddr m r va + of_nat i = frame m r va + of_nat (unat va mod 4096 + i)"
    by (simp add: uaddr_def flip: page_offset)
  then show "in_page (frame m r va) (uaddr m r va + of_nat i)"
    using in_page_add [OF assms] by (simp add: add.assoc)
qed

lemma user_ok_add:
  assumes "unat va mod 4096 + i < 4096"
  shows "user_ok m r (va + of_nat i) = user_ok m r va"
proof -
  have "leaf m r (va + of_nat i) = leaf m r va"
    using leaf_page [of m r "va + of_nat i"] leaf_page [of m r va] same_page(1) [OF assms] by simp
  moreover have "va + of_nat i < MAXVA \<longleftrightarrow> va < MAXVA"
  proof -
    have "(unat va + i) div 4096 = unat va div 4096" using assms by (simp add: div_add1_eq [of "unat va" i])
    moreover have "x < 2 ^ 38 \<longleftrightarrow> x div 4096 < 2 ^ 26" for x :: nat by (simp add: div_less_iff_less_mult)
    ultimately show ?thesis unfolding word_less_nat_alt same_page(2) [OF assms] unat_MAXVA by simp
  qed
  ultimately show ?thesis by (simp add: user_ok_def uaddr_add(3) [OF assms])
qed

lemma frame_no_wrap:
  assumes "uvm_sane m r" "user_ok m r va"
  shows "unat (uaddr m r va) < 2 ^ 33"
proof -
  have "frame m r va < PHYSTOP" using assms by (simp add: uvm_sane_def)
  then have "unat (frame m r va) < 2 ^ 32" by (simp add: word_less_nat_alt layout_defs)
  moreover have "unat (va - PGROUNDDOWN va) < 4096" by (simp add: page_offset)
  ultimately show ?thesis by (simp add: uaddr_def unat_plus_if')
qed

lemma copyout_page:
  fixes n :: uint64
  assumes sane: "uvm_sane m r" and ok: "user_ok m r va" and n: "unat va mod 4096 + unat n \<le> 4096" and b: "kbuf m r src (unat n)"
  defines "m1 \<equiv> memmove m (frame m r va + (va - PGROUNDDOWN va)) src (ucast n)"
  shows "\<And>j. j < unat n \<Longrightarrow> m1 (uaddr m r (va + of_nat j)) = m (src + of_nat j)"
    and "\<And>a. (\<And>j. j < unat n \<Longrightarrow> a \<noteq> uaddr m r (va + of_nat j)) \<Longrightarrow> m1 a = m a"
proof -
  have u: "unat (ucast n :: uint) = unat n"
    using n by (simp add: unsigned_ucast_eq take_bit_nat_eq_self)
  have m1: "m1 = (\<lambda>a. if off a (uaddr m r va) < unat n then m (src + (a - uaddr m r va)) else m a)"
    unfolding m1_def uaddr_def [symmetric]
    by (subst memmove_eq) (use b n frame_no_wrap [OF sane ok] in \<open>auto simp: u kbuf_def\<close>)
  show "m1 (uaddr m r (va + of_nat j)) = m (src + of_nat j)" if "j < unat n" for j
    using uaddr_add(1) [of va j m r] n that unat_lt [of n] by (simp add: m1)
  show "m1 a = m a" if ne: "\<And>j. j < unat n \<Longrightarrow> a \<noteq> uaddr m r (va + of_nat j)" for a
  proof -
    have "\<not> off a (uaddr m r va) < unat n"
      using ne [of "off a (uaddr m r va)"] uaddr_add(1) [of va "off a (uaddr m r va)" m r] n off_base [of a "uaddr m r va"] by auto
    then show ?thesis by (simp add: m1)
  qed
qed

lemma copyin_page:
  fixes n :: uint64
  assumes sane: "uvm_sane m r" and ok: "user_ok m r va" and n: "unat va mod 4096 + unat n \<le> 4096" and b: "kbuf m r dst (unat n)"
  defines "m1 \<equiv> memmove m dst (frame m r va + (va - PGROUNDDOWN va)) (ucast n)"
  shows "\<And>j. j < unat n \<Longrightarrow> m1 (dst + of_nat j) = m (uaddr m r (va + of_nat j))"
    and "\<And>a. unat n \<le> off a dst \<Longrightarrow> m1 a = m a"
proof -
  have u: "unat (ucast n :: uint) = unat n"
    using n by (simp add: unsigned_ucast_eq take_bit_nat_eq_self)
  have m1: "m1 = (\<lambda>a. if off a dst < unat n then m (uaddr m r va + (a - dst)) else m a)"
    unfolding m1_def uaddr_def [symmetric]
    by (subst memmove_eq) (use b n frame_no_wrap [OF sane ok] in \<open>auto simp: u kbuf_def\<close>)
  show "m1 (dst + of_nat j) = m (uaddr m r (va + of_nat j))" if "j < unat n" for j
    using uaddr_add(1) [of va j m r] n that unat_lt [of n] by (simp add: m1)
  show "m1 a = m a" if "unat n \<le> off a dst" for a using that by (simp add: m1)
qed

section \<open>Whole copies\<close>

text \<open>
  The part of the range before \<open>n\<close> is accessible and the rest starts at \<open>va + n\<close>: the shape of one
  iteration of either loop.
\<close>

lemma all_split:
  fixes va n :: uint64
  assumes "unat n \<le> L"
  shows "(\<forall>i < L. P (va + of_nat i)) \<longleftrightarrow> (\<forall>i < unat n. P (va + of_nat i)) \<and> (\<forall>i < L - unat n. P (va + n + of_nat i))"
proof -
  have e: "va + n + of_nat j = va + of_nat (unat n + j)" for j by (simp add: add.assoc)
  have "P (va + of_nat i)" if "\<forall>i < unat n. P (va + of_nat i)" "\<forall>i < L - unat n. P (va + of_nat (unat n + i))" "i < L" for i
    using that(1,3) spec [OF that(2), of "i - unat n"] by (cases "i < unat n") auto
  then show ?thesis unfolding e using assms by (intro iffI conjI allI impI) (auto simp del: of_nat_add)
qed

lemma kbuf_drop: "kbuf m r b L \<Longrightarrow> unat n \<le> L \<Longrightarrow> kbuf m r (b + n) (L - unat n)"
  using all_split [of n L "kaddr m r" b] by (auto simp: kbuf_def unat_plus_if')

lemma kbuf_take: "kbuf m r b L \<Longrightarrow> n \<le> L \<Longrightarrow> kbuf m r b n"
  by (auto simp: kbuf_def)

definition user_range :: "memory \<Rightarrow> uint64 \<Rightarrow> uint64 \<Rightarrow> nat \<Rightarrow> bool" where
  "user_range m r va L \<longleftrightarrow> (\<forall>i < L. user_ok m r (va + of_nat i))"

lemma user_range_page:
  assumes "unat va mod 4096 + unat n \<le> 4096" and "0 < unat n" and "unat n \<le> L"
  shows "user_range m r va L \<longleftrightarrow> user_ok m r va \<and> user_range m r (va + n) (L - unat n)"
proof -
  have "user_ok m r (va + of_nat i) = user_ok m r va" if "i < unat n" for i
    by (rule user_ok_add) (use assms(1) that in simp)
  then show ?thesis using all_split [OF assms(3), of "user_ok m r" va] assms(2) by (auto simp: user_range_def)
qed

text \<open>What a copy of \<open>L\<close> bytes to user memory leaves.\<close>

definition copied_out :: "memory \<Rightarrow> memory \<Rightarrow> uint64 \<Rightarrow> uint64 \<Rightarrow> uint64 \<Rightarrow> nat \<Rightarrow> bool" where
  "copied_out m m' r va src L \<longleftrightarrow> (\<forall>i < L. m' (uaddr m r (va + of_nat i)) = m (src + of_nat i)) \<and>
     (\<forall>a. (\<forall>i < L. a \<noteq> uaddr m r (va + of_nat i)) \<longrightarrow> m' a = m a)"

lemma uaddr_frame: "in_page (frame m r va) (uaddr m r va)"
  using uaddr_add(2) [of va 0 m r] by simp

lemma user_not_table:
  "uvm_sane m r \<Longrightarrow> user_ok m r va \<Longrightarrow> p \<in> pt_pages m r \<Longrightarrow> in_page p a \<Longrightarrow> a \<noteq> uaddr m r va"
proof
  assume a: "uvm_sane m r" "user_ok m r va" "p \<in> pt_pages m r" "in_page p a" "a = uaddr m r va"
  then have "aligned p" "frame m r va \<notin> pt_pages m r" unfolding uvm_sane_def pt_wf_def by blast+
  then show False using a(3-5) page_disjoint [of p "frame m r va" a] uaddr_frame [of m r va] by auto
qed

lemma copied_out_cong:
  assumes "uvm_sane m r" and "copied_out m m' r va src L" and "user_range m r va L" and "p \<in> pt_pages m r" "in_page p a"
  shows "m' a = m a"
proof -
  have "\<forall>i < L. a \<noteq> uaddr m r (va + of_nat i)"
    using user_not_table [OF assms(1) _ assms(4,5)] assms(3) by (simp add: user_range_def)
  then show ?thesis using assms(2) by (simp add: copied_out_def)
qed

lemma uaddr_inj:
  assumes sane: "uvm_sane m r" and "user_ok m r va" "user_ok m r vb" "uaddr m r va = uaddr m r vb"
  shows "va = vb"
proof -
  have "frame m r va = frame m r vb"
    using page_disjoint [OF aligned_frame aligned_frame, of m r va m r vb] uaddr_frame [of m r va] uaddr_frame [of m r vb] assms(4) by metis
  moreover from this have "PGROUNDDOWN va = PGROUNDDOWN vb" using sane assms(2,3) unfolding uvm_sane_def by blast
  ultimately show ?thesis using assms(4) by (simp add: uaddr_def)
qed

lemma copied_out_append:
  assumes sane: "uvm_sane m r" and rng: "user_range m r va L" and n: "unat n \<le> L" and wrap: "unat va + L < 2 ^ 64"
    and b: "kbuf m r src L"
    and 1: "copied_out m m1 r va src (unat n)" and 2: "copied_out m1 m2 r (va + n) (src + n) (L - unat n)"
  shows "copied_out m m2 r va src L"
proof -
  have r1: "user_range m r va (unat n)" using rng n by (simp add: user_range_def)
  have u: "uaddr m1 r = uaddr m r" by (rule user_cong(3) [OF sane copied_out_cong [OF sane 1 r1]])
  have e: "x + n + of_nat j = x + of_nat (unat n + j)" for x :: uint64 and j by (simp add: add.assoc)
  have ne: "uaddr m r (va + of_nat i) \<noteq> uaddr m r (va + of_nat j)" if "i < L" "j < L" "i \<noteq> j" for i j
  proof -
    have "va + of_nat i \<noteq> va + of_nat j" using that wrap by (metis add_left_cancel off_add add.commute add_lessD1 less_trans)
    then show ?thesis using uaddr_inj [OF sane] rng that unfolding user_range_def by blast
  qed
  have src: "m1 (src + of_nat i) = m (src + of_nat i)" if "i < L" for i
    using 1 b r1 that uaddr_frame unfolding copied_out_def kbuf_def kaddr_def user_byte_def user_range_def by metis
  have "m2 (uaddr m r (va + of_nat i)) = m (src + of_nat i)" if "i < L" for i
  proof (cases "i < unat n")
    case True
    then have "\<forall>j < L - unat n. uaddr m r (va + of_nat i) \<noteq> uaddr m r (va + of_nat (unat n + j))"
      using ne [OF that] by (auto simp del: of_nat_add)
    then have "m2 (uaddr m r (va + of_nat i)) = m1 (uaddr m r (va + of_nat i))"
      using 2 unfolding copied_out_def u e by blast
    then show ?thesis using 1 True by (simp add: copied_out_def)
  next
    case False
    then have "i - unat n < L - unat n" "unat n + (i - unat n) = i" using that by auto
    then show ?thesis using 2 src [OF that] unfolding copied_out_def u e by metis
  qed
  moreover have "m2 a = m a" if "\<forall>i < L. a \<noteq> uaddr m r (va + of_nat i)" for a
  proof -
    have "\<forall>i < unat n. a \<noteq> uaddr m r (va + of_nat i)" "\<forall>i < L - unat n. a \<noteq> uaddr m r (va + of_nat (unat n + i))"
      using that n by (auto simp del: of_nat_add)
    then show ?thesis using 1 2 unfolding copied_out_def u e by simp
  qed
  ultimately show ?thesis by (simp add: copied_out_def)
qed

text \<open>The number of bytes of one iteration, and where the next one starts.\<close>

definition chunk :: "uint64 \<Rightarrow> uint64 \<Rightarrow> uint64" where
  "chunk va len = (let n0 = PGSIZE - (va - PGROUNDDOWN va) in if n0 > len then len else n0)"

lemma chunk_bounds:
  assumes "len \<noteq> 0" and "unat va + unat len < 2 ^ 64" and "unat va mod 4096 + unat len \<le> 4096 * Suc k"
  shows "unat va mod 4096 + unat (chunk va len) \<le> 4096" "0 < unat (chunk va len)" "unat (chunk va len) \<le> unat len"
    "unat (len - chunk va len) = unat len - unat (chunk va len)"
    "unat (PGROUNDDOWN va + PGSIZE) mod 4096 + unat (len - chunk va len) \<le> 4096 * k"
    "unat (len - chunk va len) = 0 \<or> PGROUNDDOWN va + PGSIZE = va + chunk va len"
    "unat (PGROUNDDOWN va + PGSIZE) + unat (len - chunk va len) < 2 ^ 64"
proof -
  have len: "0 < unat len" using assms(1) by (simp add: unat_gt_0)
  have md: "unat va mod 4096 < 4096" by simp
  have c: "unat (chunk va len) = min (unat len) (4096 - unat va mod 4096)"
    using page_rest [of va] by (auto simp: chunk_def Let_def word_less_nat_alt min_def)
  show 1: "unat va mod 4096 + unat (chunk va len) \<le> 4096" "0 < unat (chunk va len)" "unat (chunk va len) \<le> unat len"
    using c len md by auto
  then show s: "unat (len - chunk va len) = unat len - unat (chunk va len)" by (intro unat_sub) (simp add: word_le_nat_alt)
  have al: "unat (PGROUNDDOWN va + PGSIZE) mod 4096 = 0"
    using unat_PGROUNDDOWN [of va] by (simp add: PGSIZE_def unat_word_ariths mod_mod_cancel)
  show "unat (PGROUNDDOWN va + PGSIZE) mod 4096 + unat (len - chunk va len) \<le> 4096 * k"
    using al s c assms(3) md by (auto simp: min_def)
  show e: "unat (len - chunk va len) = 0 \<or> PGROUNDDOWN va + PGSIZE = va + chunk va len"
    by (auto simp: chunk_def Let_def)
  then show "unat (PGROUNDDOWN va + PGSIZE) + unat (len - chunk va len) < 2 ^ 64"
  proof
    assume "PGROUNDDOWN va + PGSIZE = va + chunk va len"
    moreover have "unat (va + chunk va len) = unat va + unat (chunk va len)" using 1(3) assms(2) by (simp add: unat_plus_if')
    ultimately show ?thesis using s 1(3) assms(2) by simp
  qed (use unat_lt [of "PGROUNDDOWN va + PGSIZE"] in simp)
qed

lemma user_page: "user_ok m r (PGROUNDDOWN va) = user_ok m r va" "frame m r (PGROUNDDOWN va) = frame m r va"
proof -
  have m: "unat (PGROUNDDOWN va) mod 4096 + unat va mod 4096 < 4096" by (simp add: unat_PGROUNDDOWN)
  have e: "PGROUNDDOWN va + of_nat (unat va mod 4096) = va" by (simp flip: page_offset)
  show "user_ok m r (PGROUNDDOWN va) = user_ok m r va" using user_ok_add [OF m, of m r] e by simp
  show "frame m r (PGROUNDDOWN va) = frame m r va" by (simp add: frame_def leaf_page)
qed

lemma copyout_loop_ok:
  assumes "uvm_sane (mem s) r" and "kbuf (mem s) r src (unat len)" and "unat va + unat len < 2 ^ 64"
    and "unat va mod 4096 + unat len \<le> 4096 * k"
  shows "\<exists>m'. copyout_loop (Suc k) c s r va src len = Ok (s\<lparr>mem := m'\<rparr>, if user_range (mem s) r va (unat len) then 0 else -1) \<and>
    (user_range (mem s) r va (unat len) \<longrightarrow> copied_out (mem s) m' r va src (unat len)) \<and>
    (\<forall>a. \<not> user_byte (mem s) r a \<longrightarrow> m' a = mem s a)"
  using assms
proof (induction k arbitrary: s va src len)
  case 0
  then have "len = 0" by (simp add: unat_eq_zero)
  then show ?case by (auto simp: user_range_def copied_out_def intro: exI [of _ "mem s"])
next
  case (Suc k)
  let ?m = "mem s" and ?n = "chunk va len" and ?va = "PGROUNDDOWN va + PGSIZE"
  show ?case
  proof (cases "len = 0")
    case True
    then show ?thesis by (auto simp: user_range_def copied_out_def intro: exI [of _ "mem s"])
  next
    case False
    note cb = chunk_bounds [OF False Suc.prems(3,4)]
    have wf: "pt_wf ?m r" using Suc.prems(1) by (simp add: uvm_sane_def)
    have split: "user_range ?m r va (unat len) \<longleftrightarrow> user_ok ?m r va \<and> user_range ?m r ?va (unat (len - ?n))"
      using user_range_page [OF cb(1-3), of ?m r] cb(4,6) by (auto simp: user_range_def)
    have pos: "len > 0" using False by (simp add: word_gt_0)
    have wa: "walkaddr c s r (PGROUNDDOWN va) = Ok (if user_ok ?m r va then frame ?m r va else 0)"
      using walkaddr_eq [OF wf] user_page [of ?m r va] by simp
    show ?thesis
    proof (cases "user_ok ?m r va")
      case no: False
      then have "copyout_loop (Suc (Suc k)) c s r va src len = Ok (s, -1)"
        using pos wa by (subst copyout_loop.simps(2)) simp
      then show ?thesis using split no by (auto intro: exI [of _ ?m])
    next
      case ok: True
      define m1 where "m1 = memmove ?m (frame ?m r va + (va - PGROUNDDOWN va)) src (ucast ?n)"
      let ?s = "s\<lparr>mem := m1\<rparr>"
      have nz: "frame ?m r va \<noteq> 0" using ok by (simp add: user_ok_def)
      have run: "copyout_loop (Suc (Suc k)) c s r va src len = copyout_loop (Suc k) c ?s r ?va (src + ?n) (len - ?n)"
        using pos wa ok nz unfolding m1_def chunk_def by (subst copyout_loop.simps(2)) (simp add: Let_def)
      have b: "kbuf ?m r src (unat ?n)" by (rule kbuf_take [OF Suc.prems(2) cb(3)])
      have c1: "copied_out ?m m1 r va src (unat ?n)"
        using copyout_page [OF Suc.prems(1) ok cb(1) b] unfolding m1_def copied_out_def by blast
      have r1: "user_range ?m r va (unat ?n)" using user_range_page [OF cb(1,2), of "unat ?n" ?m r] ok by (simp add: user_range_def)
      note uc = user_cong [OF Suc.prems(1) copied_out_cong [OF Suc.prems(1) c1 r1]]
      obtain m' where m': "copyout_loop (Suc k) c ?s r ?va (src + ?n) (len - ?n) =
          Ok (?s\<lparr>mem := m'\<rparr>, if user_range m1 r ?va (unat (len - ?n)) then 0 else -1)"
        "user_range m1 r ?va (unat (len - ?n)) \<longrightarrow> copied_out m1 m' r ?va (src + ?n) (unat (len - ?n))"
        "\<forall>a. \<not> user_byte m1 r a \<longrightarrow> m' a = m1 a"
        using Suc.IH [of ?s "src + ?n" "len - ?n" ?va] uc(4,5) cb(5,7) kbuf_drop [OF Suc.prems(2) cb(3)] cb(4) by auto
      have ur: "user_range m1 r = user_range ?m r" by (intro ext) (simp add: user_range_def uc(1))
      have "copied_out ?m m' r va src (unat len)" if rng: "user_range ?m r va (unat len)"
      proof (rule copied_out_append [OF Suc.prems(1) rng cb(3) Suc.prems(3,2) c1])
        have "copied_out m1 m' r ?va (src + ?n) (unat (len - ?n))" using m'(2) rng split ur by simp
        then show "copied_out m1 m' r (va + ?n) (src + ?n) (unat len - unat ?n)"
          using cb(4,6) by (auto simp: copied_out_def)
      qed
      moreover have "m1 a = ?m a" if "\<not> user_byte ?m r a" for a
        using c1 r1 that uaddr_frame unfolding copied_out_def user_byte_def user_range_def by metis
      ultimately show ?thesis using run m' ur uc(7) split ok by auto
    qed
  qed
qed

definition copied_in :: "memory \<Rightarrow> memory \<Rightarrow> uint64 \<Rightarrow> uint64 \<Rightarrow> uint64 \<Rightarrow> nat \<Rightarrow> bool" where
  "copied_in m m' r dst va L \<longleftrightarrow> (\<forall>i < L. m' (dst + of_nat i) = m (uaddr m r (va + of_nat i))) \<and>
     (\<forall>a. L \<le> off a dst \<longrightarrow> m' a = m a)"

lemma copied_in_out:
  assumes "copied_in m m' r dst va L" and b: "kbuf m r dst L" and "\<not> kaddr m r a"
  shows "m' a = m a"
proof -
  have "\<not> off a dst < L" using b assms(3) off_base [of a dst] unfolding kbuf_def by metis
  then show ?thesis using assms(1) by (simp add: copied_in_def)
qed

lemma not_kaddr: "p \<in> pt_pages m r \<Longrightarrow> in_page p a \<Longrightarrow> \<not> kaddr m r a" "user_ok m r va \<Longrightarrow> \<not> kaddr m r (uaddr m r va)"
  using uaddr_frame by (auto simp: kaddr_def user_byte_def)

lemma copied_in_append:
  assumes sane: "uvm_sane m r" and rng: "user_range m r va L" and n: "unat n \<le> L" and b: "kbuf m r dst L"
    and 1: "copied_in m m1 r dst va (unat n)" and 2: "copied_in m1 m2 r (dst + n) (va + n) (L - unat n)"
  shows "copied_in m m2 r dst va L"
proof -
  note same = copied_in_out [OF 1 kbuf_take [OF b n]]
  have u: "uaddr m1 r = uaddr m r" by (rule user_cong(3) [OF sane]) (rule same, rule not_kaddr(1))
  have e: "x + n + of_nat j = x + of_nat (unat n + j)" for x :: uint64 and j by (simp add: add.assoc)
  have L: "unat dst + L < 2 ^ 64" using b by (simp add: kbuf_def)
  have o: "L - unat n \<le> off a (dst + n)" if "off a dst < unat n \<or> L \<le> off a dst" for a
  proof -
    have "unat (dst + n) = unat dst + unat n" using L n by (simp add: unat_plus_if')
    then show ?thesis using that L n unat_lt [of a] unfolding off_unat by (auto split: if_splits)
  qed
  have "m2 (dst + of_nat i) = m (uaddr m r (va + of_nat i))" if i: "i < L" for i
  proof (cases "i < unat n")
    case True
    then have "m2 (dst + of_nat i) = m1 (dst + of_nat i)" using 2 o [of "dst + of_nat i"] i L by (simp add: copied_in_def)
    then show ?thesis using 1 True by (simp add: copied_in_def)
  next
    case False
    then have "i - unat n < L - unat n" "unat n + (i - unat n) = i" using i by auto
    then have "m2 (dst + of_nat i) = m1 (uaddr m r (va + of_nat i))" using 2 unfolding copied_in_def u e by metis
    then show ?thesis using same not_kaddr(2) rng i by (simp add: user_range_def)
  qed
  moreover have "m2 a = m a" if "L \<le> off a dst" for a
    using 1 2 o [of a] that n by (simp add: copied_in_def)
  ultimately show ?thesis by (simp add: copied_in_def)
qed

lemma copyin_loop_ok:
  assumes "uvm_sane (mem s) r" and "kbuf (mem s) r dst (unat len)" and "unat va + unat len < 2 ^ 64"
    and "unat va mod 4096 + unat len \<le> 4096 * k"
  shows "\<exists>m'. copyin_loop (Suc k) c s r dst va len = Ok (s\<lparr>mem := m'\<rparr>, if user_range (mem s) r va (unat len) then 0 else -1) \<and>
    (user_range (mem s) r va (unat len) \<longrightarrow> copied_in (mem s) m' r dst va (unat len)) \<and>
    (\<forall>a. \<not> kaddr (mem s) r a \<longrightarrow> m' a = mem s a)"
  using assms
proof (induction k arbitrary: s va dst len)
  case 0
  then have "len = 0" by (simp add: unat_eq_zero)
  then show ?case by (auto simp: user_range_def copied_in_def intro: exI [of _ "mem s"])
next
  case (Suc k)
  let ?m = "mem s" and ?n = "chunk va len" and ?va = "PGROUNDDOWN va + PGSIZE"
  show ?case
  proof (cases "len = 0")
    case True
    then show ?thesis by (auto simp: user_range_def copied_in_def intro: exI [of _ "mem s"])
  next
    case False
    note cb = chunk_bounds [OF False Suc.prems(3,4)]
    have wf: "pt_wf ?m r" using Suc.prems(1) by (simp add: uvm_sane_def)
    have split: "user_range ?m r va (unat len) \<longleftrightarrow> user_ok ?m r va \<and> user_range ?m r ?va (unat (len - ?n))"
      using user_range_page [OF cb(1-3), of ?m r] cb(4,6) by (auto simp: user_range_def)
    have pos: "len > 0" using False by (simp add: word_gt_0)
    have wa: "walkaddr c s r (PGROUNDDOWN va) = Ok (if user_ok ?m r va then frame ?m r va else 0)"
      using walkaddr_eq [OF wf] user_page [of ?m r va] by simp
    show ?thesis
    proof (cases "user_ok ?m r va")
      case no: False
      then have "copyin_loop (Suc (Suc k)) c s r dst va len = Ok (s, -1)"
        using pos wa by (subst copyin_loop.simps(2)) simp
      then show ?thesis using split no by (auto intro: exI [of _ ?m])
    next
      case ok: True
      define m1 where "m1 = memmove ?m dst (frame ?m r va + (va - PGROUNDDOWN va)) (ucast ?n)"
      let ?s = "s\<lparr>mem := m1\<rparr>"
      have nz: "frame ?m r va \<noteq> 0" using ok by (simp add: user_ok_def)
      have run: "copyin_loop (Suc (Suc k)) c s r dst va len = copyin_loop (Suc k) c ?s r (dst + ?n) ?va (len - ?n)"
        using pos wa ok nz unfolding m1_def chunk_def by (subst copyin_loop.simps(2)) (simp add: Let_def)
      have b: "kbuf ?m r dst (unat ?n)" by (rule kbuf_take [OF Suc.prems(2) cb(3)])
      have c1: "copied_in ?m m1 r dst va (unat ?n)"
        using copyin_page [OF Suc.prems(1) ok cb(1) b] unfolding m1_def copied_in_def by blast
      note same = copied_in_out [OF c1 b]
      have uc: "user_ok m1 r = user_ok ?m r" "uvm_sane m1 r" "kbuf m1 r = kbuf ?m r" "kaddr m1 r = kaddr ?m r"
        using user_cong [OF Suc.prems(1), of m1] same not_kaddr(1) by blast+
      obtain m' where m': "copyin_loop (Suc k) c ?s r (dst + ?n) ?va (len - ?n) =
          Ok (?s\<lparr>mem := m'\<rparr>, if user_range m1 r ?va (unat (len - ?n)) then 0 else -1)"
        "user_range m1 r ?va (unat (len - ?n)) \<longrightarrow> copied_in m1 m' r (dst + ?n) ?va (unat (len - ?n))"
        "\<forall>a. \<not> kaddr m1 r a \<longrightarrow> m' a = m1 a"
        using Suc.IH [of ?s "dst + ?n" "len - ?n" ?va] uc(2,3) cb(5,7) kbuf_drop [OF Suc.prems(2) cb(3)] cb(4) by auto
      have ur: "user_range m1 r = user_range ?m r" by (intro ext) (simp add: user_range_def uc(1))
      have "copied_in ?m m' r dst va (unat len)" if rng: "user_range ?m r va (unat len)"
      proof (rule copied_in_append [OF Suc.prems(1) rng cb(3) Suc.prems(2) c1])
        have "copied_in m1 m' r (dst + ?n) ?va (unat (len - ?n))" using m'(2) rng split ur by simp
        then show "copied_in m1 m' r (dst + ?n) (va + ?n) (unat len - unat ?n)"
          using cb(4,6) by (auto simp: copied_in_def)
      qed
      then show ?thesis using run m' ur uc(4) split ok same by auto
    qed
  qed
qed

text \<open>The fuel of both loops is one more than the pages a range of this length can touch.\<close>

lemma copy_fuel: "unat va mod 4096 + unat len \<le> 4096 * (unat len div 4096 + 2)"
proof -
  have "unat len < 4096 + 4096 * (unat len div 4096)" by (rule dividend_less_times_div) simp
  moreover have "unat va mod 4096 < 4096" by simp
  ultimately show ?thesis by simp
qed

lemma copyout_ok:
  assumes "uvm_sane (mem s) r" and "kbuf (mem s) r src (unat len)" and "unat va + unat len < 2 ^ 64"
  shows "\<exists>m'. copyout c s r va src len = Ok (s\<lparr>mem := m'\<rparr>, if user_range (mem s) r va (unat len) then 0 else -1) \<and>
    (user_range (mem s) r va (unat len) \<longrightarrow> copied_out (mem s) m' r va src (unat len)) \<and>
    (\<forall>a. \<not> user_byte (mem s) r a \<longrightarrow> m' a = mem s a)"
proof -
  have "unat len div 4096 + 3 = Suc (unat len div 4096 + 2)" by simp
  then show ?thesis unfolding copyout_def using copyout_loop_ok [OF assms copy_fuel] by metis
qed

lemma copyin_ok:
  assumes "uvm_sane (mem s) r" and "kbuf (mem s) r dst (unat len)" and "unat va + unat len < 2 ^ 64"
  shows "\<exists>m'. copyin c s r dst va len = Ok (s\<lparr>mem := m'\<rparr>, if user_range (mem s) r va (unat len) then 0 else -1) \<and>
    (user_range (mem s) r va (unat len) \<longrightarrow> copied_in (mem s) m' r dst va (unat len)) \<and>
    (\<forall>a. \<not> kaddr (mem s) r a \<longrightarrow> m' a = mem s a)"
proof -
  have "unat len div 4096 + 3 = Suc (unat len div 4096 + 2)" by simp
  then show ?thesis unfolding copyin_def using copyin_loop_ok [OF assms copy_fuel] by metis
qed

end
