(* ===== verification/Vm_Props.thy ===== *)
theory Vm_Props
  imports Vm_Copy
begin

text \<open>
  What the virtual memory code guarantees: \<^verbatim>\<open>mappages\<close> installs the mapping it is asked for and
  nothing else, and a copy to user memory reads back unchanged.
\<close>

section \<open>Mapping a range\<close>

lemma less_page: "x < 4096 * Suc (x div 4096)"
  using dividend_less_times_div [of 4096 x] by simp

lemma range_pages:
  assumes "sz \<noteq> 0" and "unat va + unat sz \<le> 2 ^ 38"
  shows "PGROUNDDOWN va \<le> PGROUNDDOWN (va + sz - 1)" and "PGROUNDDOWN (va + sz - 1) < MAXVA"
    and "unat (va + sz - 1) = unat va + unat sz - 1"
proof -
  have pos: "0 < unat sz" using assms(1) by (simp add: unat_gt_0)
  have "unat (va + sz) = unat va + unat sz" using assms(2) by (simp add: unat_plus_if')
  moreover have "va + sz \<noteq> 0" using calculation pos by (auto simp: word_unat_eq_iff)
  ultimately show u: "unat (va + sz - 1) = unat va + unat sz - 1" by (simp add: unat_minus_one)
  then show "PGROUNDDOWN va \<le> PGROUNDDOWN (va + sz - 1)"
    using pos by (simp add: word_le_nat_alt unat_PGROUNDDOWN div_le_mono)
  have "4096 * (x div 4096) \<le> x" for x :: nat by simp
  then have "unat (PGROUNDDOWN (va + sz - 1)) \<le> unat va + unat sz - 1" unfolding unat_PGROUNDDOWN u .
  then show "PGROUNDDOWN (va + sz - 1) < MAXVA" using assms(2) pos by (simp add: word_less_nat_alt unat_MAXVA)
qed

lemma below_next_page: "aligned p \<Longrightarrow> aligned q \<Longrightarrow> p < MAXVA \<Longrightarrow> q < p + PGSIZE \<longleftrightarrow> q \<le> p"
  using aligned_next(4) [of p q] page_below_MAXVA [of p] by (meson le_less_trans not_less order_less_imp_not_less)

lemma mapped_to_range:
  assumes "mapped_to m m' r a (lst + PGSIZE) pa perm" and "aligned lst" and "lst < MAXVA" and "u < MAXVA"
  shows "leaf m' r u = (if a \<le> PGROUNDDOWN u \<and> PGROUNDDOWN u \<le> lst then new_pte a pa perm u else leaf m r u)"
  using assms(1,4) below_next_page [OF assms(2) aligned_PGROUNDDOWN assms(3), of u] by (simp add: mapped_to_def)

lemma aligned_diff: "aligned a \<Longrightarrow> aligned b \<Longrightarrow> aligned c \<Longrightarrow> aligned (a + (b - c))"
proof -
  have "aligned x \<longleftrightarrow> 4096 dvd uint x" for x :: uint64
    by (simp add: aligned_def PGSIZE_def word_uint_eq_iff uint_mod dvd_eq_mod_eq_0)
  then show "aligned a \<Longrightarrow> aligned b \<Longrightarrow> aligned c \<Longrightarrow> aligned (a + (b - c))"
    by (simp add: uint_word_ariths dvd_mod)
qed

lemma PTE2PA_new: "aligned a \<Longrightarrow> aligned pa \<Longrightarrow> flag_bits perm \<Longrightarrow> PTE2PA (new_pte a pa perm u) = pa + (PGROUNDDOWN u - a)"
  unfolding new_pte_def by (rule PTE2PA_PA2PTE) (auto intro: aligned_diff)

lemma new_pte_valid: "new_pte a pa perm u AND PTE_V \<noteq> 0"
  unfolding new_pte_def PTE_V_mask by (simp add: bit_simps PTE_V_def)

text \<open>Mapping a page that is mapped already panics.\<close>

lemma mappages_remap:
  assumes ok: "vm_ok c s r xs" and sz: "sz \<noteq> 0" "unat va + unat sz \<le> 2 ^ 38" and v: "leaf (mem s) r va AND PTE_V \<noteq> 0"
  shows "mappages c s r va sz pa perm = Panic ''mappages: remap''"
proof -
  let ?a = "PGROUNDDOWN va"
  have a: "?a < MAXVA" using range_pages(1,2) [OF sz] by (rule le_less_trans)
  obtain s1 ys where 1: "walk c s r ?a True = Ok (s1, leaf_ptr (mem s1) r ?a)" "vm_step c r s xs s1 ys"
    "\<forall>u. leaf (mem s1) r u = leaf (mem s) r u" using walk_alloc [OF ok a] by metis
  have v1: "leaf (mem s1) r ?a AND PTE_V \<noteq> 0" using 1(3) v by (simp add: leaf_page)
  then have t: "tbl (mem s1) r (vpath ?a) \<noteq> None" by (auto simp: leaf_def split: option.splits)
  moreover have "pt_wf (mem s1) r" using 1(2) by (simp add: vm_step_def vm_ok_def)
  ultimately have "leaf_ptr (mem s1) r ?a \<noteq> 0" by (simp add: leaf_ptr_nonzero)
  then show ?thesis using 1(1) v1 load_leaf_ptr [OF t] sz(1) by (simp add: mappages_def Let_def)
qed

text \<open>
  C12. \<^verbatim>\<open>mappages\<close> on a range that is not mapped yet. It returns 0 or -1, and -1 only if fewer than two
  free pages per page of the range were available. The page table stays a well-formed tree of distinct
  pages that are not on the free list, and no byte outside its tables changes. On 0, exactly the pages
  of the range are mapped, the page of \<open>u\<close> to \<open>pa\<close> plus its distance from the start of the range, with
  the permissions given, and a second call on the range panics. A size of 0 panics.
\<close>

theorem mappages_correct:
  assumes "vm_ok c s r xs" and "sz \<noteq> 0" and "unat va + unat sz \<le> 2 ^ 38" and "aligned pa" and "flag_bits perm"
    and "unmapped (mem s) r (PGROUNDDOWN va) (PGROUNDDOWN (va + sz - 1))"
  shows "(\<exists>s' ys k. mappages c s r va sz pa perm = Ok (s', k) \<and> vm_step c r s xs s' ys \<and>
      (k = 0 \<or> k = -1 \<and> length xs < 2 * ((unat (PGROUNDDOWN (va + sz - 1)) - unat (PGROUNDDOWN va)) div 4096 + 1)) \<and>
      (k = 0 \<longrightarrow> (\<forall>u < MAXVA.
         if PGROUNDDOWN va \<le> PGROUNDDOWN u \<and> PGROUNDDOWN u \<le> PGROUNDDOWN (va + sz - 1)
         then PTE2PA (leaf (mem s') r u) = pa + (PGROUNDDOWN u - PGROUNDDOWN va) \<and>
           leaf (mem s') r u = (PA2PTE (pa + (PGROUNDDOWN u - PGROUNDDOWN va)) OR perm OR PTE_V)
         else leaf (mem s') r u = leaf (mem s) r u) \<and>
         mappages c s' r va sz pa perm = Panic ''mappages: remap'')) \<and>
    mappages c s r va 0 pa perm = Panic ''mappages: size''"
proof -
  let ?a = "PGROUNDDOWN va" and ?l = "PGROUNDDOWN (va + sz - 1)"
  note rp = range_pages [OF assms(2,3)]
  have o: "off ?l ?a = unat ?l - unat ?a" using unat_sub [OF rp(1)] by (simp add: off_def)
  have f: "unat ?l - unat ?a < 4096 * Suc (off ?l ?a div 4096)" unfolding o by (rule less_page)
  obtain s' ys k stop where m: "mappages_loop (Suc (off ?l ?a div 4096)) c s r ?a ?l pa perm = Ok (s', k)" "vm_step c r s xs s' ys"
    "mapped_to (mem s) (mem s') r ?a stop pa perm"
    "if k = 0 then stop = ?l + PGSIZE else k = -1 \<and> stop \<le> ?l \<and> length xs < 2 * ((unat ?l - unat ?a) div 4096 + 1)"
    using mappages_loop_ok [OF assms(1) aligned_PGROUNDDOWN aligned_PGROUNDDOWN rp(1,2) f assms(6)] by blast
  have run: "mappages c s r va sz pa perm = Ok (s', k)" using m(1) assms(2) by (simp add: mappages_def Let_def)
  have lf: "leaf (mem s') r u = (if ?a \<le> PGROUNDDOWN u \<and> PGROUNDDOWN u \<le> ?l then new_pte ?a pa perm u else leaf (mem s) r u)"
    if "k = 0" "u < MAXVA" for u
    using mapped_to_range [OF _ aligned_PGROUNDDOWN rp(2) that(2)] m(3,4) that(1) by simp
  have again: "mappages c s' r va sz pa perm = Panic ''mappages: remap''" if "k = 0"
  proof (rule mappages_remap [OF _ assms(2,3)])
    have "va < MAXVA" using assms(2,3) by (simp add: word_less_nat_alt unat_MAXVA unat_gt_0 order_less_le_trans [of "unat va" "unat va + unat sz"])
    then show "leaf (mem s') r va AND PTE_V \<noteq> 0" using lf [OF that] rp(1) new_pte_valid by simp
    show "vm_ok c s' r ys" using m(2) by (simp add: vm_step_def)
  qed
  have "k = 0 \<or> k = -1 \<and> length xs < 2 * ((unat ?l - unat ?a) div 4096 + 1)" using m(4) by (auto split: if_splits)
  moreover have "if ?a \<le> PGROUNDDOWN u \<and> PGROUNDDOWN u \<le> ?l
      then PTE2PA (leaf (mem s') r u) = pa + (PGROUNDDOWN u - ?a) \<and> leaf (mem s') r u = (PA2PTE (pa + (PGROUNDDOWN u - ?a)) OR perm OR PTE_V)
      else leaf (mem s') r u = leaf (mem s) r u" if "k = 0" "u < MAXVA" for u
    using lf [OF that] PTE2PA_new [OF aligned_PGROUNDDOWN assms(4,5), of va u]
    by (cases "?a \<le> PGROUNDDOWN u \<and> PGROUNDDOWN u \<le> ?l") (simp_all only: new_pte_def if_True if_False simp_thms)
  moreover have "mappages c s r va 0 pa perm = Panic ''mappages: size''" by (simp add: mappages_def)
  ultimately show ?thesis using run m(2) again by blast
qed

section \<open>Copies\<close>

text \<open>
  C13. A copy to user memory reads back. In an address space whose frames are private, \<^verbatim>\<open>copyout\<close> of a
  kernel buffer followed by \<^verbatim>\<open>copyin\<close> from the same user range to another buffer leaves the same bytes
  there, whatever the pages the range crosses. Both return 0 exactly if every address of the range is
  mapped for user access, and -1 otherwise, and \<^verbatim>\<open>copyout\<close> changes no byte outside the user's frames.
\<close>

theorem copy_round_trip:
  assumes "uvm_sane (mem s) r" and "kbuf (mem s) r src (unat len)" and "kbuf (mem s) r dst (unat len)"
    and "unat va + unat len < 2 ^ 64"
  shows "\<exists>s1 s2 k. copyout c s r va src len = Ok (s1, k) \<and> copyin c s1 r dst va len = Ok (s2, k) \<and>
    k = (if user_range (mem s) r va (unat len) then 0 else -1) \<and>
    (k = 0 \<longrightarrow> bytes (mem s2) dst (unat len) = bytes (mem s) src (unat len)) \<and>
    (\<forall>a. \<not> user_byte (mem s) r a \<longrightarrow> mem s1 a = mem s a)"
proof -
  let ?m = "mem s" and ?L = "unat len"
  obtain m1 where 1: "copyout c s r va src len = Ok (s\<lparr>mem := m1\<rparr>, if user_range ?m r va ?L then 0 else -1)"
    "user_range ?m r va ?L \<longrightarrow> copied_out ?m m1 r va src ?L" "\<forall>a. \<not> user_byte ?m r a \<longrightarrow> m1 a = ?m a"
    using copyout_ok [OF assms(1,2,4)] by blast
  have "\<not> user_byte ?m r a" if "p \<in> pt_pages ?m r" "in_page p a" for p a
    using that assms(1) page_disjoint [OF _ aligned_frame] unfolding user_byte_def uvm_sane_def pt_wf_def by metis
  then have uc: "user_ok m1 r = user_ok ?m r" "uaddr m1 r = uaddr ?m r" "uvm_sane m1 r" "kbuf m1 r = kbuf ?m r"
    using user_cong [OF assms(1), of m1] 1(3) by blast+
  have ur: "user_range m1 r = user_range ?m r" by (intro ext) (simp add: user_range_def uc(1))
  have sane: "uvm_sane (mem (s\<lparr>mem := m1\<rparr>)) r" "kbuf (mem (s\<lparr>mem := m1\<rparr>)) r dst ?L" using uc(3,4) assms(3) by simp_all
  obtain m2 where 2: "copyin c (s\<lparr>mem := m1\<rparr>) r dst va len = Ok (s\<lparr>mem := m2\<rparr>, if user_range ?m r va ?L then 0 else -1)"
    "user_range ?m r va ?L \<longrightarrow> copied_in m1 m2 r dst va ?L"
    using copyin_ok [OF sane assms(4), of c] ur by auto
  have "bytes m2 dst ?L = bytes ?m src ?L" if "user_range ?m r va ?L"
    using 1(2) 2(2) that uc(2) by (auto simp: copied_in_def copied_out_def bytes_def)
  then show ?thesis using 1(1,3) 2(1) by auto
qed

section \<open>An address space\<close>

text \<open>
  Three tables, one user frame at virtual address 0, two free pages, and some bytes below the first page.
\<close>

definition demo_base :: memory where
  "demo_base a = (if a < 4096 then ucast a else 0)"

definition demo_mem :: memory where
  "demo_mem = store64 (store64 (store64 (store64 demo_base 0x80005000 0x80006000)
     0x80001000 (PA2PTE 0x80002000 OR PTE_V)) 0x80002000 (PA2PTE 0x80003000 OR PTE_V))
     0x80003000 (PA2PTE 0x80004000 OR PTE_R OR PTE_W OR PTE_U OR PTE_V)"

lemma demo_aligned: "aligned 0x80001000" "aligned 0x80002000" "aligned 0x80003000" "aligned 0x80005000" "aligned 0x80006000"
  by (simp_all add: aligned_def PGSIZE_def)

lemma load_base: "aligned p \<Longrightarrow> 4096 \<le> p \<Longrightarrow> i < 512 \<Longrightarrow> load64 demo_base (pte_addr p i) = 0"
proof -
  assume a: "aligned p" "4096 \<le> p" "i < 512"
  have "load64 demo_base (pte_addr p i) = load64 (\<lambda>a. 0) (pte_addr p i)"
  proof (rule load64_cong)
    fix k :: nat assume "k < 8"
    then have "unat (pte_addr p i + of_nat k) \<ge> 4096" using unat_pte [OF a(1,3)] a(2) by (simp add: word_le_nat_alt)
    then show "demo_base (pte_addr p i + of_nat k) = 0" by (simp add: demo_base_def word_less_nat_alt)
  qed
  then show ?thesis by (simp add: load64_zero)
qed

lemma load_store_pte:
  assumes "aligned p" "aligned q" "j < 512"
  shows "load64 (store64 m p v) (pte_addr q j) = (if p = q \<and> j = 0 then v else load64 m (pte_addr q j))"
proof (cases "p = q \<and> j = 0")
  case True
  then show ?thesis using load_store [of m p v] by (simp add: pte_addr_def)
next
  case False
  then have "(p, 0) \<noteq> (q, j)" by auto
  then show ?thesis using load_pte_other [OF assms(1,2) _ assms(3), of 0 m v] False by (auto simp: pte_addr_def)
qed

lemma demo_load:
  assumes "aligned q" "j < 512" "4096 \<le> q"
  shows "load64 demo_mem (pte_addr q j) =
    (if j \<noteq> 0 then 0 else if q = 0x80003000 then PA2PTE 0x80004000 OR PTE_R OR PTE_W OR PTE_U OR PTE_V
     else if q = 0x80002000 then PA2PTE 0x80003000 OR PTE_V else if q = 0x80001000 then PA2PTE 0x80002000 OR PTE_V
     else if q = 0x80005000 then 0x80006000 else 0)"
  unfolding demo_mem_def using assms by (simp add: load_store_pte demo_aligned load_base)

lemma demo_tbl:
  assumes "path \<pi>"
  shows "tbl demo_mem 0x80001000 \<pi> = (if \<pi> = [] then Some 0x80001000 else if \<pi> = [0] then Some 0x80002000
    else if \<pi> = [0, 0] then Some 0x80003000 else None)"
proof -
  have e: "pentry demo_mem 0x80001000 i = (if i = 0 then Some 0x80002000 else None)"
    "pentry demo_mem 0x80002000 i = (if i = 0 then Some 0x80003000 else None)" if "i < 512" for i
    using demo_load [OF demo_aligned(1) that] demo_load [OF demo_aligned(2) that]
    by (auto simp: pentry_def PTE_V_def PTE2PA_def PA2PTE_def)
  show ?thesis
  proof (cases \<pi>)
    case (Cons i \<rho>)
    have i: "i < 512" using assms Cons by (simp add: path_def)
    show ?thesis
    proof (cases \<rho>)
      case Nil
      then show ?thesis using Cons e(1) [OF i] by simp
    next
      case (Cons j \<sigma>)
      then have "j < 512" "\<sigma> = []" using assms \<open>\<pi> = i # \<rho>\<close> by (auto simp: path_def)
      then show ?thesis using \<open>\<pi> = i # \<rho>\<close> Cons e(1) [OF i] e(2) [of j] by (cases "i = 0"; cases "j = 0") simp_all
    qed
  qed simp
qed

lemma demo_pages: "pt_pages demo_mem 0x80001000 = {0x80001000, 0x80002000, 0x80003000}" and demo_wf: "pt_wf demo_mem 0x80001000"
proof -
  have p: "path []" "path [0]" "path [0, 0]" by (simp_all add: path_def)
  show pp: "pt_pages demo_mem 0x80001000 = {0x80001000, 0x80002000, 0x80003000}" (is "?L = ?R")
  proof
    show "?L \<subseteq> ?R" using demo_tbl by (auto simp: pt_pages_def split: if_splits)
    have "tbl demo_mem 0x80001000 [] = Some 0x80001000" by simp
    then show "?R \<subseteq> ?L"
      using pt_pagesI [OF p(1)] pt_pagesI [OF p(2), of demo_mem] pt_pagesI [OF p(3), of demo_mem] demo_tbl [OF p(2)] demo_tbl [OF p(3)] by simp
  qed
  have "\<pi> = \<rho>" if "path \<pi>" "path \<rho>" "tbl demo_mem 0x80001000 \<pi> = Some q" "tbl demo_mem 0x80001000 \<rho> = Some q" for \<pi> \<rho> q
    using demo_tbl [OF that(1)] demo_tbl [OF that(2)] that(3,4) by (auto split: if_splits)
  then show "pt_wf demo_mem 0x80001000" unfolding pt_wf_def pp using demo_aligned by (intro conjI allI impI) auto
qed

lemma demo_leaf:
  assumes "va < MAXVA"
  shows "leaf demo_mem 0x80001000 va = (if va < 4096 then PA2PTE 0x80004000 OR PTE_R OR PTE_W OR PTE_U OR PTE_V else 0)"
proof -
  have small: "PGROUNDDOWN va = 0 \<longleftrightarrow> va < 4096" by (auto simp: word_unat_eq_iff unat_PGROUNDDOWN word_less_nat_alt)
  have z: "PX l 0 = 0" for l by (simp add: PX_def)
  have "vpath va = [0, 0] \<and> PX 0 va = 0 \<longleftrightarrow> va < 4096"
  proof
    assume "vpath va = [0, 0] \<and> PX 0 va = 0"
    then have "PGROUNDDOWN va = PGROUNDDOWN 0"
      by (intro PX_inj) (use assms z in \<open>auto simp: vpath_def MAXVA_def\<close>)
    then show "va < 4096" using small by (simp add: PGROUNDDOWN_def)
  next
    assume "va < 4096"
    then show "vpath va = [0, 0] \<and> PX 0 va = 0" using small PX_page [of _ va] z by (metis vpath_def)
  qed
  moreover have "vpath va \<noteq> []" "vpath va \<noteq> [0]" by (simp_all add: vpath_def)
  ultimately show ?thesis
    using demo_tbl [OF path_va(1), of va] demo_load [OF demo_aligned(3) PX_less, of 0 va] by (auto simp: leaf_def)
qed

definition demo_vm :: kstate where
  "demo_vm = boot_kstate\<lparr>mem := demo_mem, freelist := 0x80005000, kend := KERNBASE\<rparr>"

lemma demo_vm_ok: "vm_ok 0 demo_vm 0x80001000 [0x80005000, 0x80006000]"
proof -
  have "load64 demo_mem 0x80005000 = 0x80006000" "load64 demo_mem 0x80006000 = 0"
    using demo_load [OF demo_aligned(4), of 0] demo_load [OF demo_aligned(5), of 0] by (simp_all add: pte_addr_def)
  then have "kmem_ok 0 demo_vm [0x80005000, 0x80006000]"
    using demo_aligned by (simp add: demo_vm_def kmem_ok_def boot_kstate_def page_ok_def layout_defs demo_cpu_def cpu_ok_def
      demo_lock_def lock_free_def)
  then show ?thesis using demo_wf demo_pages by (simp add: vm_ok_def demo_vm_def)
qed

theorem mappages_correct_witness:
  "\<exists>s'. mappages 0 demo_vm 0x80001000 0x1000 0x1000 0x80007000 (PTE_R OR PTE_W) = Ok (s', 0) \<and>
     PTE2PA (leaf (mem s') 0x80001000 0x1000) = 0x80007000 \<and> PTE2PA (leaf (mem s') 0x80001000 0x0) = 0x80004000"
proof -
  let ?r = "0x80001000 :: uint64" and ?va = "0x1000 :: uint64"
  have pg: "PGROUNDDOWN ?va = 0x1000" "PGROUNDDOWN (?va + 0x1000 - 1) = 0x1000" "PGROUNDDOWN 0 = 0"
    by (simp_all add: PGROUNDDOWN_def PGSIZE_def)
  have "leaf demo_mem ?r u = 0" if "u < MAXVA" "0x1000 \<le> PGROUNDDOWN u" for u
  proof -
    have "\<not> u < 4096" using that(2) by (auto simp: word_le_nat_alt word_less_nat_alt unat_PGROUNDDOWN)
    then show ?thesis using demo_leaf [OF that(1)] by simp
  qed
  then have "unmapped (mem demo_vm) ?r (PGROUNDDOWN ?va) (PGROUNDDOWN (?va + 0x1000 - 1))"
    unfolding pg by (auto simp: unmapped_def demo_vm_def)
  then obtain s' ys k where k: "mappages 0 demo_vm ?r ?va 0x1000 0x80007000 (PTE_R OR PTE_W) = Ok (s', k)" "k = 0"
    and all: "\<forall>u < MAXVA. if PGROUNDDOWN ?va \<le> PGROUNDDOWN u \<and> PGROUNDDOWN u \<le> PGROUNDDOWN (?va + 0x1000 - 1)
       then PTE2PA (leaf (mem s') ?r u) = 0x80007000 + (PGROUNDDOWN u - PGROUNDDOWN ?va) \<and>
         leaf (mem s') ?r u = (PA2PTE (0x80007000 + (PGROUNDDOWN u - PGROUNDDOWN ?va)) OR (PTE_R OR PTE_W) OR PTE_V)
       else leaf (mem s') ?r u = leaf (mem demo_vm) ?r u"
    using mappages_correct [OF demo_vm_ok, of "0x1000" ?va "0x80007000" "PTE_R OR PTE_W"]
    unfolding pg by (auto simp: aligned_def PGSIZE_def)
  have m: "(0 :: uint64) < MAXVA" "?va < MAXVA" by (simp_all add: MAXVA_def)
  have "PTE2PA (leaf (mem s') ?r 0x1000) = 0x80007000" using spec [OF all, of ?va] m unfolding pg
    by (simp add: PTE2PA_PA2PTE aligned_def PGSIZE_def)
  moreover have "leaf (mem s') ?r 0 = leaf demo_mem ?r 0" using spec [OF all, of 0] m unfolding pg by (simp add: demo_vm_def)
  moreover have "PTE2PA (leaf demo_mem ?r 0) = 0x80004000"
    using demo_leaf [OF m(1)] by (simp add: PTE2PA_PA2PTE aligned_def PGSIZE_def)
  ultimately show ?thesis using k by simp
qed

lemma demo_user: "user_ok demo_mem 0x80001000 va \<longleftrightarrow> va < 4096" "va < 4096 \<Longrightarrow> frame demo_mem 0x80001000 va = 0x80004000"
proof -
  have lt: "va < MAXVA" if "va < 4096" using that by (simp add: word_less_nat_alt MAXVA_def)
  have f: "frame demo_mem 0x80001000 va = 0x80004000" if "va < 4096"
    using demo_leaf [OF lt [OF that]] that by (simp add: frame_def PTE2PA_PA2PTE aligned_def PGSIZE_def)
  then show "va < 4096 \<Longrightarrow> frame demo_mem 0x80001000 va = 0x80004000" .
  show "user_ok demo_mem 0x80001000 va \<longleftrightarrow> va < 4096"
  proof
    assume u: "user_ok demo_mem 0x80001000 va"
    then have "leaf demo_mem 0x80001000 va \<noteq> 0" "va < MAXVA" by (auto simp: user_ok_def)
    then show "va < 4096" using demo_leaf [of va] by (auto split: if_splits)
  next
    assume s: "va < 4096"
    then show "user_ok demo_mem 0x80001000 va"
      using lt [OF s] demo_leaf [OF lt [OF s]] f [OF s] by (simp add: user_ok_def PTE_V_def PTE_U_def PTE_R_def PTE_W_def PA2PTE_def)
  qed
qed

lemma demo_sane: "uvm_sane demo_mem 0x80001000"
proof -
  have "PGROUNDDOWN va = 0" if "va < 4096" for va
    using that by (simp add: word_unat_eq_iff unat_PGROUNDDOWN word_less_nat_alt)
  then show ?thesis unfolding uvm_sane_def using demo_wf demo_user demo_pages by (simp add: layout_defs)
qed

lemma demo_kbuf: "unat b + n < 4096 \<Longrightarrow> kbuf demo_mem 0x80001000 b n"
proof -
  assume b: "unat b + n < 4096"
  have "kaddr demo_mem 0x80001000 (b + of_nat j)" if "j < n" for j
  proof -
    have "unat (b + of_nat j) div 4096 = 0" using b that by (simp add: unat_plus_if' unat_of_nat)
    moreover have "\<not> in_page p a" if "unat a div 4096 = 0" "aligned p" "4096 \<le> p" for p a
      using that by (auto simp: in_page_iff word_le_nat_alt)
    moreover have "aligned 0x80004000" by (simp add: aligned_def PGSIZE_def)
    ultimately show ?thesis using demo_user demo_pages demo_aligned by (auto simp: kaddr_def user_byte_def)
  qed
  then show ?thesis using b by (simp add: kbuf_def)
qed

theorem copy_round_trip_witness:
  "\<exists>s1 s2. copyout 0 demo_vm 0x80001000 10 100 4 = Ok (s1, 0) \<and> copyin 0 s1 0x80001000 200 10 4 = Ok (s2, 0) \<and>
     bytes (mem s2) 200 4 = [100, 101, 102, 103]"
proof -
  have "user_range (mem demo_vm) 0x80001000 10 (unat (4 :: uint64))" 
    using demo_user(1) by (auto simp: user_range_def demo_vm_def word_less_nat_alt unat_plus_if' unat_of_nat)
  moreover have "bytes demo_mem 100 4 = [100, 101, 102, 103]" 
    by (simp add: bytes_def upt_rec demo_mem_def demo_base_def store64_def off_def)
  ultimately show ?thesis
    using copy_round_trip [of demo_vm "0x80001000" 100 4 200 10 0] demo_sane demo_kbuf [of 100 4] demo_kbuf [of 200 4]
    by (auto simp: demo_vm_def)
qed

end
