(* ===== verification/Console_Out.thy ===== *)
theory Console_Out
  imports RunQueue Vm_Props
begin

unbundle bit_operations_syntax

text \<open>
  Console output: the UART's transmit register (\<^verbatim>\<open>uartinit\<close> and \<^verbatim>\<open>uartputc_sync\<close> of \<^verbatim>\<open>kernel/uart.c\<close>),
  \<^verbatim>\<open>consputc\<close> of \<^verbatim>\<open>kernel/console.c\<close>, and \<^verbatim>\<open>kernel/printf.c\<close>.
\<close>

section \<open>The UART's registers\<close>

definition BACKSPACE :: int where "BACKSPACE = 0x100"
definition THR :: nat where "THR = 0"
definition RHR :: nat where "RHR = 0"
definition IER :: nat where "IER = 1"
definition IER_RX_ENABLE :: uchar where "IER_RX_ENABLE = 1"
definition IER_TX_ENABLE :: uchar where "IER_TX_ENABLE = 2"
definition FCR :: nat where "FCR = 2"
definition FCR_FIFO_ENABLE :: uchar where "FCR_FIFO_ENABLE = 1"
definition FCR_FIFO_CLEAR :: uchar where "FCR_FIFO_CLEAR = 6"
definition LCR :: nat where "LCR = 3"
definition LCR_EIGHT_BITS :: uchar where "LCR_EIGHT_BITS = 3"
definition LCR_BAUD_LATCH :: uchar where "LCR_BAUD_LATCH = 0x80"
definition LSR_RX_READY :: uchar where "LSR_RX_READY = 1"
definition LSR_TX_IDLE :: uchar where "LSR_TX_IDLE = 0x20"

lemmas uart_regs = THR_def RHR_def IER_def IER_RX_ENABLE_def IER_TX_ENABLE_def FCR_def FCR_FIFO_ENABLE_def
  FCR_FIFO_CLEAR_def LCR_def LCR_EIGHT_BITS_def LCR_BAUD_LATCH_def LSR_RX_READY_def LSR_TX_IDLE_def

text \<open>
  The device: its registers, the bytes written to the transmit register and those waiting in the
  receive register. \<open>tx_room\<close> is how many bytes it takes before the line status reports it busy.
\<close>

record uart_dev =
  u_ier :: uchar
  u_lcr :: uchar
  u_fcr :: uchar
  u_dll :: uchar
  u_dlm :: uchar
  tx_room :: nat
  thr_out :: "uchar list"
  rx_in :: "uchar list"

definition WriteReg :: "nat \<Rightarrow> uchar \<Rightarrow> uart_dev \<Rightarrow> uart_dev" where
  "WriteReg reg v u =
     (if reg = 0 then (if u_lcr u AND LCR_BAUD_LATCH \<noteq> 0 then u\<lparr>u_dll := v\<rparr>
                       else u\<lparr>thr_out := thr_out u @ [v], tx_room := tx_room u - 1\<rparr>)
      else if reg = 1 then (if u_lcr u AND LCR_BAUD_LATCH \<noteq> 0 then u\<lparr>u_dlm := v\<rparr> else u\<lparr>u_ier := v\<rparr>)
      else if reg = 2 then u\<lparr>u_fcr := v\<rparr>
      else if reg = 3 then u\<lparr>u_lcr := v\<rparr> else u)"

definition ReadLSR :: "uart_dev \<Rightarrow> uchar" where
  "ReadLSR u = (if rx_in u \<noteq> [] then LSR_RX_READY else 0) OR (if tx_room u > 0 then LSR_TX_IDLE else 0)"

text \<open>\<^verbatim>\<open>uart.c\<close> and \<^verbatim>\<open>printf.c\<close> keep the transmit buffer, the print lock and the panic flag.\<close>

record io_state = rq_state +
  uart :: uart_dev
  uart_tx_lock :: spinlock
  uart_tx_buf :: "uchar list"
  uart_tx_w :: uint64
  uart_tx_r :: uint64
  pr_lock :: spinlock
  pr_locking :: bool
  panicked :: bool

definition UART_TX_BUF_SIZE :: nat where "UART_TX_BUF_SIZE = 32"

definition uart_write :: "nat \<Rightarrow> uchar \<Rightarrow> 'a io_state_scheme \<Rightarrow> 'a io_state_scheme" where
  "uart_write reg v s = s\<lparr>uart := WriteReg reg v (uart s)\<rparr>"

definition uartinit :: "'a io_state_scheme \<Rightarrow> 'a io_state_scheme" where
  "uartinit s =
     (let s1 = uart_write IER 0 s;
          s2 = uart_write LCR LCR_BAUD_LATCH s1;
          s3 = uart_write 0 3 s2;
          s4 = uart_write 1 0 s3;
          s5 = uart_write LCR LCR_EIGHT_BITS s4;
          s6 = uart_write FCR (FCR_FIFO_ENABLE OR FCR_FIFO_CLEAR) s5;
          s7 = uart_write IER (IER_TX_ENABLE OR IER_RX_ENABLE) s6
      in s7\<lparr>uart_tx_lock := initlock (uart_tx_lock s7) ''uart''\<rparr>)"

definition uartputc_sync :: "nat \<Rightarrow> 'a io_state_scheme \<Rightarrow> int \<Rightarrow> 'a io_state_scheme res" where
  "uartputc_sync c s ch =
     (let s1 = push_off c s
      in if panicked s1 then Hang
         else if ReadLSR (uart s1) AND LSR_TX_IDLE = 0 then Hang
         else pop_off c (uart_write THR (of_int ch) s1))"

definition consputc :: "nat \<Rightarrow> 'a io_state_scheme \<Rightarrow> int \<Rightarrow> 'a io_state_scheme res" where
  "consputc c s ch =
     (if ch = BACKSPACE then
        rbind (uartputc_sync c s 8) (\<lambda>s1.
        rbind (uartputc_sync c s1 32) (\<lambda>s2. uartputc_sync c s2 8))
      else uartputc_sync c s ch)"

section \<open>printf\<close>

definition digits :: "string" where "digits = ''0123456789abcdef''"

text \<open>The digits of a number, least significant first, as \<^verbatim>\<open>buf\<close> holds them.\<close>

function print_digits :: "nat \<Rightarrow> nat \<Rightarrow> string" where
  "print_digits x base =
     digits ! (x mod base) # (if x div base = 0 \<or> base \<le> 1 then [] else print_digits (x div base) base)"

  by pat_completeness auto
termination
proof (relation "measure fst")
  fix x base :: nat assume "\<not> (x div base = 0 \<or> base \<le> 1)"
  then have "0 < x" "1 < base" by (auto simp: div_eq_0_iff)
  then show "((x div base, base), (x, base)) \<in> measure fst" by (simp add: div_less_dividend)
qed simp

declare print_digits.simps [simp del]

text \<open>\<open>xx\<close> is an \<^verbatim>\<open>int\<close> and the magnitude a \<^verbatim>\<open>uint\<close>: 32-bit wrap-around on both.\<close>

definition printint_buf :: "int \<Rightarrow> nat \<Rightarrow> bool \<Rightarrow> string" where
  "printint_buf xx base sgnd =
     (let neg = (sgnd \<and> xx < 0);
          x = unat (of_int (if neg then - xx else xx) :: uint);
          buf = print_digits x base
      in if neg then buf @ ''-'' else buf)"

fun put_chars :: "nat \<Rightarrow> 'a io_state_scheme \<Rightarrow> string \<Rightarrow> 'a io_state_scheme res" where
  "put_chars c s [] = Ok s"
| "put_chars c s (ch # cs) = rbind (consputc c s (of_char ch)) (\<lambda>s1. put_chars c s1 cs)"

definition printint :: "nat \<Rightarrow> 'a io_state_scheme \<Rightarrow> int \<Rightarrow> nat \<Rightarrow> bool \<Rightarrow> 'a io_state_scheme res" where
  "printint c s xx base sgnd = put_chars c s (rev (printint_buf xx base sgnd))"

primrec printptr_loop :: "nat \<Rightarrow> nat \<Rightarrow> 'a io_state_scheme \<Rightarrow> uint64 \<Rightarrow> 'a io_state_scheme res" where
  "printptr_loop 0 c s x = Ok s"
| "printptr_loop (Suc k) c s x =
     rbind (consputc c s (of_char (digits ! unat (drop_bit 60 x)))) (\<lambda>s1. printptr_loop k c s1 (push_bit 4 x))"

definition printptr :: "nat \<Rightarrow> 'a io_state_scheme \<Rightarrow> uint64 \<Rightarrow> 'a io_state_scheme res" where
  "printptr c s x =
     rbind (consputc c s (of_char (CHR ''0''))) (\<lambda>s1.
     rbind (consputc c s1 (of_char (CHR ''x''))) (\<lambda>s2. printptr_loop 16 c s2 x))"

text \<open>Variadic arguments; reading one at another type is undefined.\<close>

datatype parg = PInt int | PPtr uint64 | PStr "string option"

fun printf_arg :: "nat \<Rightarrow> 'a io_state_scheme \<Rightarrow> char \<Rightarrow> parg list \<Rightarrow> ('a io_state_scheme \<times> parg list) res" where
  "printf_arg c s k args =
     (if k = CHR ''d'' then
        (case args of PInt x # as \<Rightarrow> rbind (printint c s x 10 True) (\<lambda>s1. Ok (s1, as)) | _ \<Rightarrow> Fault)
      else if k = CHR ''x'' then
        (case args of PInt x # as \<Rightarrow> rbind (printint c s x 16 True) (\<lambda>s1. Ok (s1, as)) | _ \<Rightarrow> Fault)
      else if k = CHR ''p'' then
        (case args of PPtr x # as \<Rightarrow> rbind (printptr c s x) (\<lambda>s1. Ok (s1, as)) | _ \<Rightarrow> Fault)
      else if k = CHR ''s'' then
        (case args of PStr t # as \<Rightarrow>
           rbind (put_chars c s (case t of None \<Rightarrow> ''(null)'' | Some cs \<Rightarrow> cs)) (\<lambda>s1. Ok (s1, as)) | _ \<Rightarrow> Fault)
      else if k = CHR ''%'' then rbind (consputc c s (of_char (CHR ''%''))) (\<lambda>s1. Ok (s1, args))
      else rbind (consputc c s (of_char (CHR ''%''))) (\<lambda>s1.
           rbind (consputc c s1 (of_char k)) (\<lambda>s2. Ok (s2, args))))"

fun printf_loop :: "nat \<Rightarrow> 'a io_state_scheme \<Rightarrow> string \<Rightarrow> parg list \<Rightarrow> 'a io_state_scheme res" where
  "printf_loop c s [] args = Ok s"
| "printf_loop c s [ch] args = (if ch \<noteq> CHR ''%'' then consputc c s (of_char ch) else Ok s)"
| "printf_loop c s (ch # k # fmt) args =
     (if ch \<noteq> CHR ''%'' then rbind (consputc c s (of_char ch)) (\<lambda>s1. printf_loop c s1 (k # fmt) args)
      else rbind (printf_arg c s k args) (\<lambda>(s1, as). printf_loop c s1 fmt as))"

definition printf :: "nat \<Rightarrow> 'a io_state_scheme \<Rightarrow> string option \<Rightarrow> parg list \<Rightarrow> 'a io_state_scheme res" where
  "printf c s fmt args =
     (let locking = pr_locking s
      in rbind (if locking then rbind (acquire c s (pr_lock s)) (\<lambda>(s1, lk). Ok (s1\<lparr>pr_lock := lk\<rparr>)) else Ok s) (\<lambda>s1.
         case fmt of None \<Rightarrow> Panic ''null fmt''
         | Some f \<Rightarrow> rbind (printf_loop c s1 f args) (\<lambda>s2.
             if locking then rbind (release c s2 (pr_lock s2)) (\<lambda>(s3, lk). Ok (s3\<lparr>pr_lock := lk\<rparr>)) else Ok s2)))"

text \<open>What \<^verbatim>\<open>panic\<close> has done when it enters its final loop.\<close>

definition panic :: "nat \<Rightarrow> 'a io_state_scheme \<Rightarrow> string \<Rightarrow> 'a io_state_scheme res" where
  "panic c s msg =
     (let s1 = s\<lparr>pr_locking := False\<rparr>
      in rbind (printf c s1 (Some ''panic: '') []) (\<lambda>s2.
         rbind (printf c s2 (Some msg) []) (\<lambda>s3.
         rbind (printf c s3 (Some [CHR 0x0A]) []) (\<lambda>s4. Ok (s4\<lparr>panicked := True\<rparr>)))))"

definition printfinit :: "'a io_state_scheme \<Rightarrow> 'a io_state_scheme" where
  "printfinit s = s\<lparr>pr_lock := initlock (pr_lock s) ''pr'', pr_locking := True\<rparr>"

end
