(* ===== verification/Proc.thy ===== *)
theory Proc
  imports Console_Out
begin

text \<open>
  The process half of \<^verbatim>\<open>kernel/proc.c\<close> (lines 553 to 1300) that does not touch the file system: the process
  table, kernel threads and their switching, sleep and wakeup, kill, and the memory of a process.
  \<open>c\<close> is the CPU that runs the code (\<^verbatim>\<open>cpuid()\<close> reads it from \<^verbatim>\<open>tp\<close>).
\<close>

section \<open>State\<close>

text \<open>
  The globals of \<^verbatim>\<open>proc.c\<close>, and three addresses fixed when the kernel is linked: the trampoline page,
  \<^verbatim>\<open>forkret\<close>, and \<^verbatim>\<open>&proc[i].xstate\<close>. \<open>kframe\<close> is the address of the local variable a routine passes by
  address.
\<close>

record pstate = io_state +
  pid_lock :: spinlock
  nextpid :: int
  wait_lock :: spinlock
  initproc :: pptr
  trampoline :: uint64
  forkret_addr :: uint64
  xstate_addr :: "nat \<Rightarrow> uint64"
  kframe :: uint64

text \<open>A reference to a spin lock somewhere in the state.\<close>

type_synonym 's lockref = "('s \<Rightarrow> spinlock) \<times> ((spinlock \<Rightarrow> spinlock) \<Rightarrow> 's \<Rightarrow> 's)"

definition lk_acquire :: "nat \<Rightarrow> ('a machine_scheme) lockref \<Rightarrow> 'a machine_scheme \<Rightarrow> 'a machine_scheme res" where
  "lk_acquire c L s = rbind (acquire c s (fst L s)) (\<lambda>(s1, lk). Ok (snd L (\<lambda>_. lk) s1))"

definition lk_release :: "nat \<Rightarrow> ('a machine_scheme) lockref \<Rightarrow> 'a machine_scheme \<Rightarrow> 'a machine_scheme res" where
  "lk_release c L s = rbind (release c s (fst L s)) (\<lambda>(s1, lk). Ok (snd L (\<lambda>_. lk) s1))"

definition pid_L :: "('a pstate_scheme) lockref" where
  "pid_L = (pid_lock, \<lambda>f s. s\<lparr>pid_lock := f (pid_lock s)\<rparr>)"

definition wait_L :: "('a pstate_scheme) lockref" where
  "wait_L = (wait_lock, \<lambda>f s. s\<lparr>wait_lock := f (wait_lock s)\<rparr>)"

definition proc_L :: "nat \<Rightarrow> ('a rq_state_scheme) lockref" where
  "proc_L i = (\<lambda>s. p_lock (procs s i), \<lambda>f s. upd_proc i (\<lambda>p. p\<lparr>p_lock := f (p_lock p)\<rparr>) s)"

section \<open>The process table\<close>

definition procinit :: "'a pstate_scheme \<Rightarrow> 'a pstate_scheme" where
  "procinit s =
     (let s1 = s\<lparr>pid_lock := initlock (pid_lock s) ''nextpid'', wait_lock := initlock (wait_lock s) ''wait_lock''\<rparr>;
          s2 = fold (\<lambda>i s. upd_proc i (\<lambda>p. p\<lparr>p_lock := initlock (p_lock p) ''proc'', state := UNUSED,
                 kstack := KSTACK (of_nat i)\<rparr>) s) [0..<NPROC] s1
      in upd_tree (\<lambda>t. rbinit t ''runnableTasks'') s2)"

definition mycpu :: "nat \<Rightarrow> 'a machine_scheme \<Rightarrow> cpu" where
  "mycpu c s = cpus s c"

definition myproc :: "nat \<Rightarrow> 'a machine_scheme \<Rightarrow> ('a machine_scheme \<times> nat option) res" where
  "myproc c s =
     (let s1 = push_off c s;
          p = cpu_proc (mycpu c s1)
      in rbind (pop_off c s1) (\<lambda>s2. Ok (s2, p)))"

definition allocpid :: "nat \<Rightarrow> 'a pstate_scheme \<Rightarrow> ('a pstate_scheme \<times> int) res" where
  "allocpid c s =
     rbind (lk_acquire c pid_L s) (\<lambda>s1.
       let p = nextpid s1;
           s2 = s1\<lparr>nextpid := nextpid s1 + 1\<rparr>
       in rbind (lk_release c pid_L s2) (\<lambda>s3. Ok (s3, p)))"

definition proc_pagetable :: "nat \<Rightarrow> 'a pstate_scheme \<Rightarrow> nat \<Rightarrow> ('a pstate_scheme \<times> uint64) res" where
  "proc_pagetable c s i =
     rbind (uvmcreate c s) (\<lambda>(s1, pt).
       if pt = 0 then Ok (s1, 0)
       else rbind (mappages c s1 pt TRAMPOLINE PGSIZE (trampoline s1) (PTE_R OR PTE_X)) (\<lambda>(s2, r).
         if r < 0 then rbind (uvmfree c s2 pt 0) (\<lambda>s3. Ok (s3, 0))
         else rbind (mappages c s2 pt TRAPFRAME PGSIZE (trapframe_pg (procs s2 i)) (PTE_R OR PTE_W)) (\<lambda>(s3, r2).
           if r2 < 0 then
             rbind (uvmunmap c s3 pt TRAMPOLINE 1 False) (\<lambda>s4.
             rbind (uvmfree c s4 pt 0) (\<lambda>s5. Ok (s5, 0)))
           else Ok (s3, pt))))"

definition proc_freepagetable :: "nat \<Rightarrow> 'a pstate_scheme \<Rightarrow> uint64 \<Rightarrow> uint64 \<Rightarrow> 'a pstate_scheme res" where
  "proc_freepagetable c s pt psz =
     rbind (uvmunmap c s pt TRAMPOLINE 1 False) (\<lambda>s1.
     rbind (uvmunmap c s1 pt TRAPFRAME 1 False) (\<lambda>s2. uvmfree c s2 pt psz))"

definition freeproc :: "nat \<Rightarrow> 'a pstate_scheme \<Rightarrow> nat \<Rightarrow> 'a pstate_scheme res" where
  "freeproc c s i =
     rbind (if trapframe_pg (procs s i) \<noteq> 0 then kfree c s (trapframe_pg (procs s i)) else Ok s) (\<lambda>s1.
     let s2 = upd_proc i (\<lambda>p. p\<lparr>trapframe_pg := 0\<rparr>) s1
     in rbind (if pagetable (procs s2 i) \<noteq> 0
               then proc_freepagetable c s2 (pagetable (procs s2 i)) (sz (procs s2 i)) else Ok s2) (\<lambda>s3.
        Ok (upd_proc i (\<lambda>p. p\<lparr>pagetable := 0, sz := 0, pid := 0, parent := None, p_name := (p_name p)[0 := 0],
              chan := None, killed := 0, xstate := 0, state := UNUSED\<rparr>) s3)))"

fun allocproc_scan :: "nat \<Rightarrow> 'a pstate_scheme \<Rightarrow> nat \<Rightarrow> nat \<Rightarrow> ('a pstate_scheme \<times> pptr) res" where
  "allocproc_scan c s i 0 = Ok (s, None)"
| "allocproc_scan c s i (Suc k) =
     rbind (lk_acquire c (proc_L i) s) (\<lambda>s1.
       if state (procs s1 i) = UNUSED then Ok (s1, Some i)
       else rbind (lk_release c (proc_L i) s1) (\<lambda>s2. allocproc_scan c s2 (Suc i) k))"

definition allocproc_fail :: "nat \<Rightarrow> 'a pstate_scheme \<Rightarrow> nat \<Rightarrow> ('a pstate_scheme \<times> pptr) res" where
  "allocproc_fail c s i =
     rbind (freeproc c s i) (\<lambda>s1. rbind (lk_release c (proc_L i) s1) (\<lambda>s2. Ok (s2, None)))"

definition allocproc :: "nat \<Rightarrow> 'a pstate_scheme \<Rightarrow> ('a pstate_scheme \<times> pptr) res" where
  "allocproc c s =
     rbind (allocproc_scan c s 0 NPROC) (\<lambda>(s1, found).
       case found of None \<Rightarrow> Ok (s1, None)
       | Some i \<Rightarrow>
         rbind (allocpid c s1) (\<lambda>(s2, n).
         let s3 = upd_proc i (\<lambda>p. p\<lparr>pid := n, state := USED, priority := 10, virtualRuntime := 0, currentRuntime := 0,
                    maximumExecutiontime := 0, niceValue := 0, left := None, right := None, parentP := None\<rparr>) s2
         in rbind (kalloc c s3) (\<lambda>(s4, tf).
         let s5 = upd_proc i (\<lambda>p. p\<lparr>trapframe_pg := tf\<rparr>) s4
         in if tf = 0 then allocproc_fail c s5 i
            else rbind (proc_pagetable c s5 i) (\<lambda>(s6, pt).
                 let s7 = upd_proc i (\<lambda>p. p\<lparr>pagetable := pt\<rparr>) s6
                 in if pt = 0 then allocproc_fail c s7 i
                    else Ok (upd_proc i (\<lambda>p. p\<lparr>p_context := zero_context\<lparr>cx_ra := forkret_addr s7,
                               cx_sp := kstack p + PGSIZE\<rparr>\<rparr>) s7, Some i)))))"

text \<open>The trapframe is a page; its fields are at the offsets the comments of \<^verbatim>\<open>proc.h\<close> give.\<close>

definition tf_off :: "string \<Rightarrow> uint64" where
  "tf_off f = (if f = ''kernel_satp'' then 0 else if f = ''kernel_sp'' then 8 else if f = ''kernel_trap'' then 16
     else if f = ''epc'' then 24 else if f = ''kernel_hartid'' then 32 else if f = ''sp'' then 48
     else if f = ''a0'' then 112 else if f = ''a1'' then 120 else if f = ''a2'' then 128 else if f = ''a3'' then 136
     else if f = ''a4'' then 144 else if f = ''a5'' then 152 else if f = ''a7'' then 168 else 0)"

definition tf_get :: "'a pstate_scheme \<Rightarrow> nat \<Rightarrow> string \<Rightarrow> uint64" where
  "tf_get s i f = load64 (mem s) (trapframe_pg (procs s i) + tf_off f)"

definition tf_set :: "nat \<Rightarrow> string \<Rightarrow> uint64 \<Rightarrow> 'a pstate_scheme \<Rightarrow> 'a pstate_scheme" where
  "tf_set i f v s = s\<lparr>mem := store64 (mem s) (trapframe_pg (procs s i) + tf_off f) v\<rparr>"

definition growproc :: "nat \<Rightarrow> 'a pstate_scheme \<Rightarrow> int \<Rightarrow> ('a pstate_scheme \<times> int) res" where
  "growproc c s n =
     rbind (myproc c s) (\<lambda>(s1, p). deref p (\<lambda>i.
       let size0 = sz (procs s1 i); pt = pagetable (procs s1 i)
       in if n > 0 then
            rbind (uvmalloc c s1 pt size0 (size0 + of_int n) PTE_W) (\<lambda>(s2, sz2).
              if sz2 = 0 then Ok (s2, -1) else Ok (upd_proc i (\<lambda>p. p\<lparr>sz := sz2\<rparr>) s2, 0))
          else if n < 0 then
            rbind (uvmdealloc c s1 pt size0 (size0 + of_int n)) (\<lambda>(s2, sz2).
              Ok (upd_proc i (\<lambda>p. p\<lparr>sz := sz2\<rparr>) s2, 0))
          else Ok (upd_proc i (\<lambda>p. p\<lparr>sz := size0\<rparr>) s1, 0)))"

definition either_copyout :: "nat \<Rightarrow> 'a pstate_scheme \<Rightarrow> bool \<Rightarrow> uint64 \<Rightarrow> uint64 \<Rightarrow> uint64 \<Rightarrow> ('a pstate_scheme \<times> int) res" where
  "either_copyout c s user_dst dst src len =
     rbind (myproc c s) (\<lambda>(s1, p).
       if user_dst then deref p (\<lambda>i. copyout c s1 (pagetable (procs s1 i)) dst src len)
       else Ok (s1\<lparr>mem := memmove (mem s1) dst src (ucast len)\<rparr>, 0))"

definition either_copyin :: "nat \<Rightarrow> 'a pstate_scheme \<Rightarrow> uint64 \<Rightarrow> bool \<Rightarrow> uint64 \<Rightarrow> uint64 \<Rightarrow> ('a pstate_scheme \<times> int) res" where
  "either_copyin c s dst user_src src len =
     rbind (myproc c s) (\<lambda>(s1, p).
       if user_src then deref p (\<lambda>i. copyin c s1 (pagetable (procs s1 i)) dst src len)
       else Ok (s1\<lparr>mem := memmove (mem s1) dst src (ucast len)\<rparr>, 0))"

section \<open>Switching\<close>

text \<open>
  \<^verbatim>\<open>swtch(old, new)\<close>: save the hart's callee-saved registers in \<open>old\<close> and load those of \<open>new\<close>.
  From a process to its CPU's scheduler, and back.
\<close>

definition swtch_out :: "nat \<Rightarrow> nat \<Rightarrow> 'a rq_state_scheme \<Rightarrow> 'a rq_state_scheme" where
  "swtch_out c i s =
     (let s1 = upd_proc i (\<lambda>p. p\<lparr>p_context := hregs (cpus s c)\<rparr>) s
      in upd_cpu c (\<lambda>x. x\<lparr>hregs := cpu_context x\<rparr>) s1)"

definition swtch_in :: "nat \<Rightarrow> nat \<Rightarrow> 'a rq_state_scheme \<Rightarrow> 'a rq_state_scheme" where
  "swtch_in c i s = upd_cpu c (\<lambda>x. x\<lparr>cpu_context := hregs x, hregs := p_context (procs s i)\<rparr>) s"

text \<open>
  \<^verbatim>\<open>sched\<close> up to its \<^verbatim>\<open>swtch\<close>: the process that left and the \<^verbatim>\<open>intena\<close> it will restore; and from its
  \<^verbatim>\<open>swtch\<close> on.
\<close>

definition sched_leave :: "nat \<Rightarrow> 'a rq_state_scheme \<Rightarrow> ('a rq_state_scheme \<times> nat \<times> bool) res" where
  "sched_leave c s =
     rbind (myproc c s) (\<lambda>(s1, p). deref p (\<lambda>i.
       if \<not> holding c (p_lock (procs s1 i)) then Panic ''sched p->lock''
       else if noff (mycpu c s1) \<noteq> 1 then Panic ''sched locks''
       else if state (procs s1 i) = RUNNING then Panic ''sched running''
       else if intr_get c s1 then Panic ''sched interruptible''
       else Ok (swtch_out c i s1, i, intena (mycpu c s1))))"

definition sched_return :: "nat \<Rightarrow> 'a rq_state_scheme \<Rightarrow> bool \<Rightarrow> 'a rq_state_scheme" where
  "sched_return c s ena = upd_cpu c (\<lambda>x. x\<lparr>intena := ena\<rparr>) s"

text \<open>
  \<^verbatim>\<open>scheduler\<close>: what it does before its loop; one round of the loop up to the \<^verbatim>\<open>swtch\<close> to the process it picked, or the whole round when it
  picked none; and the rest of the round when that process comes back.
\<close>

definition scheduler_start :: "nat \<Rightarrow> 'a machine_scheme \<Rightarrow> 'a machine_scheme" where
  "scheduler_start c s = upd_cpu c (\<lambda>x. x\<lparr>cpu_proc := None\<rparr>) s"

definition scheduler_pick :: "nat \<Rightarrow> 'a rq_state_scheme \<Rightarrow> ('a rq_state_scheme \<times> pptr) res" where
  "scheduler_pick c s =
     (let s1 = intr_on c s
      in rbind (retrieveProcess c s1) (\<lambda>(s2, p).
         case p of None \<Rightarrow> Ok (s2, None)
         | Some i \<Rightarrow>
           rbind (lk_acquire c (proc_L i) s2) (\<lambda>s3.
             if state (procs s3 i) = RUNNABLE then
               let s4 = upd_proc i (\<lambda>p. p\<lparr>state := RUNNING\<rparr>) s3;
                   s5 = upd_cpu c (\<lambda>x. x\<lparr>cpu_proc := Some i\<rparr>) s4
               in Ok (swtch_in c i s5, Some i)
             else rbind (lk_release c (proc_L i) s3) (\<lambda>s4. Ok (s4, None)))))"

definition scheduler_back :: "nat \<Rightarrow> 'a rq_state_scheme \<Rightarrow> nat \<Rightarrow> 'a rq_state_scheme res" where
  "scheduler_back c s i =
     (let s1 = upd_cpu c (\<lambda>x. x\<lparr>cpu_proc := None\<rparr>) s
      in lk_release c (proc_L i) s1)"

text \<open>The accounting at the end of a stay on the CPU, in \<^verbatim>\<open>yield\<close>, \<^verbatim>\<open>wakeup\<close> and \<^verbatim>\<open>kill\<close>.\<close>

definition requeue :: "nat \<Rightarrow> 'a rq_state_scheme \<Rightarrow> nat \<Rightarrow> 'a rq_state_scheme res" where
  "requeue c s i =
     (let s1 = upd_proc i (\<lambda>p. p\<lparr>state := RUNNABLE\<rparr>) s;
          s2 = upd_proc i (\<lambda>p. p\<lparr>virtualRuntime := virtualRuntime p + currentRuntime p, currentRuntime := 0\<rparr>) s1
      in insertProcess c s2 i)"

text \<open>\<^verbatim>\<open>yield\<close> up to its \<^verbatim>\<open>sched\<close>: \<open>None\<close> when the process keeps the CPU and \<^verbatim>\<open>yield\<close> has returned.\<close>

definition yield_leave :: "nat \<Rightarrow> 'a rq_state_scheme \<Rightarrow> ('a rq_state_scheme \<times> (nat \<times> bool) option) res" where
  "yield_leave c s =
     rbind (myproc c s) (\<lambda>(s1, p). deref p (\<lambda>i.
       rbind (lk_acquire c (proc_L i) s1) (\<lambda>s2.
       if checkPreemption s2 i (min_vRuntime (rbTree s2)) = 1 then
         rbind (requeue c s2 i) (\<lambda>s3.
         rbind (sched_leave c s3) (\<lambda>(s4, r). Ok (s4, Some r)))
       else rbind (lk_release c (proc_L i) s2) (\<lambda>s3. Ok (s3, None)))))"

definition yield_return :: "nat \<Rightarrow> 'a rq_state_scheme \<Rightarrow> nat \<times> bool \<Rightarrow> 'a rq_state_scheme res" where
  "yield_return c s r = lk_release c (proc_L (fst r)) (sched_return c s (snd r))"

text \<open>\<^verbatim>\<open>sleep(chan, lk)\<close> up to its \<^verbatim>\<open>sched\<close>, and from there on.\<close>

definition sleep_leave :: "nat \<Rightarrow> 'a rq_state_scheme \<Rightarrow> channel \<Rightarrow> ('a rq_state_scheme) lockref \<Rightarrow>
    ('a rq_state_scheme \<times> nat \<times> bool) res" where
  "sleep_leave c s ch L =
     rbind (myproc c s) (\<lambda>(s1, p). deref p (\<lambda>i.
       rbind (lk_acquire c (proc_L i) s1) (\<lambda>s2.
       rbind (lk_release c L s2) (\<lambda>s3.
       sched_leave c (upd_proc i (\<lambda>p. p\<lparr>chan := Some ch, state := SLEEPING\<rparr>) s3)))))"

definition sleep_return :: "nat \<Rightarrow> 'a rq_state_scheme \<Rightarrow> ('a rq_state_scheme) lockref \<Rightarrow> nat \<times> bool \<Rightarrow> 'a rq_state_scheme res" where
  "sleep_return c s L r =
     (let s1 = upd_proc (fst r) (\<lambda>p. p\<lparr>chan := None\<rparr>) (sched_return c s (snd r))
      in rbind (lk_release c (proc_L (fst r)) s1) (\<lambda>s2. lk_acquire c L s2))"

definition wakeup_one :: "nat \<Rightarrow> 'a rq_state_scheme \<Rightarrow> channel \<Rightarrow> nat \<Rightarrow> 'a rq_state_scheme res" where
  "wakeup_one c s ch i =
     rbind (myproc c s) (\<lambda>(s1, me).
       if Some i \<noteq> me then
         rbind (lk_acquire c (proc_L i) s1) (\<lambda>s2.
         rbind (if state (procs s2 i) = SLEEPING \<and> chan (procs s2 i) = Some ch then requeue c s2 i else Ok s2) (\<lambda>s3.
         lk_release c (proc_L i) s3))
       else Ok s1)"

fun wakeup_loop :: "nat \<Rightarrow> 'a rq_state_scheme \<Rightarrow> channel \<Rightarrow> nat list \<Rightarrow> 'a rq_state_scheme res" where
  "wakeup_loop c s ch [] = Ok s"
| "wakeup_loop c s ch (i # is) = rbind (wakeup_one c s ch i) (\<lambda>s1. wakeup_loop c s1 ch is)"

definition wakeup :: "nat \<Rightarrow> 'a rq_state_scheme \<Rightarrow> channel \<Rightarrow> 'a rq_state_scheme res" where
  "wakeup c s ch = wakeup_loop c s ch [0..<NPROC]"

fun kill_loop :: "nat \<Rightarrow> 'a rq_state_scheme \<Rightarrow> int \<Rightarrow> nat list \<Rightarrow> ('a rq_state_scheme \<times> int) res" where
  "kill_loop c s n [] = Ok (s, -1)"
| "kill_loop c s n (i # is) =
     rbind (lk_acquire c (proc_L i) s) (\<lambda>s1.
       if pid (procs s1 i) = n then
         let s2 = upd_proc i (\<lambda>p. p\<lparr>killed := 1\<rparr>) s1
         in rbind (if state (procs s2 i) = SLEEPING then requeue c s2 i else Ok s2) (\<lambda>s3.
            rbind (lk_release c (proc_L i) s3) (\<lambda>s4. Ok (s4, 0)))
       else rbind (lk_release c (proc_L i) s1) (\<lambda>s2. kill_loop c s2 n is))"

definition kill :: "nat \<Rightarrow> 'a rq_state_scheme \<Rightarrow> int \<Rightarrow> ('a rq_state_scheme \<times> int) res" where
  "kill c s n = kill_loop c s n [0..<NPROC]"

definition setkilled :: "nat \<Rightarrow> 'a rq_state_scheme \<Rightarrow> nat \<Rightarrow> 'a rq_state_scheme res" where
  "setkilled c s i =
     rbind (lk_acquire c (proc_L i) s) (\<lambda>s1.
       lk_release c (proc_L i) (upd_proc i (\<lambda>p. p\<lparr>killed := 1\<rparr>) s1))"

definition killed_q :: "nat \<Rightarrow> 'a rq_state_scheme \<Rightarrow> nat \<Rightarrow> ('a rq_state_scheme \<times> int) res" where
  "killed_q c s i =
     rbind (lk_acquire c (proc_L i) s) (\<lambda>s1.
       let k = killed (procs s1 i)
       in rbind (lk_release c (proc_L i) s1) (\<lambda>s2. Ok (s2, k)))"

section \<open>Children\<close>

fun reparent_loop :: "nat \<Rightarrow> 'a pstate_scheme \<Rightarrow> nat \<Rightarrow> nat list \<Rightarrow> 'a pstate_scheme res" where
  "reparent_loop c s p [] = Ok s"
| "reparent_loop c s p (i # is) =
     (if parent (procs s i) = Some p then
        let s1 = upd_proc i (\<lambda>q. q\<lparr>parent := initproc s\<rparr>) s
        in deref (initproc s1) (\<lambda>ip. rbind (wakeup c s1 (ChanProc ip)) (\<lambda>s2. reparent_loop c s2 p is))
      else reparent_loop c s p is)"

definition reparent :: "nat \<Rightarrow> 'a pstate_scheme \<Rightarrow> nat \<Rightarrow> 'a pstate_scheme res" where
  "reparent c s p = reparent_loop c s p [0..<NPROC]"

text \<open>
  One scan of the table in \<^verbatim>\<open>wait\<close>: \<open>Some r\<close> when \<^verbatim>\<open>wait\<close> returns \<open>r\<close> (with \<^verbatim>\<open>wait_lock\<close> released), else
  \<^verbatim>\<open>havekids\<close>.
\<close>

definition wait_found :: "nat \<Rightarrow> 'a pstate_scheme \<Rightarrow> nat \<Rightarrow> nat \<Rightarrow> uint64 \<Rightarrow> ('a pstate_scheme \<times> int) res" where
  "wait_found c s p i addr =
     (let n = pid (procs s i)
      in rbind (if addr \<noteq> 0 then
                  let s1 = s\<lparr>mem := put_bytes (mem s) (xstate_addr s i) (le_bytes 4 (of_int (xstate (procs s i))))\<rparr>
                  in copyout c s1 (pagetable (procs s p)) addr (xstate_addr s i) 4
                else Ok (s, 0)) (\<lambda>(s1, r).
         if r < 0 then
           rbind (lk_release c (proc_L i) s1) (\<lambda>s2. rbind (lk_release c wait_L s2) (\<lambda>s3. Ok (s3, -1)))
         else rbind (freeproc c s1 i) (\<lambda>s2.
           rbind (lk_release c (proc_L i) s2) (\<lambda>s3. rbind (lk_release c wait_L s3) (\<lambda>s4. Ok (s4, n))))))"

fun wait_scan :: "nat \<Rightarrow> 'a pstate_scheme \<Rightarrow> nat \<Rightarrow> uint64 \<Rightarrow> bool \<Rightarrow> nat list \<Rightarrow> ('a pstate_scheme \<times> (int + bool)) res" where
  "wait_scan c s p addr havekids [] = Ok (s, Inr havekids)"
| "wait_scan c s p addr havekids (i # is) =
     (if parent (procs s i) = Some p then
        rbind (lk_acquire c (proc_L i) s) (\<lambda>s1.
          if state (procs s1 i) = ZOMBIE then
            rbind (wait_found c s1 p i addr) (\<lambda>(s2, r). Ok (s2, Inl r))
          else rbind (lk_release c (proc_L i) s1) (\<lambda>s2. wait_scan c s2 p addr True is))
      else wait_scan c s p addr havekids is)"

text \<open>
  One iteration of the loop of \<^verbatim>\<open>wait\<close>, with \<^verbatim>\<open>wait_lock\<close> held: \<^verbatim>\<open>wait\<close> returns (\<open>Inl\<close>), or the
  process goes to sleep and will run another iteration when \<^verbatim>\<open>sleep\<close> returns.
\<close>

definition wait_iter :: "nat \<Rightarrow> 'a pstate_scheme \<Rightarrow> nat \<Rightarrow> uint64 \<Rightarrow> ('a pstate_scheme \<times> (int + nat \<times> bool)) res" where
  "wait_iter c s p addr =
     rbind (wait_scan c s p addr False [0..<NPROC]) (\<lambda>(s1, r).
       case r of Inl v \<Rightarrow> Ok (s1, Inl v)
       | Inr havekids \<Rightarrow>
         rbind (if \<not> havekids then Ok (s1, 1) else killed_q c s1 p) (\<lambda>(s2, stop).
           if stop \<noteq> 0 then rbind (lk_release c wait_L s2) (\<lambda>s3. Ok (s3, Inl (-1)))
           else rbind (sleep_leave c s2 (ChanProc p) wait_L) (\<lambda>(s3, r). Ok (s3, Inr r))))"

definition wait_enter :: "nat \<Rightarrow> 'a pstate_scheme \<Rightarrow> uint64 \<Rightarrow> ('a pstate_scheme \<times> (int + nat \<times> bool)) res" where
  "wait_enter c s addr =
     rbind (myproc c s) (\<lambda>(s1, me). deref me (\<lambda>p.
       rbind (lk_acquire c wait_L s1) (\<lambda>s2. wait_iter c s2 p addr)))"

definition wait_resume :: "nat \<Rightarrow> 'a pstate_scheme \<Rightarrow> uint64 \<Rightarrow> nat \<times> bool \<Rightarrow> ('a pstate_scheme \<times> (int + nat \<times> bool)) res" where
  "wait_resume c s addr r = rbind (sleep_return c s wait_L r) (\<lambda>s1. wait_iter c s1 (fst r) addr)"

section \<open>Listings\<close>

fun state_name :: "procstate \<Rightarrow> string" where
  "state_name UNUSED = ''unused''"
| "state_name USED = ''used''"
| "state_name SLEEPING = ''sleep ''"
| "state_name RUNNABLE = ''runble''"
| "state_name RUNNING = ''run   ''"
| "state_name ZOMBIE = ''zombie''"

definition name_string :: "uchar list \<Rightarrow> string" where
  "name_string bs = map (\<lambda>b. char_of (unat b)) (takeWhile (\<lambda>b. b \<noteq> 0) bs)"

fun procdump_loop :: "nat \<Rightarrow> 'a io_state_scheme \<Rightarrow> nat list \<Rightarrow> 'a io_state_scheme res" where
  "procdump_loop c s [] = Ok s"
| "procdump_loop c s (i # is) =
     (if state (procs s i) = UNUSED then procdump_loop c s is
      else rbind (printf c s (Some ''%d %s %s'') [PInt (pid (procs s i)), PStr (Some (state_name (state (procs s i)))),
                    PStr (Some (name_string (p_name (procs s i))))]) (\<lambda>s1.
           rbind (printf c s1 (Some [CHR 0x0A]) []) (\<lambda>s2. procdump_loop c s2 is)))"

definition procdump :: "nat \<Rightarrow> 'a io_state_scheme \<Rightarrow> 'a io_state_scheme res" where
  "procdump c s = rbind (printf c s (Some [CHR 0x0A]) []) (\<lambda>s1. procdump_loop c s1 [0..<NPROC])"

definition procs_line :: "string \<Rightarrow> string" where
  "procs_line st = ''%s '' @ [CHR 0x09] @ '' %d '' @ [CHR 0x09, CHR '' ''] @ st @ '' '' @ [CHR 0x09] @ '' %d '' @ [CHR 0x09]
     @ '' '' @ [CHR 0x09] @ ''%d '' @ [CHR 0x09] @ '' '' @ [CHR 0x09] @ ''%d '' @ [CHR 0x09] @ '' '' @ [CHR 0x09]
     @ ''%d '' @ [CHR 0x09] @ '' '' @ [CHR 0x09] @ ''%d '' @ [CHR 0x0A] @ '' ''"

definition procs_args :: "proc \<Rightarrow> parg list" where
  "procs_args p = [PStr (Some (name_string (p_name p))), PInt (pid p), PInt (virtualRuntime p), PInt (currentRuntime p),
     PInt (maximumExecutiontime p), PInt (niceValue p), PInt (weightValue p)]"

fun procs_loop :: "nat \<Rightarrow> 'a io_state_scheme \<Rightarrow> nat list \<Rightarrow> 'a io_state_scheme res" where
  "procs_loop c s [] = Ok s"
| "procs_loop c s (i # is) =
     rbind (lk_acquire c (proc_L i) s) (\<lambda>s1.
     rbind (if state (procs s1 i) = SLEEPING then printf c s1 (Some (procs_line ''SLEEPING'')) (procs_args (procs s1 i))
            else if state (procs s1 i) = RUNNING then printf c s1 (Some (procs_line ''RUNNING'')) (procs_args (procs s1 i))
            else if state (procs s1 i) = RUNNABLE then printf c s1 (Some (procs_line ''RUNNABLE'')) (procs_args (procs s1 i))
            else Ok s1) (\<lambda>s2.
     rbind (lk_release c (proc_L i) s2) (\<lambda>s3. procs_loop c s3 is)))"

definition procs_header :: string where
  "procs_header = ''name '' @ [CHR 0x09] @ '' pid '' @ [CHR 0x09] @ '' state '' @ [CHR 0x09] @ '' vruntime '' @ [CHR 0x09]
     @ '' cruntime '' @ [CHR 0x09] @ '' maxexectime '' @ [CHR 0x09] @ '' nicevalue '' @ [CHR 0x09] @ '' weightvalue '' @ [CHR 0x0A]"

definition procs_list :: "nat \<Rightarrow> 'a io_state_scheme \<Rightarrow> ('a io_state_scheme \<times> int) res" where
  "procs_list c s =
     (let s1 = intr_on c s
      in rbind (printf c s1 (Some procs_header) []) (\<lambda>s2.
         rbind (procs_loop c s2 [0..<NPROC]) (\<lambda>s3. Ok (s3, 23))))"

fun chprio_loop :: "nat \<Rightarrow> 'a io_state_scheme \<Rightarrow> int \<Rightarrow> int \<Rightarrow> nat list \<Rightarrow> 'a io_state_scheme res" where
  "chprio_loop c s n prio [] = Ok s"
| "chprio_loop c s n prio (i # is) =
     rbind (printf c s (Some (CHR 0x0A # ''%d'')) [PInt (pid (procs s i))]) (\<lambda>s1.
       if pid (procs s1 i) = n then
         rbind (printf c s1 (Some (CHR 0x0A # ''%d'')) [PInt (pid (procs s1 i))]) (\<lambda>s2.
         rbind (printf c s2 (Some (CHR 0x0A # '' priority: %d'')) [PInt prio]) (\<lambda>s3.
         let s4 = upd_proc i (\<lambda>p. p\<lparr>niceValue := prio\<rparr>) s3
         in rbind (printf c s4 (Some (CHR 0x0A # ''nice value %d'')) [PInt (niceValue (procs s4 i))]) (\<lambda>s5.
            let s6 = upd_proc i (\<lambda>p. p\<lparr>weightValue := calculateWeight (niceValue p)\<rparr>) s5
            in printf c s6 (Some (CHR 0x0A # ''nice value %d'')) [PInt (niceValue (procs s6 i))])))
       else chprio_loop c s1 n prio is)"

definition chprio :: "nat \<Rightarrow> 'a io_state_scheme \<Rightarrow> int \<Rightarrow> int \<Rightarrow> ('a io_state_scheme \<times> int) res" where
  "chprio c s n prio =
     rbind (chprio_loop c s n prio [0..<NPROC]) (\<lambda>s1.
     rbind (procs_list c s1) (\<lambda>(s2, _). Ok (s2, n)))"

end
