(* ===== verification/Bio.thy ===== *)
theory Bio
  imports Proc
begin

text \<open>
  \<^verbatim>\<open>kernel/sleeplock.c\<close>, the disk driver \<^verbatim>\<open>kernel/virtio_disk.c\<close>, and the buffer cache \<^verbatim>\<open>kernel/bio.c\<close>. A routine
  that would sleep waiting for another process does not return in the given state (\<open>Hang\<close>); a
  routine that sleeps for the disk goes on when the device has finished and its interrupt has been
  handled.
\<close>

section \<open>Sleep locks\<close>

record sleeplock =
  sl_locked :: uint
  sl_lk :: spinlock
  sl_name :: string
  sl_pid :: int

text \<open>A reference to a sleep lock in the state, with the wait channel its address is.\<close>

type_synonym 's sleepref = "('s \<Rightarrow> sleeplock) \<times> ((sleeplock \<Rightarrow> sleeplock) \<Rightarrow> 's \<Rightarrow> 's) \<times> channel"

definition sl_L :: "'s sleepref \<Rightarrow> 's lockref" where
  "sl_L S = (case S of (get, upd, ch) \<Rightarrow> (\<lambda>s. sl_lk (get s), \<lambda>f. upd (\<lambda>l. l\<lparr>sl_lk := f (sl_lk l)\<rparr>)))"

definition initsleeplock :: "sleeplock \<Rightarrow> string \<Rightarrow> sleeplock" where
  "initsleeplock lk nm = lk\<lparr>sl_lk := initlock (sl_lk lk) ''sleep lock'', sl_name := nm, sl_locked := 0, sl_pid := 0\<rparr>"

definition acquiresleep :: "nat \<Rightarrow> ('a rq_state_scheme) sleepref \<Rightarrow> 'a rq_state_scheme \<Rightarrow> 'a rq_state_scheme res" where
  "acquiresleep c S s =
     rbind (lk_acquire c (sl_L S) s) (\<lambda>s1.
       if sl_locked (fst S s1) \<noteq> 0 then Hang
       else let s2 = fst (snd S) (\<lambda>l. l\<lparr>sl_locked := 1\<rparr>) s1
            in rbind (myproc c s2) (\<lambda>(s3, p). deref p (\<lambda>i.
               lk_release c (sl_L S) (fst (snd S) (\<lambda>l. l\<lparr>sl_pid := pid (procs s3 i)\<rparr>) s3))))"

definition releasesleep :: "nat \<Rightarrow> ('a rq_state_scheme) sleepref \<Rightarrow> 'a rq_state_scheme \<Rightarrow> 'a rq_state_scheme res" where
  "releasesleep c S s =
     rbind (lk_acquire c (sl_L S) s) (\<lambda>s1.
       let s2 = fst (snd S) (\<lambda>l. l\<lparr>sl_locked := 0, sl_pid := 0\<rparr>) s1
       in rbind (wakeup c s2 (snd (snd S))) (\<lambda>s3. lk_release c (sl_L S) s3))"

definition holdingsleep :: "nat \<Rightarrow> ('a rq_state_scheme) sleepref \<Rightarrow> 'a rq_state_scheme \<Rightarrow> ('a rq_state_scheme \<times> bool) res" where
  "holdingsleep c S s =
     rbind (lk_acquire c (sl_L S) s) (\<lambda>s1.
     rbind (if sl_locked (fst S s1) \<noteq> 0
            then rbind (myproc c s1) (\<lambda>(s2, p). deref p (\<lambda>i. Ok (s2, sl_pid (fst S s2) = pid (procs s2 i))))
            else Ok (s1, False)) (\<lambda>(s2, r).
     rbind (lk_release c (sl_L S) s2) (\<lambda>s3. Ok (s3, r))))"

section \<open>The disk driver's structures\<close>

text \<open>The device's registers by name, its status bits and its feature bits (\<^verbatim>\<open>virtio.h\<close>).\<close>

datatype virtio_mmio =
    VIRTIO_MMIO_MAGIC_VALUE | VIRTIO_MMIO_VERSION | VIRTIO_MMIO_DEVICE_ID | VIRTIO_MMIO_VENDOR_ID
    | VIRTIO_MMIO_DEVICE_FEATURES | VIRTIO_MMIO_DRIVER_FEATURES | VIRTIO_MMIO_QUEUE_SEL | VIRTIO_MMIO_QUEUE_NUM_MAX
    | VIRTIO_MMIO_QUEUE_NUM | VIRTIO_MMIO_QUEUE_READY | VIRTIO_MMIO_QUEUE_NOTIFY | VIRTIO_MMIO_INTERRUPT_STATUS
    | VIRTIO_MMIO_INTERRUPT_ACK | VIRTIO_MMIO_STATUS | VIRTIO_MMIO_QUEUE_DESC_LOW | VIRTIO_MMIO_QUEUE_DESC_HIGH
    | VIRTIO_MMIO_DRIVER_DESC_LOW | VIRTIO_MMIO_DRIVER_DESC_HIGH | VIRTIO_MMIO_DEVICE_DESC_LOW
    | VIRTIO_MMIO_DEVICE_DESC_HIGH

definition VIRTIO_CONFIG_S_ACKNOWLEDGE :: uint where "VIRTIO_CONFIG_S_ACKNOWLEDGE = 1"
definition VIRTIO_CONFIG_S_DRIVER :: uint where "VIRTIO_CONFIG_S_DRIVER = 2"
definition VIRTIO_CONFIG_S_DRIVER_OK :: uint where "VIRTIO_CONFIG_S_DRIVER_OK = 4"
definition VIRTIO_CONFIG_S_FEATURES_OK :: uint where "VIRTIO_CONFIG_S_FEATURES_OK = 8"

datatype virtio_feature =
    VIRTIO_BLK_F_RO | VIRTIO_BLK_F_SCSI | VIRTIO_BLK_F_CONFIG_WCE
  | VIRTIO_BLK_F_MQ | VIRTIO_F_ANY_LAYOUT | VIRTIO_RING_F_INDIRECT_DESC
  | VIRTIO_RING_F_EVENT_IDX

fun feature_bit :: "virtio_feature \<Rightarrow> nat" where
  "feature_bit VIRTIO_BLK_F_RO = 5"
| "feature_bit VIRTIO_BLK_F_SCSI = 7"
| "feature_bit VIRTIO_BLK_F_CONFIG_WCE = 11"
| "feature_bit VIRTIO_BLK_F_MQ = 12"
| "feature_bit VIRTIO_F_ANY_LAYOUT = 27"
| "feature_bit VIRTIO_RING_F_INDIRECT_DESC = 28"
| "feature_bit VIRTIO_RING_F_EVENT_IDX = 29"

definition NUM :: nat where "NUM = 8"
definition VRING_DESC_F_NEXT :: ushort where "VRING_DESC_F_NEXT = 1"
definition VRING_DESC_F_WRITE :: ushort where "VRING_DESC_F_WRITE = 2"
definition VIRTIO_BLK_T_IN :: uint where "VIRTIO_BLK_T_IN = 0"
definition VIRTIO_BLK_T_OUT :: uint where "VIRTIO_BLK_T_OUT = 1"
definition BSIZE :: nat where "BSIZE = 1024"

text \<open>The addresses a descriptor holds: \<^verbatim>\<open>&disk.ops[i]\<close>, \<^verbatim>\<open>b->data\<close>, \<^verbatim>\<open>&disk.info[i].status\<close>.\<close>

datatype daddr = DNull | DOp nat | DData nat | DStatus nat

record virtq_desc =
  d_addr :: daddr
  d_len :: uint
  d_flags :: ushort
  d_next :: ushort

record virtq_avail =
  av_idx :: ushort
  av_ring :: "nat \<Rightarrow> ushort"

record virtq_used =
  us_idx :: ushort
  us_ring :: "nat \<Rightarrow> uint"

record virtio_blk_req =
  rq_type :: uint
  rq_reserved :: uint
  rq_sector :: uint64

record disk_info =
  i_b :: "nat option"
  i_status :: uchar

record vdisk =
  vd_desc :: "nat \<Rightarrow> virtq_desc"
  vd_avail :: virtq_avail
  vd_used :: virtq_used
  vd_free :: "nat \<Rightarrow> bool"
  vd_used_idx :: ushort
  vd_info :: "nat \<Rightarrow> disk_info"
  vd_ops :: "nat \<Rightarrow> virtio_blk_req"
  vdisk_lock :: spinlock
  vd_pages :: "uint64 \<times> uint64 \<times> uint64"
  vd_mmio :: "virtio_mmio \<Rightarrow> uint"

record buf =
  b_valid :: bool
  b_disk :: bool
  b_dev :: uint
  b_blockno :: uint
  b_lock :: sleeplock
  b_refcnt :: uint
  b_prev :: nat
  b_next :: nat
  b_data :: "uchar list"

text \<open>
  The device is a parameter: what it does to the queue, the data of the buffers and the disk when it
  is notified; and the status register it shows after one is written. \<open>platter\<close> holds the disk's
  blocks.
\<close>

type_synonym platter = "nat \<Rightarrow> uchar list"

record dstate = pstate +
  vdisk :: vdisk
  platter :: platter
  vdevice :: "vdisk \<times> (nat \<Rightarrow> uchar list) \<times> platter \<Rightarrow> vdisk \<times> (nat \<Rightarrow> uchar list) \<times> platter"
  vstatus :: "uint \<Rightarrow> uint"
  bcache_lock :: spinlock
  bufs :: "nat \<Rightarrow> buf"
  bcache_addr :: uint64

definition upd_vd :: "(vdisk \<Rightarrow> vdisk) \<Rightarrow> 'a dstate_scheme \<Rightarrow> 'a dstate_scheme" where
  "upd_vd f s = s\<lparr>vdisk := f (vdisk s)\<rparr>"

definition upd_buf :: "nat \<Rightarrow> (buf \<Rightarrow> buf) \<Rightarrow> 'a dstate_scheme \<Rightarrow> 'a dstate_scheme" where
  "upd_buf b f s = s\<lparr>bufs := (bufs s)(b := f (bufs s b))\<rparr>"

definition vdisk_L :: "('a dstate_scheme) lockref" where
  "vdisk_L = (\<lambda>s. vdisk_lock (vdisk s), \<lambda>f. upd_vd (\<lambda>d. d\<lparr>vdisk_lock := f (vdisk_lock d)\<rparr>))"

definition bcache_L :: "('a dstate_scheme) lockref" where
  "bcache_L = (bcache_lock, \<lambda>f s. s\<lparr>bcache_lock := f (bcache_lock s)\<rparr>)"

definition buf_S :: "nat \<Rightarrow> ('a dstate_scheme) sleepref" where
  "buf_S b = (\<lambda>s. b_lock (bufs s b), \<lambda>f. upd_buf b (\<lambda>x. x\<lparr>b_lock := f (b_lock x)\<rparr>), ChanBufLock b)"

section \<open>virtio_disk.c\<close>

definition mmio_w :: "virtio_mmio \<Rightarrow> uint \<Rightarrow> 'a dstate_scheme \<Rightarrow> 'a dstate_scheme" where
  "mmio_w r v s = upd_vd (\<lambda>d. d\<lparr>vd_mmio := (vd_mmio d)(r := v)\<rparr>) s"

definition set_status :: "uint \<Rightarrow> 'a dstate_scheme \<Rightarrow> 'a dstate_scheme" where
  "set_status v s = mmio_w VIRTIO_MMIO_STATUS (vstatus s v) s"

definition zero_desc :: virtq_desc where
  "zero_desc = \<lparr>d_addr = DNull, d_len = 0, d_flags = 0, d_next = 0\<rparr>"

definition virtio_features :: "uint \<Rightarrow> uint" where
  "virtio_features f =
     foldl (\<lambda>f b. f AND NOT (push_bit (feature_bit b) 1)) f
       [VIRTIO_BLK_F_RO, VIRTIO_BLK_F_SCSI, VIRTIO_BLK_F_CONFIG_WCE, VIRTIO_BLK_F_MQ, VIRTIO_F_ANY_LAYOUT,
        VIRTIO_RING_F_EVENT_IDX, VIRTIO_RING_F_INDIRECT_DESC]"

text \<open>From the allocation of the queue pages on.\<close>

definition virtio_queue_init :: "nat \<Rightarrow> 'a dstate_scheme \<Rightarrow> 'a dstate_scheme res" where
  "virtio_queue_init c s =
     rbind (kalloc c s) (\<lambda>(s1, desc).
     rbind (kalloc c s1) (\<lambda>(s2, avail).
     rbind (kalloc c s2) (\<lambda>(s3, used).
       if desc = 0 \<or> avail = 0 \<or> used = 0 then Panic ''virtio disk kalloc''
       else
         let s4 = s3\<lparr>mem := memset (mem s3) desc 0 (ucast PGSIZE)\<rparr>;
             s5 = s4\<lparr>mem := memset (mem s4) avail 0 (ucast PGSIZE)\<rparr>;
             s6 = s5\<lparr>mem := memset (mem s5) used 0 (ucast PGSIZE)\<rparr>;
             s7 = upd_vd (\<lambda>d. d\<lparr>vd_pages := (desc, avail, used), vd_desc := (\<lambda>_. zero_desc),
                    vd_avail := \<lparr>av_idx = 0, av_ring = (\<lambda>_. 0)\<rparr>, vd_used := \<lparr>us_idx = 0, us_ring = (\<lambda>_. 0)\<rparr>\<rparr>) s6;
             s8 = mmio_w VIRTIO_MMIO_QUEUE_NUM (of_nat NUM) s7;
             s9 = mmio_w VIRTIO_MMIO_QUEUE_DESC_HIGH (ucast (drop_bit 32 desc)) (mmio_w VIRTIO_MMIO_QUEUE_DESC_LOW (ucast desc) s8);
             s10 = mmio_w VIRTIO_MMIO_DRIVER_DESC_HIGH (ucast (drop_bit 32 avail)) (mmio_w VIRTIO_MMIO_DRIVER_DESC_LOW (ucast avail) s9);
             s11 = mmio_w VIRTIO_MMIO_DEVICE_DESC_HIGH (ucast (drop_bit 32 used)) (mmio_w VIRTIO_MMIO_DEVICE_DESC_LOW (ucast used) s10);
             s12 = mmio_w VIRTIO_MMIO_QUEUE_READY 1 s11
         in Ok (upd_vd (\<lambda>d. d\<lparr>vd_free := (\<lambda>i. if i < NUM then True else vd_free d i)\<rparr>) s12))))"

definition virtio_disk_init :: "nat \<Rightarrow> 'a dstate_scheme \<Rightarrow> 'a dstate_scheme res" where
  "virtio_disk_init c s0 =
     (let s = upd_vd (\<lambda>d. d\<lparr>vdisk_lock := initlock (vdisk_lock d) ''virtio_disk''\<rparr>) s0;
          R = vd_mmio (vdisk s)
      in if R VIRTIO_MMIO_MAGIC_VALUE \<noteq> 0x74726976 \<or> R VIRTIO_MMIO_VERSION \<noteq> 2 \<or> R VIRTIO_MMIO_DEVICE_ID \<noteq> 2 \<or>
             R VIRTIO_MMIO_VENDOR_ID \<noteq> 0x554d4551 then Panic ''could not find virtio disk''
         else
           let st1 = VIRTIO_CONFIG_S_ACKNOWLEDGE; st2 = st1 OR VIRTIO_CONFIG_S_DRIVER; st3 = st2 OR VIRTIO_CONFIG_S_FEATURES_OK;
               s1 = set_status st2 (set_status st1 (set_status 0 s));
               s2 = mmio_w VIRTIO_MMIO_DRIVER_FEATURES (virtio_features (vd_mmio (vdisk s1) VIRTIO_MMIO_DEVICE_FEATURES)) s1;
               s3 = set_status st3 s2;
               status = vd_mmio (vdisk s3) VIRTIO_MMIO_STATUS
           in if status AND VIRTIO_CONFIG_S_FEATURES_OK = 0 then Panic ''virtio disk FEATURES_OK unset''
              else
                let s4 = mmio_w VIRTIO_MMIO_QUEUE_SEL 0 s3
                in if vd_mmio (vdisk s4) VIRTIO_MMIO_QUEUE_READY \<noteq> 0 then Panic ''virtio disk should not be ready''
                   else if vd_mmio (vdisk s4) VIRTIO_MMIO_QUEUE_NUM_MAX = 0 then Panic ''virtio disk has no queue 0''
                   else if vd_mmio (vdisk s4) VIRTIO_MMIO_QUEUE_NUM_MAX < of_nat NUM then Panic ''virtio disk max queue too short''
                   else rbind (virtio_queue_init c s4) (\<lambda>s5. Ok (set_status (status OR VIRTIO_CONFIG_S_DRIVER_OK) s5)))"

fun alloc_desc_loop :: "'a dstate_scheme \<Rightarrow> nat list \<Rightarrow> 'a dstate_scheme \<times> nat option" where
  "alloc_desc_loop s [] = (s, None)"
| "alloc_desc_loop s (i # is) =
     (if vd_free (vdisk s) i then (upd_vd (\<lambda>d. d\<lparr>vd_free := (vd_free d)(i := False)\<rparr>) s, Some i)
      else alloc_desc_loop s is)"

definition alloc_desc :: "'a dstate_scheme \<Rightarrow> 'a dstate_scheme \<times> nat option" where
  "alloc_desc s = alloc_desc_loop s [0..<NUM]"

definition free_desc :: "nat \<Rightarrow> 'a dstate_scheme \<Rightarrow> nat \<Rightarrow> 'a dstate_scheme res" where
  "free_desc c s i =
     (if i \<ge> NUM then Panic ''free_desc 1''
      else if vd_free (vdisk s) i then Panic ''free_desc 2''
      else wakeup c (upd_vd (\<lambda>d. d\<lparr>vd_desc := (vd_desc d)(i := zero_desc), vd_free := (vd_free d)(i := True)\<rparr>) s) ChanDisk)"

text \<open>Every iteration frees a descriptor that was not free, so \<^verbatim>\<open>NUM\<close> iterations are enough.\<close>

fun free_chain_loop :: "nat \<Rightarrow> nat \<Rightarrow> 'a dstate_scheme \<Rightarrow> nat \<Rightarrow> 'a dstate_scheme res" where
  "free_chain_loop 0 c s i = Hang"
| "free_chain_loop (Suc n) c s i =
     (let flag = d_flags (vd_desc (vdisk s) i); nxt = d_next (vd_desc (vdisk s) i)
      in rbind (free_desc c s i) (\<lambda>s1.
         if flag AND VRING_DESC_F_NEXT \<noteq> 0 then free_chain_loop n c s1 (unat nxt) else Ok s1))"

definition free_chain :: "nat \<Rightarrow> 'a dstate_scheme \<Rightarrow> nat \<Rightarrow> 'a dstate_scheme res" where
  "free_chain c s i = free_chain_loop (Suc NUM) c s i"

fun free_descs :: "nat \<Rightarrow> 'a dstate_scheme \<Rightarrow> nat list \<Rightarrow> 'a dstate_scheme res" where
  "free_descs c s [] = Ok s"
| "free_descs c s (i # is) = rbind (free_desc c s i) (\<lambda>s1. free_descs c s1 is)"

fun alloc3_loop :: "nat \<Rightarrow> 'a dstate_scheme \<Rightarrow> nat list \<Rightarrow> nat \<Rightarrow> ('a dstate_scheme \<times> nat list option) res" where
  "alloc3_loop c s idx 0 = Ok (s, Some idx)"
| "alloc3_loop c s idx (Suc k) =
     (case alloc_desc s of (s1, r) \<Rightarrow>
        (case r of None \<Rightarrow> rbind (free_descs c s1 idx) (\<lambda>s2. Ok (s2, None))
         | Some i \<Rightarrow> alloc3_loop c s1 (idx @ [i]) k))"

definition alloc3_desc :: "nat \<Rightarrow> 'a dstate_scheme \<Rightarrow> ('a dstate_scheme \<times> nat list option) res" where
  "alloc3_desc c s = alloc3_loop c s [] 3"

definition set_desc :: "nat \<Rightarrow> virtq_desc \<Rightarrow> 'a dstate_scheme \<Rightarrow> 'a dstate_scheme" where
  "set_desc i d s = upd_vd (\<lambda>v. v\<lparr>vd_desc := (vd_desc v)(i := d)\<rparr>) s"

text \<open>Formatting the three descriptors, recording the buffer and publishing the request.\<close>

definition virtio_submit :: "'a dstate_scheme \<Rightarrow> nat \<Rightarrow> bool \<Rightarrow> nat list \<Rightarrow> 'a dstate_scheme" where
  "virtio_submit s b wr idx =
     (let i0 = idx ! 0; i1 = idx ! 1; i2 = idx ! 2;
          sector = ucast (b_blockno (bufs s b) * of_nat (BSIZE div 512)) :: uint64;
          s1 = upd_vd (\<lambda>d. d\<lparr>vd_ops := (vd_ops d)(i0 := \<lparr>rq_type = (if wr then VIRTIO_BLK_T_OUT else VIRTIO_BLK_T_IN),
                 rq_reserved = 0, rq_sector = sector\<rparr>)\<rparr>) s;
          s2 = set_desc i0 \<lparr>d_addr = DOp i0, d_len = 16, d_flags = VRING_DESC_F_NEXT, d_next = of_nat i1\<rparr> s1;
          s3 = set_desc i1 \<lparr>d_addr = DData b, d_len = of_nat BSIZE,
                 d_flags = (if wr then 0 else VRING_DESC_F_WRITE) OR VRING_DESC_F_NEXT, d_next = of_nat i2\<rparr> s2;
          s4 = upd_vd (\<lambda>d. d\<lparr>vd_info := (vd_info d)(i0 := (vd_info d i0)\<lparr>i_status := 0xff\<rparr>)\<rparr>) s3;
          s5 = set_desc i2 \<lparr>d_addr = DStatus i0, d_len = 1, d_flags = VRING_DESC_F_WRITE, d_next = 0\<rparr> s4;
          s6 = upd_buf b (\<lambda>x. x\<lparr>b_disk := True\<rparr>) s5;
          s7 = upd_vd (\<lambda>d. d\<lparr>vd_info := (vd_info d)(i0 := (vd_info d i0)\<lparr>i_b := Some b\<rparr>)\<rparr>) s6;
          s8 = upd_vd (\<lambda>d. d\<lparr>vd_avail := (vd_avail d)\<lparr>av_ring :=
                 (av_ring (vd_avail d))(unat (av_idx (vd_avail d)) mod NUM := of_nat i0)\<rparr>\<rparr>) s7;
          s9 = upd_vd (\<lambda>d. d\<lparr>vd_avail := (vd_avail d)\<lparr>av_idx := av_idx (vd_avail d) + 1\<rparr>\<rparr>) s8
      in mmio_w VIRTIO_MMIO_QUEUE_NOTIFY 0 s9)"

text \<open>The interrupt handler; its loop ends when it has caught up with the device's index.\<close>

fun virtio_intr_loop :: "nat \<Rightarrow> nat \<Rightarrow> 'a dstate_scheme \<Rightarrow> 'a dstate_scheme res" where
  "virtio_intr_loop 0 c s = Ok s"
| "virtio_intr_loop (Suc n) c s =
     (let i = unat (us_ring (vd_used (vdisk s)) (unat (vd_used_idx (vdisk s)) mod NUM))
      in if i \<ge> NUM then Fault
         else if i_status (vd_info (vdisk s) i) \<noteq> 0 then Panic ''virtio_disk_intr status''
         else deref (i_b (vd_info (vdisk s) i)) (\<lambda>b.
           rbind (wakeup c (upd_buf b (\<lambda>x. x\<lparr>b_disk := False\<rparr>) s) (ChanBuf b)) (\<lambda>s1.
           virtio_intr_loop n c (upd_vd (\<lambda>d. d\<lparr>vd_used_idx := vd_used_idx d + 1\<rparr>) s1))))"

definition virtio_disk_intr :: "nat \<Rightarrow> 'a dstate_scheme \<Rightarrow> 'a dstate_scheme res" where
  "virtio_disk_intr c s =
     rbind (lk_acquire c vdisk_L s) (\<lambda>s1.
       let s2 = mmio_w VIRTIO_MMIO_INTERRUPT_ACK (vd_mmio (vdisk s1) VIRTIO_MMIO_INTERRUPT_STATUS AND 3) s1
       in rbind (virtio_intr_loop (unat (us_idx (vd_used (vdisk s2)) - vd_used_idx (vdisk s2))) c s2) (\<lambda>s3.
          lk_release c vdisk_L s3))"

definition device_run :: "'a dstate_scheme \<Rightarrow> 'a dstate_scheme" where
  "device_run s =
     (case vdevice s (vdisk s, (\<lambda>b. b_data (bufs s b)), platter s) of (vd, bd, pl) \<Rightarrow>
        s\<lparr>vdisk := vd, bufs := (\<lambda>b. (bufs s b)\<lparr>b_data := bd b\<rparr>), platter := pl\<rparr>)"

text \<open>
  The wait for the request: \<^verbatim>\<open>sleep\<close> releases the driver's lock, the device finishes, its interrupt is
  handled, and \<^verbatim>\<open>sleep\<close> takes the lock again.
\<close>

definition virtio_wait :: "nat \<Rightarrow> 'a dstate_scheme \<Rightarrow> nat \<Rightarrow> 'a dstate_scheme res" where
  "virtio_wait c s b =
     (if b_disk (bufs s b) then
        rbind (lk_release c vdisk_L s) (\<lambda>s1.
        rbind (virtio_disk_intr c (device_run s1)) (\<lambda>s2.
        rbind (lk_acquire c vdisk_L s2) (\<lambda>s3.
        if b_disk (bufs s3 b) then Hang else Ok s3)))
      else Ok s)"

definition virtio_disk_rw :: "nat \<Rightarrow> 'a dstate_scheme \<Rightarrow> nat \<Rightarrow> bool \<Rightarrow> 'a dstate_scheme res" where
  "virtio_disk_rw c s b wr =
     rbind (lk_acquire c vdisk_L s) (\<lambda>s1.
     rbind (alloc3_desc c s1) (\<lambda>(s2, r).
       case r of None \<Rightarrow> Hang
       | Some idx \<Rightarrow>
         rbind (virtio_wait c (virtio_submit s2 b wr idx) b) (\<lambda>s3.
         let s4 = upd_vd (\<lambda>d. d\<lparr>vd_info := (vd_info d)(idx ! 0 := (vd_info d (idx ! 0))\<lparr>i_b := None\<rparr>)\<rparr>) s3
         in rbind (free_chain c s4 (idx ! 0)) (\<lambda>s5. lk_release c vdisk_L s5))))"

section \<open>bio.c\<close>

text \<open>Buffer pointers are indices; \<^verbatim>\<open>&bcache.head\<close> is \<open>NBUF\<close>.\<close>

definition bhead :: nat where "bhead = NBUF"

definition link_first :: "nat \<Rightarrow> 'a dstate_scheme \<Rightarrow> 'a dstate_scheme" where
  "link_first b s =
     (let s1 = upd_buf b (\<lambda>x. x\<lparr>b_next := b_next (bufs s bhead), b_prev := bhead\<rparr>) s;
          s2 = upd_buf (b_next (bufs s1 bhead)) (\<lambda>x. x\<lparr>b_prev := b\<rparr>) s1
      in upd_buf bhead (\<lambda>x. x\<lparr>b_next := b\<rparr>) s2)"

definition binit :: "'a dstate_scheme \<Rightarrow> 'a dstate_scheme" where
  "binit s =
     (let s1 = s\<lparr>bcache_lock := initlock (bcache_lock s) ''bcache''\<rparr>;
          s2 = upd_buf bhead (\<lambda>x. x\<lparr>b_prev := bhead, b_next := bhead\<rparr>) s1
      in fold (\<lambda>b s. link_first b (upd_buf b (\<lambda>x. x\<lparr>b_lock := initsleeplock (b_lock x) ''buffer''\<rparr>) s)) [0..<NBUF] s2)"

text \<open>The two scans of \<^verbatim>\<open>bget\<close>; the list has at most \<open>NBUF\<close> buffers.\<close>

fun bget_find :: "nat \<Rightarrow> (nat \<Rightarrow> buf) \<Rightarrow> nat \<Rightarrow> uint \<Rightarrow> uint \<Rightarrow> nat option res" where
  "bget_find 0 B b dev blockno = Hang"
| "bget_find (Suc n) B b dev blockno =
     (if b = bhead then Ok None
      else if b_dev (B b) = dev \<and> b_blockno (B b) = blockno then Ok (Some b)
      else bget_find n B (b_next (B b)) dev blockno)"

fun bget_lru :: "nat \<Rightarrow> (nat \<Rightarrow> buf) \<Rightarrow> nat \<Rightarrow> nat option res" where
  "bget_lru 0 B b = Hang"
| "bget_lru (Suc n) B b =
     (if b = bhead then Ok None
      else if b_refcnt (B b) = 0 then Ok (Some b)
      else bget_lru n B (b_prev (B b)))"

definition bget :: "nat \<Rightarrow> 'a dstate_scheme \<Rightarrow> uint \<Rightarrow> uint \<Rightarrow> ('a dstate_scheme \<times> nat) res" where
  "bget c s dev blockno =
     rbind (lk_acquire c bcache_L s) (\<lambda>s1.
     rbind (bget_find (Suc NBUF) (bufs s1) (b_next (bufs s1 bhead)) dev blockno) (\<lambda>hit.
       case hit of Some b \<Rightarrow>
         rbind (lk_release c bcache_L (upd_buf b (\<lambda>x. x\<lparr>b_refcnt := b_refcnt x + 1\<rparr>) s1)) (\<lambda>s2.
         rbind (acquiresleep c (buf_S b) s2) (\<lambda>s3. Ok (s3, b)))
       | None \<Rightarrow>
         rbind (bget_lru (Suc NBUF) (bufs s1) (b_prev (bufs s1 bhead))) (\<lambda>lru.
           case lru of Some b \<Rightarrow>
             rbind (lk_release c bcache_L (upd_buf b (\<lambda>x. x\<lparr>b_dev := dev, b_blockno := blockno, b_valid := False,
                      b_refcnt := 1\<rparr>) s1)) (\<lambda>s2.
             rbind (acquiresleep c (buf_S b) s2) (\<lambda>s3. Ok (s3, b)))
           | None \<Rightarrow> Panic ''bget: no buffers'')))"

definition bread :: "nat \<Rightarrow> 'a dstate_scheme \<Rightarrow> uint \<Rightarrow> uint \<Rightarrow> ('a dstate_scheme \<times> nat) res" where
  "bread c s dev blockno =
     rbind (bget c s dev blockno) (\<lambda>(s1, b).
       if \<not> b_valid (bufs s1 b) then
         rbind (virtio_disk_rw c s1 b False) (\<lambda>s2. Ok (upd_buf b (\<lambda>x. x\<lparr>b_valid := True\<rparr>) s2, b))
       else Ok (s1, b))"

definition bwrite :: "nat \<Rightarrow> 'a dstate_scheme \<Rightarrow> nat \<Rightarrow> 'a dstate_scheme res" where
  "bwrite c s b =
     rbind (holdingsleep c (buf_S b) s) (\<lambda>(s1, h).
       if \<not> h then Panic ''bwrite'' else virtio_disk_rw c s1 b True)"

definition brelse :: "nat \<Rightarrow> 'a dstate_scheme \<Rightarrow> nat \<Rightarrow> 'a dstate_scheme res" where
  "brelse c s b =
     rbind (holdingsleep c (buf_S b) s) (\<lambda>(s1, h).
       if \<not> h then Panic ''brelse''
       else rbind (releasesleep c (buf_S b) s1) (\<lambda>s2.
            rbind (lk_acquire c bcache_L s2) (\<lambda>s3.
            let s4 = upd_buf b (\<lambda>x. x\<lparr>b_refcnt := b_refcnt x - 1\<rparr>) s3;
                s5 = (if b_refcnt (bufs s4 b) = 0 then
                        let s41 = upd_buf (b_next (bufs s4 b)) (\<lambda>x. x\<lparr>b_prev := b_prev (bufs s4 b)\<rparr>) s4;
                            s42 = upd_buf (b_prev (bufs s41 b)) (\<lambda>x. x\<lparr>b_next := b_next (bufs s41 b)\<rparr>) s41
                        in link_first b s42
                      else s4)
            in lk_release c bcache_L s5)))"

definition bpin :: "nat \<Rightarrow> 'a dstate_scheme \<Rightarrow> nat \<Rightarrow> 'a dstate_scheme res" where
  "bpin c s b =
     rbind (lk_acquire c bcache_L s) (\<lambda>s1. lk_release c bcache_L (upd_buf b (\<lambda>x. x\<lparr>b_refcnt := b_refcnt x + 1\<rparr>) s1))"

definition bunpin :: "nat \<Rightarrow> 'a dstate_scheme \<Rightarrow> nat \<Rightarrow> 'a dstate_scheme res" where
  "bunpin c s b =
     rbind (lk_acquire c bcache_L s) (\<lambda>s1. lk_release c bcache_L (upd_buf b (\<lambda>x. x\<lparr>b_refcnt := b_refcnt x - 1\<rparr>) s1))"

end
