(* ===== verification/Log.thy ===== *)
theory Log
  imports Bio
begin

text \<open>\<^verbatim>\<open>kernel/log.c\<close>: the redo log that makes a group of block updates atomic against crashes.\<close>

section \<open>Little-endian fields of a block\<close>

definition ld16 :: "uchar list \<Rightarrow> nat \<Rightarrow> ushort" where
  "ld16 bs i = ucast (bs ! i) OR push_bit 8 (ucast (bs ! (i + 1)))"

definition st16 :: "uchar list \<Rightarrow> nat \<Rightarrow> ushort \<Rightarrow> uchar list" where
  "st16 bs i v = bs[i := ucast v, i + 1 := ucast (drop_bit 8 v)]"

definition ld32 :: "uchar list \<Rightarrow> nat \<Rightarrow> uint" where
  "ld32 bs i = ucast (bs ! i) OR push_bit 8 (ucast (bs ! (i + 1))) OR push_bit 16 (ucast (bs ! (i + 2)))
     OR push_bit 24 (ucast (bs ! (i + 3)))"

definition st32 :: "uchar list \<Rightarrow> nat \<Rightarrow> uint \<Rightarrow> uchar list" where
  "st32 bs i v = bs[i := ucast v, i + 1 := ucast (drop_bit 8 v), i + 2 := ucast (drop_bit 16 v),
     i + 3 := ucast (drop_bit 24 v)]"

section \<open>The log\<close>

text \<open>\<^verbatim>\<open>struct log\<close> with its in-memory header; \<open>lh_block\<close> has \<open>LOGSIZE\<close> entries.\<close>

record logst =
  l_lock :: spinlock
  l_start :: int
  l_size :: int
  l_outstanding :: int
  l_committing :: bool
  l_dev :: uint
  lh_n :: int
  lh_block :: "uint list"

record lstate = dstate +
  log :: logst

definition upd_log :: "(logst \<Rightarrow> logst) \<Rightarrow> 'a lstate_scheme \<Rightarrow> 'a lstate_scheme" where
  "upd_log f s = s\<lparr>log := f (log s)\<rparr>"

definition log_L :: "('a lstate_scheme) lockref" where
  "log_L = (\<lambda>s. l_lock (log s), \<lambda>f. upd_log (\<lambda>l. l\<lparr>l_lock := f (l_lock l)\<rparr>))"

text \<open>\<^verbatim>\<open>log.lh.block[i]\<close>, undefined outside the array.\<close>

definition lh_at :: "'a lstate_scheme \<Rightarrow> nat \<Rightarrow> uint res" where
  "lh_at s i = (if i < length (lh_block (log s)) then Ok (lh_block (log s) ! i) else Fault)"

definition lh_put :: "'a lstate_scheme \<Rightarrow> nat \<Rightarrow> uint \<Rightarrow> 'a lstate_scheme res" where
  "lh_put s i v = (if i < length (lh_block (log s)) then Ok (upd_log (\<lambda>l. l\<lparr>lh_block := (lh_block l)[i := v]\<rparr>) s) else Fault)"

definition set_data :: "nat \<Rightarrow> uchar list \<Rightarrow> 'a dstate_scheme \<Rightarrow> 'a dstate_scheme" where
  "set_data b bs s = upd_buf b (\<lambda>x. x\<lparr>b_data := bs\<rparr>) s"

fun install_loop :: "nat \<Rightarrow> 'a lstate_scheme \<Rightarrow> bool \<Rightarrow> nat \<Rightarrow> nat \<Rightarrow> 'a lstate_scheme res" where
  "install_loop c s recovering i 0 = Ok s"
| "install_loop c s recovering i (Suc k) =
     rbind (bread c s (l_dev (log s)) (of_int (l_start (log s) + int i + 1))) (\<lambda>(s1, lbuf).
     rbind (lh_at s1 i) (\<lambda>dst.
     rbind (bread c s1 (l_dev (log s1)) dst) (\<lambda>(s2, dbuf).
     let s3 = set_data dbuf (b_data (bufs s2 lbuf)) s2
     in rbind (bwrite c s3 dbuf) (\<lambda>s4.
        rbind (if \<not> recovering then bunpin c s4 dbuf else Ok s4) (\<lambda>s5.
        rbind (brelse c s5 lbuf) (\<lambda>s6.
        rbind (brelse c s6 dbuf) (\<lambda>s7. install_loop c s7 recovering (Suc i) k)))))))"

definition install_trans :: "nat \<Rightarrow> 'a lstate_scheme \<Rightarrow> bool \<Rightarrow> 'a lstate_scheme res" where
  "install_trans c s recovering = install_loop c s recovering 0 (nat (lh_n (log s)))"

fun read_head_loop :: "'a lstate_scheme \<Rightarrow> uchar list \<Rightarrow> nat \<Rightarrow> nat \<Rightarrow> 'a lstate_scheme res" where
  "read_head_loop s hb i 0 = Ok s"
| "read_head_loop s hb i (Suc k) = rbind (lh_put s i (ld32 hb (4 + 4 * i))) (\<lambda>s1. read_head_loop s1 hb (Suc i) k)"

definition read_head :: "nat \<Rightarrow> 'a lstate_scheme \<Rightarrow> 'a lstate_scheme res" where
  "read_head c s =
     rbind (bread c s (l_dev (log s)) (of_int (l_start (log s)))) (\<lambda>(s1, b).
     let hb = b_data (bufs s1 b);
         s2 = upd_log (\<lambda>l. l\<lparr>lh_n := sint (ld32 hb 0)\<rparr>) s1
     in rbind (read_head_loop s2 hb 0 (nat (lh_n (log s2)))) (\<lambda>s3. brelse c s3 b))"

fun write_head_loop :: "'a lstate_scheme \<Rightarrow> uchar list \<Rightarrow> nat \<Rightarrow> nat \<Rightarrow> uchar list res" where
  "write_head_loop s hb i 0 = Ok hb"
| "write_head_loop s hb i (Suc k) = rbind (lh_at s i) (\<lambda>v. write_head_loop s (st32 hb (4 + 4 * i) v) (Suc i) k)"

definition write_head :: "nat \<Rightarrow> 'a lstate_scheme \<Rightarrow> 'a lstate_scheme res" where
  "write_head c s =
     rbind (bread c s (l_dev (log s)) (of_int (l_start (log s)))) (\<lambda>(s1, b).
     let hb = st32 (b_data (bufs s1 b)) 0 (of_int (lh_n (log s1)))
     in rbind (write_head_loop s1 hb 0 (nat (lh_n (log s1)))) (\<lambda>hb1.
        rbind (bwrite c (set_data b hb1 s1) b) (\<lambda>s2. brelse c s2 b)))"

definition recover_from_log :: "nat \<Rightarrow> 'a lstate_scheme \<Rightarrow> 'a lstate_scheme res" where
  "recover_from_log c s =
     rbind (read_head c s) (\<lambda>s1.
     rbind (install_trans c s1 True) (\<lambda>s2. write_head c (upd_log (\<lambda>l. l\<lparr>lh_n := 0\<rparr>) s2)))"

definition initlog :: "nat \<Rightarrow> 'a lstate_scheme \<Rightarrow> uint \<Rightarrow> uint \<Rightarrow> uint \<Rightarrow> 'a lstate_scheme res" where
  "initlog c s dev logstart nlog =
     (if 4 + 4 * LOGSIZE \<ge> BSIZE then Panic ''initlog: too big logheader''
      else recover_from_log c (upd_log (\<lambda>l. l\<lparr>l_lock := initlock (l_lock l) ''log'', l_start := sint logstart,
             l_size := sint nlog, l_dev := dev\<rparr>) s))"

definition begin_op :: "nat \<Rightarrow> 'a lstate_scheme \<Rightarrow> 'a lstate_scheme res" where
  "begin_op c s =
     rbind (lk_acquire c log_L s) (\<lambda>s1.
       if l_committing (log s1) then Hang
       else if lh_n (log s1) + (l_outstanding (log s1) + 1) * int MAXOPBLOCKS > int LOGSIZE then Hang
       else lk_release c log_L (upd_log (\<lambda>l. l\<lparr>l_outstanding := l_outstanding l + 1\<rparr>) s1))"

fun write_log_loop :: "nat \<Rightarrow> 'a lstate_scheme \<Rightarrow> nat \<Rightarrow> nat \<Rightarrow> 'a lstate_scheme res" where
  "write_log_loop c s i 0 = Ok s"
| "write_log_loop c s i (Suc k) =
     rbind (bread c s (l_dev (log s)) (of_int (l_start (log s) + int i + 1))) (\<lambda>(s1, to).
     rbind (lh_at s1 i) (\<lambda>src.
     rbind (bread c s1 (l_dev (log s1)) src) (\<lambda>(s2, frm).
     let s3 = set_data to (b_data (bufs s2 frm)) s2
     in rbind (bwrite c s3 to) (\<lambda>s4.
        rbind (brelse c s4 frm) (\<lambda>s5.
        rbind (brelse c s5 to) (\<lambda>s6. write_log_loop c s6 (Suc i) k))))))"

definition write_log :: "nat \<Rightarrow> 'a lstate_scheme \<Rightarrow> 'a lstate_scheme res" where
  "write_log c s = write_log_loop c s 0 (nat (lh_n (log s)))"

definition commit :: "nat \<Rightarrow> 'a lstate_scheme \<Rightarrow> 'a lstate_scheme res" where
  "commit c s =
     (if lh_n (log s) > 0 then
        rbind (write_log c s) (\<lambda>s1.
        rbind (write_head c s1) (\<lambda>s2.
        rbind (install_trans c s2 False) (\<lambda>s3.
        write_head c (upd_log (\<lambda>l. l\<lparr>lh_n := 0\<rparr>) s3))))
      else Ok s)"

definition end_op :: "nat \<Rightarrow> 'a lstate_scheme \<Rightarrow> 'a lstate_scheme res" where
  "end_op c s =
     rbind (lk_acquire c log_L s) (\<lambda>s1.
       let s2 = upd_log (\<lambda>l. l\<lparr>l_outstanding := l_outstanding l - 1\<rparr>) s1
       in if l_committing (log s2) then Panic ''log.committing''
          else
            let do_commit = (l_outstanding (log s2) = 0)
            in rbind (if do_commit then Ok (upd_log (\<lambda>l. l\<lparr>l_committing := True\<rparr>) s2) else wakeup c s2 ChanLog) (\<lambda>s3.
               rbind (lk_release c log_L s3) (\<lambda>s4.
               if do_commit then
                 rbind (commit c s4) (\<lambda>s5.
                 rbind (lk_acquire c log_L s5) (\<lambda>s6.
                 rbind (wakeup c (upd_log (\<lambda>l. l\<lparr>l_committing := False\<rparr>) s6) ChanLog) (\<lambda>s7.
                 lk_release c log_L s7)))
               else Ok s4)))"

text \<open>The scan of \<^verbatim>\<open>log_write\<close>: the slot of the block, or the first unused one.\<close>

fun log_slot :: "uint list \<Rightarrow> uint \<Rightarrow> nat \<Rightarrow> nat \<Rightarrow> nat" where
  "log_slot bl blockno i 0 = i"
| "log_slot bl blockno i (Suc k) = (if bl ! i = blockno then i else log_slot bl blockno (Suc i) k)"

definition log_write :: "nat \<Rightarrow> 'a lstate_scheme \<Rightarrow> nat \<Rightarrow> 'a lstate_scheme res" where
  "log_write c s b =
     rbind (lk_acquire c log_L s) (\<lambda>s1.
       if lh_n (log s1) \<ge> int LOGSIZE \<or> lh_n (log s1) \<ge> l_size (log s1) - 1 then Panic ''too big a transaction''
       else if l_outstanding (log s1) < 1 then Panic ''log_write outside of trans''
       else
         let blockno = b_blockno (bufs s1 b);
             i = log_slot (lh_block (log s1)) blockno 0 (nat (lh_n (log s1)))
         in rbind (lh_put s1 i blockno) (\<lambda>s2.
            rbind (if int i = lh_n (log s2) then
                     rbind (bpin c s2 b) (\<lambda>s3. Ok (upd_log (\<lambda>l. l\<lparr>lh_n := lh_n l + 1\<rparr>) s3))
                   else Ok s2) (\<lambda>s4. lk_release c log_L s4)))"

end
