(* ===== verification/Fs.thy ===== *)
theory Fs
  imports Log
begin

text \<open>\<^verbatim>\<open>kernel/fs.c\<close>: block allocation, inodes, file contents, directories and path names.\<close>

section \<open>On-disk format (fs.h)\<close>

definition ROOTINO :: uint where "ROOTINO = 1"
definition FSMAGIC :: uint where "FSMAGIC = 0x10203040"
definition NDIRECT :: nat where "NDIRECT = 12"
definition NINDIRECT :: nat where "NINDIRECT = BSIZE div 4"
definition MAXFILE :: nat where "MAXFILE = NDIRECT + NINDIRECT"
definition IPB :: nat where "IPB = BSIZE div 64"
definition BPB :: nat where "BPB = BSIZE * 8"
definition DIRSIZ :: nat where "DIRSIZ = 14"
definition T_DIR :: ushort where "T_DIR = 1"
definition T_FILE :: ushort where "T_FILE = 2"
definition T_DEVICE :: ushort where "T_DEVICE = 3"

lemmas fs_consts = ROOTINO_def FSMAGIC_def NDIRECT_def NINDIRECT_def MAXFILE_def IPB_def BPB_def DIRSIZ_def
  T_DIR_def T_FILE_def T_DEVICE_def BSIZE_def

record superblock =
  sb_magic :: uint
  sb_size :: uint
  sb_nblocks :: uint
  sb_ninodes :: uint
  sb_nlog :: uint
  sb_logstart :: uint
  sb_inodestart :: uint
  sb_bmapstart :: uint

record inode =
  in_dev :: uint
  in_inum :: uint
  in_ref :: int
  in_lock :: sleeplock
  in_valid :: bool
  in_type :: ushort
  in_major :: ushort
  in_minor :: ushort
  in_nlink :: ushort
  in_size :: uint
  in_addrs :: "uint list"

record stat =
  st_dev :: int
  st_ino :: uint
  st_type :: ushort
  st_nlink :: ushort
  st_size :: uint64

record fstate = lstate +
  sb :: superblock
  itable_lock :: spinlock
  inodes :: "nat \<Rightarrow> inode"

definition upd_inode :: "nat \<Rightarrow> (inode \<Rightarrow> inode) \<Rightarrow> 'a fstate_scheme \<Rightarrow> 'a fstate_scheme" where
  "upd_inode i f s = s\<lparr>inodes := (inodes s)(i := f (inodes s i))\<rparr>"

definition itable_L :: "('a fstate_scheme) lockref" where
  "itable_L = (itable_lock, \<lambda>f s. s\<lparr>itable_lock := f (itable_lock s)\<rparr>)"

definition inode_S :: "nat \<Rightarrow> ('a fstate_scheme) sleepref" where
  "inode_S i = (\<lambda>s. in_lock (inodes s i), \<lambda>f. upd_inode i (\<lambda>x. x\<lparr>in_lock := f (in_lock x)\<rparr>), ChanInodeLock i)"

definition IBLOCK :: "uint \<Rightarrow> superblock \<Rightarrow> uint" where
  "IBLOCK i b = i div of_nat IPB + sb_inodestart b"

definition BBLOCK :: "uint \<Rightarrow> superblock \<Rightarrow> uint" where
  "BBLOCK b x = b div of_nat BPB + sb_bmapstart x"

text \<open>\<open>b->data\<close> of buffer \<open>b\<close> in the kernel's data segment: \<^verbatim>\<open>struct buf\<close> is 1112 bytes, \<^verbatim>\<open>data\<close> at 88.\<close>

definition bdata_addr :: "'a dstate_scheme \<Rightarrow> nat \<Rightarrow> uint64" where
  "bdata_addr s b = bcache_addr s + of_nat (1112 * b + 88)"

section \<open>Super block and block allocation\<close>

definition get_sb :: "uchar list \<Rightarrow> superblock" where
  "get_sb d = \<lparr>sb_magic = ld32 d 0, sb_size = ld32 d 4, sb_nblocks = ld32 d 8, sb_ninodes = ld32 d 12,
     sb_nlog = ld32 d 16, sb_logstart = ld32 d 20, sb_inodestart = ld32 d 24, sb_bmapstart = ld32 d 28\<rparr>"

definition readsb :: "nat \<Rightarrow> 'a fstate_scheme \<Rightarrow> uint \<Rightarrow> 'a fstate_scheme res" where
  "readsb c s dev =
     rbind (bread c s dev 1) (\<lambda>(s1, bp). brelse c (s1\<lparr>sb := get_sb (b_data (bufs s1 bp))\<rparr>) bp)"

definition fsinit :: "nat \<Rightarrow> 'a fstate_scheme \<Rightarrow> uint \<Rightarrow> 'a fstate_scheme res" where
  "fsinit c s dev =
     rbind (readsb c s dev) (\<lambda>s1.
       if sb_magic (sb s1) \<noteq> FSMAGIC then Panic ''invalid file system''
       else initlog c s1 dev (sb_logstart (sb s1)) (sb_nlog (sb s1)))"

definition bzero :: "nat \<Rightarrow> 'a fstate_scheme \<Rightarrow> uint \<Rightarrow> uint \<Rightarrow> 'a fstate_scheme res" where
  "bzero c s dev bno =
     rbind (bread c s dev bno) (\<lambda>(s1, bp).
     rbind (log_write c (set_data bp (replicate BSIZE 0) s1) bp) (\<lambda>s2. brelse c s2 bp))"

text \<open>The bit of a block in a bitmap block's data.\<close>

definition bit_set :: "uchar list \<Rightarrow> nat \<Rightarrow> bool" where
  "bit_set d bi \<longleftrightarrow> (d ! (bi div 8)) AND push_bit (bi mod 8) 1 \<noteq> 0"

definition mark_bit :: "uchar list \<Rightarrow> nat \<Rightarrow> uchar list" where
  "mark_bit d bi = d[bi div 8 := (d ! (bi div 8)) OR push_bit (bi mod 8) 1]"

definition clear_bit :: "uchar list \<Rightarrow> nat \<Rightarrow> uchar list" where
  "clear_bit d bi = d[bi div 8 := (d ! (bi div 8)) AND NOT (push_bit (bi mod 8) 1)]"

text \<open>The inner loop of \<^verbatim>\<open>balloc\<close>: the first clear bit of a bitmap block whose first block is \<open>b\<close>.\<close>

fun balloc_scan :: "uchar list \<Rightarrow> nat \<Rightarrow> nat \<Rightarrow> nat list \<Rightarrow> nat option" where
  "balloc_scan d b fsz [] = None"
| "balloc_scan d b fsz (bi # bis) =
     (if \<not> b + bi < fsz then None
      else if \<not> bit_set d bi then Some bi else balloc_scan d b fsz bis)"

fun balloc_loop :: "nat \<Rightarrow> nat \<Rightarrow> 'a fstate_scheme \<Rightarrow> uint \<Rightarrow> nat \<Rightarrow> ('a fstate_scheme \<times> uint) res" where
  "balloc_loop 0 c s dev b = Hang"
| "balloc_loop (Suc n) c s dev b =
     (if b < unat (sb_size (sb s)) then
        rbind (bread c s dev (BBLOCK (of_nat b) (sb s))) (\<lambda>(s1, bp).
          case balloc_scan (b_data (bufs s1 bp)) b (unat (sb_size (sb s1))) [0..<BPB] of
            Some bi \<Rightarrow>
              rbind (log_write c (set_data bp (mark_bit (b_data (bufs s1 bp)) bi) s1) bp) (\<lambda>s2.
              rbind (brelse c s2 bp) (\<lambda>s3.
              rbind (bzero c s3 dev (of_nat (b + bi))) (\<lambda>s4. Ok (s4, of_nat (b + bi)))))
          | None \<Rightarrow> rbind (brelse c s1 bp) (\<lambda>s2. balloc_loop n c s2 dev (b + BPB)))
      else rbind (printf c s (Some (''balloc: out of blocks'' @ [CHR 0x0A])) []) (\<lambda>s1. Ok (s1, 0)))"

text \<open>Fuel: one iteration per bitmap block, and one to leave the loop.\<close>

definition balloc :: "nat \<Rightarrow> 'a fstate_scheme \<Rightarrow> uint \<Rightarrow> ('a fstate_scheme \<times> uint) res" where
  "balloc c s dev = balloc_loop (unat (sb_size (sb s)) div BPB + 2) c s dev 0"

definition bfree :: "nat \<Rightarrow> 'a fstate_scheme \<Rightarrow> uint \<Rightarrow> uint \<Rightarrow> 'a fstate_scheme res" where
  "bfree c s dev b =
     rbind (bread c s dev (BBLOCK b (sb s))) (\<lambda>(s1, bp).
       let bi = unat b mod BPB; d = b_data (bufs s1 bp)
       in if \<not> bit_set d bi then Panic ''freeing free block''
          else rbind (log_write c (set_data bp (clear_bit d bi) s1) bp) (\<lambda>s2. brelse c s2 bp))"

section \<open>The inode table\<close>

definition iinit :: "'a fstate_scheme \<Rightarrow> 'a fstate_scheme" where
  "iinit s =
     (let s1 = s\<lparr>itable_lock := initlock (itable_lock s) ''itable''\<rparr>
      in fold (\<lambda>i s. upd_inode i (\<lambda>x. x\<lparr>in_lock := initsleeplock (in_lock x) ''inode''\<rparr>) s) [0..<NINODE] s1)"

text \<open>The scan of \<^verbatim>\<open>iget\<close>: the entry of the inode, or the first unused entry.\<close>

fun iget_scan :: "(nat \<Rightarrow> inode) \<Rightarrow> uint \<Rightarrow> uint \<Rightarrow> nat option \<Rightarrow> nat list \<Rightarrow> nat option \<times> nat option" where
  "iget_scan I dev inum emp [] = (None, emp)"
| "iget_scan I dev inum emp (i # is) =
     (if in_ref (I i) > 0 \<and> in_dev (I i) = dev \<and> in_inum (I i) = inum then (Some i, emp)
      else iget_scan I dev inum (if emp = None \<and> in_ref (I i) = 0 then Some i else emp) is)"

definition iget :: "nat \<Rightarrow> 'a fstate_scheme \<Rightarrow> uint \<Rightarrow> uint \<Rightarrow> ('a fstate_scheme \<times> nat) res" where
  "iget c s dev inum =
     rbind (lk_acquire c itable_L s) (\<lambda>s1.
       case iget_scan (inodes s1) dev inum None [0..<NINODE] of
         (Some i, _) \<Rightarrow>
           rbind (lk_release c itable_L (upd_inode i (\<lambda>x. x\<lparr>in_ref := in_ref x + 1\<rparr>) s1)) (\<lambda>s2. Ok (s2, i))
       | (None, None) \<Rightarrow> Panic ''iget: no inodes''
       | (None, Some i) \<Rightarrow>
           rbind (lk_release c itable_L (upd_inode i (\<lambda>x. x\<lparr>in_dev := dev, in_inum := inum, in_ref := 1,
                    in_valid := False\<rparr>) s1)) (\<lambda>s2. Ok (s2, i)))"

definition idup :: "nat \<Rightarrow> 'a fstate_scheme \<Rightarrow> nat \<Rightarrow> ('a fstate_scheme \<times> nat) res" where
  "idup c s ip =
     rbind (lk_acquire c itable_L s) (\<lambda>s1.
     rbind (lk_release c itable_L (upd_inode ip (\<lambda>x. x\<lparr>in_ref := in_ref x + 1\<rparr>) s1)) (\<lambda>s2. Ok (s2, ip)))"

text \<open>\<^verbatim>\<open>struct dinode\<close> in an inode block: 64 bytes, 16 to a block.\<close>

definition dinode_off :: "uint \<Rightarrow> nat" where
  "dinode_off inum = 64 * (unat inum mod IPB)"

definition zero_range :: "uchar list \<Rightarrow> nat \<Rightarrow> nat \<Rightarrow> uchar list" where
  "zero_range d i n = take i d @ replicate n 0 @ drop (i + n) d"

fun get_addrs :: "uchar list \<Rightarrow> nat \<Rightarrow> nat \<Rightarrow> uint list" where
  "get_addrs d i 0 = []"
| "get_addrs d i (Suc k) = ld32 d i # get_addrs d (i + 4) k"

fun put_addrs :: "uchar list \<Rightarrow> nat \<Rightarrow> uint list \<Rightarrow> uchar list" where
  "put_addrs d i [] = d"
| "put_addrs d i (a # as) = put_addrs (st32 d i a) (i + 4) as"

fun ialloc_loop :: "nat \<Rightarrow> 'a fstate_scheme \<Rightarrow> uint \<Rightarrow> ushort \<Rightarrow> nat list \<Rightarrow> ('a fstate_scheme \<times> nat option) res" where
  "ialloc_loop c s dev ty [] =
     rbind (printf c s (Some (''ialloc: no inodes'' @ [CHR 0x0A])) []) (\<lambda>s1. Ok (s1, None))"
| "ialloc_loop c s dev ty (n # ns) =
     rbind (bread c s dev (IBLOCK (of_nat n) (sb s))) (\<lambda>(s1, bp).
       let d = b_data (bufs s1 bp); k = dinode_off (of_nat n)
       in if ld16 d k = 0 then
            rbind (log_write c (set_data bp (st16 (zero_range d k 64) k ty) s1) bp) (\<lambda>s2.
            rbind (brelse c s2 bp) (\<lambda>s3.
            rbind (iget c s3 dev (of_nat n)) (\<lambda>(s4, i). Ok (s4, Some i))))
          else rbind (brelse c s1 bp) (\<lambda>s2. ialloc_loop c s2 dev ty ns))"

definition ialloc :: "nat \<Rightarrow> 'a fstate_scheme \<Rightarrow> uint \<Rightarrow> ushort \<Rightarrow> ('a fstate_scheme \<times> nat option) res" where
  "ialloc c s dev ty = ialloc_loop c s dev ty [1..<unat (sb_ninodes (sb s))]"

definition put_dinode :: "uchar list \<Rightarrow> nat \<Rightarrow> inode \<Rightarrow> uchar list" where
  "put_dinode d k ip =
     (let d1 = st16 d k (in_type ip); d2 = st16 d1 (k + 2) (in_major ip); d3 = st16 d2 (k + 4) (in_minor ip);
          d4 = st16 d3 (k + 6) (in_nlink ip); d5 = st32 d4 (k + 8) (in_size ip)
      in put_addrs d5 (k + 12) (in_addrs ip))"

definition iupdate :: "nat \<Rightarrow> 'a fstate_scheme \<Rightarrow> nat \<Rightarrow> 'a fstate_scheme res" where
  "iupdate c s ip =
     rbind (bread c s (in_dev (inodes s ip)) (IBLOCK (in_inum (inodes s ip)) (sb s))) (\<lambda>(s1, bp).
     let d = put_dinode (b_data (bufs s1 bp)) (dinode_off (in_inum (inodes s1 ip))) (inodes s1 ip)
     in rbind (log_write c (set_data bp d s1) bp) (\<lambda>s2. brelse c s2 bp))"

definition get_dinode :: "uchar list \<Rightarrow> nat \<Rightarrow> inode \<Rightarrow> inode" where
  "get_dinode d k ip = ip\<lparr>in_type := ld16 d k, in_major := ld16 d (k + 2), in_minor := ld16 d (k + 4),
     in_nlink := ld16 d (k + 6), in_size := ld32 d (k + 8), in_addrs := get_addrs d (k + 12) (NDIRECT + 1)\<rparr>"

definition ilock :: "nat \<Rightarrow> 'a fstate_scheme \<Rightarrow> nat option \<Rightarrow> 'a fstate_scheme res" where
  "ilock c s ip0 =
     (case ip0 of None \<Rightarrow> Panic ''ilock''
      | Some ip \<Rightarrow>
        if in_ref (inodes s ip) < 1 then Panic ''ilock''
        else rbind (acquiresleep c (inode_S ip) s) (\<lambda>s1.
          if \<not> in_valid (inodes s1 ip) then
            rbind (bread c s1 (in_dev (inodes s1 ip)) (IBLOCK (in_inum (inodes s1 ip)) (sb s1))) (\<lambda>(s2, bp).
            let s3 = upd_inode ip (get_dinode (b_data (bufs s2 bp)) (dinode_off (in_inum (inodes s2 ip)))) s2
            in rbind (brelse c s3 bp) (\<lambda>s4.
               let s5 = upd_inode ip (\<lambda>x. x\<lparr>in_valid := True\<rparr>) s4
               in if in_type (inodes s5 ip) = 0 then Panic ''ilock: no type'' else Ok s5))
          else Ok s1))"

definition iunlock :: "nat \<Rightarrow> 'a fstate_scheme \<Rightarrow> nat option \<Rightarrow> 'a fstate_scheme res" where
  "iunlock c s ip0 =
     (case ip0 of None \<Rightarrow> Panic ''iunlock''
      | Some ip \<Rightarrow> rbind (holdingsleep c (inode_S ip) s) (\<lambda>(s1, h).
          if \<not> h \<or> in_ref (inodes s1 ip) < 1 then Panic ''iunlock''
          else releasesleep c (inode_S ip) s1))"

section \<open>Truncation and dropping an inode\<close>

fun itrunc_direct :: "nat \<Rightarrow> 'a fstate_scheme \<Rightarrow> nat \<Rightarrow> nat list \<Rightarrow> 'a fstate_scheme res" where
  "itrunc_direct c s ip [] = Ok s"
| "itrunc_direct c s ip (i # is) =
     (if in_addrs (inodes s ip) ! i \<noteq> 0 then
        rbind (bfree c s (in_dev (inodes s ip)) (in_addrs (inodes s ip) ! i)) (\<lambda>s1.
        itrunc_direct c (upd_inode ip (\<lambda>x. x\<lparr>in_addrs := (in_addrs x)[i := 0]\<rparr>) s1) ip is)
      else itrunc_direct c s ip is)"

fun itrunc_indirect :: "nat \<Rightarrow> 'a fstate_scheme \<Rightarrow> uint \<Rightarrow> uchar list \<Rightarrow> nat list \<Rightarrow> 'a fstate_scheme res" where
  "itrunc_indirect c s dev a [] = Ok s"
| "itrunc_indirect c s dev a (j # js) =
     rbind (if ld32 a (4 * j) \<noteq> 0 then bfree c s dev (ld32 a (4 * j)) else Ok s) (\<lambda>s1. itrunc_indirect c s1 dev a js)"

definition itrunc :: "nat \<Rightarrow> 'a fstate_scheme \<Rightarrow> nat \<Rightarrow> 'a fstate_scheme res" where
  "itrunc c s ip =
     rbind (itrunc_direct c s ip [0..<NDIRECT]) (\<lambda>s1.
     rbind (if in_addrs (inodes s1 ip) ! NDIRECT \<noteq> 0 then
              rbind (bread c s1 (in_dev (inodes s1 ip)) (in_addrs (inodes s1 ip) ! NDIRECT)) (\<lambda>(s2, bp).
              rbind (itrunc_indirect c s2 (in_dev (inodes s2 ip)) (b_data (bufs s2 bp)) [0..<NINDIRECT]) (\<lambda>s3.
              rbind (brelse c s3 bp) (\<lambda>s4.
              rbind (bfree c s4 (in_dev (inodes s4 ip)) (in_addrs (inodes s4 ip) ! NDIRECT)) (\<lambda>s5.
              Ok (upd_inode ip (\<lambda>x. x\<lparr>in_addrs := (in_addrs x)[NDIRECT := 0]\<rparr>) s5)))))
            else Ok s1) (\<lambda>s6.
     iupdate c (upd_inode ip (\<lambda>x. x\<lparr>in_size := 0\<rparr>) s6) ip))"

definition iput :: "nat \<Rightarrow> 'a fstate_scheme \<Rightarrow> nat \<Rightarrow> 'a fstate_scheme res" where
  "iput c s ip =
     rbind (lk_acquire c itable_L s) (\<lambda>s1.
     rbind (if in_ref (inodes s1 ip) = 1 \<and> in_valid (inodes s1 ip) \<and> in_nlink (inodes s1 ip) = 0 then
              rbind (acquiresleep c (inode_S ip) s1) (\<lambda>s2.
              rbind (lk_release c itable_L s2) (\<lambda>s3.
              rbind (itrunc c s3 ip) (\<lambda>s4.
              rbind (iupdate c (upd_inode ip (\<lambda>x. x\<lparr>in_type := 0\<rparr>) s4) ip) (\<lambda>s5.
              rbind (releasesleep c (inode_S ip) (upd_inode ip (\<lambda>x. x\<lparr>in_valid := False\<rparr>) s5)) (\<lambda>s6.
              lk_acquire c itable_L s6)))))
            else Ok s1) (\<lambda>s7.
     lk_release c itable_L (upd_inode ip (\<lambda>x. x\<lparr>in_ref := in_ref x - 1\<rparr>) s7)))"

definition iunlockput :: "nat \<Rightarrow> 'a fstate_scheme \<Rightarrow> nat \<Rightarrow> 'a fstate_scheme res" where
  "iunlockput c s ip = rbind (iunlock c s (Some ip)) (\<lambda>s1. iput c s1 ip)"

section \<open>File contents\<close>

definition bmap :: "nat \<Rightarrow> 'a fstate_scheme \<Rightarrow> nat \<Rightarrow> uint \<Rightarrow> ('a fstate_scheme \<times> uint) res" where
  "bmap c s ip bn =
     (if unat bn < NDIRECT then
        (if in_addrs (inodes s ip) ! unat bn = 0 then
           rbind (balloc c s (in_dev (inodes s ip))) (\<lambda>(s1, addr).
             if addr = 0 then Ok (s1, 0)
             else Ok (upd_inode ip (\<lambda>x. x\<lparr>in_addrs := (in_addrs x)[unat bn := addr]\<rparr>) s1, addr))
         else Ok (s, in_addrs (inodes s ip) ! unat bn))
      else if unat bn - NDIRECT < NINDIRECT then
        let k = unat bn - NDIRECT
        in rbind (if in_addrs (inodes s ip) ! NDIRECT = 0 then
                    rbind (balloc c s (in_dev (inodes s ip))) (\<lambda>(s1, addr).
                      if addr = 0 then Ok (s1, 0)
                      else Ok (upd_inode ip (\<lambda>x. x\<lparr>in_addrs := (in_addrs x)[NDIRECT := addr]\<rparr>) s1, addr))
                  else Ok (s, in_addrs (inodes s ip) ! NDIRECT)) (\<lambda>(s1, ind).
           if ind = 0 then Ok (s1, 0)
           else rbind (bread c s1 (in_dev (inodes s1 ip)) ind) (\<lambda>(s2, bp).
             rbind (if ld32 (b_data (bufs s2 bp)) (4 * k) = 0 then
                      rbind (balloc c s2 (in_dev (inodes s2 ip))) (\<lambda>(s3, addr).
                        if addr \<noteq> 0 then
                          rbind (log_write c (set_data bp (st32 (b_data (bufs s3 bp)) (4 * k) addr) s3) bp) (\<lambda>s4. Ok (s4, addr))
                        else Ok (s3, addr))
                    else Ok (s2, ld32 (b_data (bufs s2 bp)) (4 * k))) (\<lambda>(s5, addr).
             rbind (brelse c s5 bp) (\<lambda>s6. Ok (s6, addr)))))
      else Panic ''bmap: out of range'')"

definition stati :: "'a fstate_scheme \<Rightarrow> nat \<Rightarrow> stat" where
  "stati s ip = \<lparr>st_dev = sint (in_dev (inodes s ip)), st_ino = in_inum (inodes s ip), st_type = in_type (inodes s ip),
     st_nlink = in_nlink (inodes s ip), st_size = ucast (in_size (inodes s ip))\<rparr>"

text \<open>
  A copy out of or into the data of a buffer: the bytes the record holds are those at the address of
  \<^verbatim>\<open>b->data\<close>.
\<close>

definition buf_copyout :: "nat \<Rightarrow> 'a fstate_scheme \<Rightarrow> bool \<Rightarrow> uint64 \<Rightarrow> nat \<Rightarrow> nat \<Rightarrow> uint \<Rightarrow> ('a fstate_scheme \<times> int) res" where
  "buf_copyout c s user_dst dst b o' m =
     either_copyout c (s\<lparr>mem := put_bytes (mem s) (bdata_addr s b) (b_data (bufs s b))\<rparr>) user_dst dst
       (bdata_addr s b + of_nat o') (ucast m)"

definition buf_copyin :: "nat \<Rightarrow> 'a fstate_scheme \<Rightarrow> nat \<Rightarrow> nat \<Rightarrow> bool \<Rightarrow> uint64 \<Rightarrow> uint \<Rightarrow> ('a fstate_scheme \<times> int) res" where
  "buf_copyin c s b o' user_src src m =
     rbind (either_copyin c (s\<lparr>mem := put_bytes (mem s) (bdata_addr s b) (b_data (bufs s b))\<rparr>)
              (bdata_addr s b + of_nat o') user_src src (ucast m)) (\<lambda>(s1, r).
     Ok (set_data b (bytes (mem s1) (bdata_addr s1 b) BSIZE) s1, r))"

text \<open>Every iteration of the two loops moves to the next block, which bounds them.\<close>

fun readi_loop :: "nat \<Rightarrow> nat \<Rightarrow> 'a fstate_scheme \<Rightarrow> nat \<Rightarrow> bool \<Rightarrow> uint64 \<Rightarrow> uint \<Rightarrow> uint \<Rightarrow> uint \<Rightarrow> ('a fstate_scheme \<times> uint) res" where
  "readi_loop 0 c s ip user_dst dst o' tot n = Hang"
| "readi_loop (Suc k) c s ip user_dst dst o' tot n =
     (if tot < n then
        rbind (bmap c s ip (o' div of_nat BSIZE)) (\<lambda>(s1, addr).
          if addr = 0 then Ok (s1, tot)
          else rbind (bread c s1 (in_dev (inodes s1 ip)) addr) (\<lambda>(s2, bp).
            let m = min (n - tot) (of_nat BSIZE - o' mod of_nat BSIZE)
            in rbind (buf_copyout c s2 user_dst dst bp (unat o' mod BSIZE) m) (\<lambda>(s3, r).
               if r = -1 then rbind (brelse c s3 bp) (\<lambda>s4. Ok (s4, -1))
               else rbind (brelse c s3 bp) (\<lambda>s4.
                 readi_loop k c s4 ip user_dst (dst + ucast m) (o' + m) (tot + m) n))))
      else Ok (s, tot))"

definition readi :: "nat \<Rightarrow> 'a fstate_scheme \<Rightarrow> nat \<Rightarrow> bool \<Rightarrow> uint64 \<Rightarrow> uint \<Rightarrow> uint \<Rightarrow> ('a fstate_scheme \<times> int) res" where
  "readi c s ip user_dst dst o' n0 =
     (if o' > in_size (inodes s ip) \<or> o' + n0 < o' then Ok (s, 0)
      else let n = (if o' + n0 > in_size (inodes s ip) then in_size (inodes s ip) - o' else n0)
           in rbind (readi_loop (unat n div BSIZE + 3) c s ip user_dst dst o' 0 n) (\<lambda>(s1, tot). Ok (s1, sint tot)))"

fun writei_loop :: "nat \<Rightarrow> nat \<Rightarrow> 'a fstate_scheme \<Rightarrow> nat \<Rightarrow> bool \<Rightarrow> uint64 \<Rightarrow> uint \<Rightarrow> uint \<Rightarrow> uint \<Rightarrow> ('a fstate_scheme \<times> uint \<times> uint) res" where
  "writei_loop 0 c s ip user_src src o' tot n = Hang"
| "writei_loop (Suc k) c s ip user_src src o' tot n =
     (if tot < n then
        rbind (bmap c s ip (o' div of_nat BSIZE)) (\<lambda>(s1, addr).
          if addr = 0 then Ok (s1, o', tot)
          else rbind (bread c s1 (in_dev (inodes s1 ip)) addr) (\<lambda>(s2, bp).
            let m = min (n - tot) (of_nat BSIZE - o' mod of_nat BSIZE)
            in rbind (buf_copyin c s2 bp (unat o' mod BSIZE) user_src src m) (\<lambda>(s3, r).
               if r = -1 then rbind (brelse c s3 bp) (\<lambda>s4. Ok (s4, o', tot))
               else rbind (log_write c s3 bp) (\<lambda>s4.
                    rbind (brelse c s4 bp) (\<lambda>s5.
                    writei_loop k c s5 ip user_src (src + ucast m) (o' + m) (tot + m) n)))))
      else Ok (s, o', tot))"

definition writei :: "nat \<Rightarrow> 'a fstate_scheme \<Rightarrow> nat \<Rightarrow> bool \<Rightarrow> uint64 \<Rightarrow> uint \<Rightarrow> uint \<Rightarrow> ('a fstate_scheme \<times> int) res" where
  "writei c s ip user_src src o' n =
     (if o' > in_size (inodes s ip) \<or> o' + n < o' then Ok (s, -1)
      else if o' + n > of_nat (MAXFILE * BSIZE) then Ok (s, -1)
      else rbind (writei_loop (unat n div BSIZE + 3) c s ip user_src src o' 0 n) (\<lambda>(s1, o1, tot).
        let s2 = (if o1 > in_size (inodes s1 ip) then upd_inode ip (\<lambda>x. x\<lparr>in_size := o1\<rparr>) s1 else s1)
        in rbind (iupdate c s2 ip) (\<lambda>s3. Ok (s3, sint tot))))"

section \<open>Directories\<close>

text \<open>\<^verbatim>\<open>strncmp\<close> on strings held as lists of bytes, a missing byte being the terminator.\<close>

definition ch_at :: "uchar list \<Rightarrow> nat \<Rightarrow> uchar" where
  "ch_at p i = (if i < length p then p ! i else 0)"

fun strncmp_at :: "uchar list \<Rightarrow> uchar list \<Rightarrow> nat \<Rightarrow> nat \<Rightarrow> int" where
  "strncmp_at p q i 0 = 0"
| "strncmp_at p q i (Suc n) =
     (if ch_at p i \<noteq> 0 \<and> ch_at p i = ch_at q i then strncmp_at p q (Suc i) n
      else uint (ch_at p i) - uint (ch_at q i))"

definition namecmp :: "uchar list \<Rightarrow> uchar list \<Rightarrow> int" where
  "namecmp p q = strncmp_at p q 0 DIRSIZ"

text \<open>\<^verbatim>\<open>struct dirent de\<close> is a local variable at \<open>kframe\<close>: 2 bytes of inode number, 14 of name.\<close>

definition de_inum :: "'a fstate_scheme \<Rightarrow> ushort" where
  "de_inum s = ld16 (bytes (mem s) (kframe s) 16) 0"

definition de_name :: "'a fstate_scheme \<Rightarrow> uchar list" where
  "de_name s = drop 2 (bytes (mem s) (kframe s) 16)"

fun dirlookup_loop :: "nat \<Rightarrow> nat \<Rightarrow> 'a fstate_scheme \<Rightarrow> nat \<Rightarrow> uchar list \<Rightarrow> uint \<Rightarrow> ('a fstate_scheme \<times> (nat \<times> uint) option) res" where
  "dirlookup_loop 0 c s dp name o' = Hang"
| "dirlookup_loop (Suc k) c s dp name o' =
     (if o' < in_size (inodes s dp) then
        rbind (readi c s dp False (kframe s) o' 16) (\<lambda>(s1, r).
          if r \<noteq> 16 then Panic ''dirlookup read''
          else if de_inum s1 = 0 then dirlookup_loop k c s1 dp name (o' + 16)
          else if namecmp name (de_name s1) = 0 then
            rbind (iget c s1 (in_dev (inodes s1 dp)) (ucast (de_inum s1))) (\<lambda>(s2, i). Ok (s2, Some (i, o')))
          else dirlookup_loop k c s1 dp name (o' + 16))
      else Ok (s, None))"

text \<open>The result is the inode and the offset \<^verbatim>\<open>*poff\<close>. Fuel: one step per entry, one to leave.\<close>

definition dirlookup :: "nat \<Rightarrow> 'a fstate_scheme \<Rightarrow> nat \<Rightarrow> uchar list \<Rightarrow> ('a fstate_scheme \<times> (nat \<times> uint) option) res" where
  "dirlookup c s dp name =
     (if in_type (inodes s dp) \<noteq> T_DIR then Panic ''dirlookup not DIR''
      else dirlookup_loop (unat (in_size (inodes s dp)) div 16 + 2) c s dp name 0)"

fun dirlink_loop :: "nat \<Rightarrow> nat \<Rightarrow> 'a fstate_scheme \<Rightarrow> nat \<Rightarrow> uint \<Rightarrow> ('a fstate_scheme \<times> uint) res" where
  "dirlink_loop 0 c s dp o' = Hang"
| "dirlink_loop (Suc k) c s dp o' =
     (if o' < in_size (inodes s dp) then
        rbind (readi c s dp False (kframe s) o' 16) (\<lambda>(s1, r).
          if r \<noteq> 16 then Panic ''dirlink read''
          else if de_inum s1 = 0 then Ok (s1, o')
          else dirlink_loop k c s1 dp (o' + 16))
      else Ok (s, o'))"

definition dirent_bytes :: "uchar list \<Rightarrow> ushort \<Rightarrow> uchar list" where
  "dirent_bytes name inum =
     [ucast inum, ucast (drop_bit 8 inum)] @ take DIRSIZ (takeWhile (\<lambda>b. b \<noteq> 0) name @ replicate DIRSIZ 0)"

definition dirlink :: "nat \<Rightarrow> 'a fstate_scheme \<Rightarrow> nat \<Rightarrow> uchar list \<Rightarrow> uint \<Rightarrow> ('a fstate_scheme \<times> int) res" where
  "dirlink c s dp name inum =
     rbind (dirlookup c s dp name) (\<lambda>(s1, hit).
       case hit of Some (ip, _) \<Rightarrow> rbind (iput c s1 ip) (\<lambda>s2. Ok (s2, -1))
       | None \<Rightarrow>
         rbind (dirlink_loop (unat (in_size (inodes s1 dp)) div 16 + 2) c s1 dp 0) (\<lambda>(s2, o').
         let s3 = s2\<lparr>mem := put_bytes (mem s2) (kframe s2) (dirent_bytes name (ucast inum))\<rparr>
         in rbind (writei c s3 dp False (kframe s3) o' 16) (\<lambda>(s4, r). Ok (s4, if r \<noteq> 16 then -1 else 0))))"

section \<open>Path names\<close>

text \<open>Paths are the bytes before the terminator. The result is the element, cut to \<open>DIRSIZ\<close>, and the rest.\<close>

definition slash :: uchar where "slash = 47"

definition skipelem :: "uchar list \<Rightarrow> (uchar list \<times> uchar list) option" where
  "skipelem pth =
     (let p = dropWhile (\<lambda>b. b = slash) pth
      in if p = [] then None
         else let elem = takeWhile (\<lambda>b. b \<noteq> slash) p;
                  rest = dropWhile (\<lambda>b. b \<noteq> slash) p
              in Some (if length elem \<ge> DIRSIZ then take DIRSIZ elem else elem, dropWhile (\<lambda>b. b = slash) rest))"

fun namex_loop :: "nat \<Rightarrow> nat \<Rightarrow> 'a fstate_scheme \<Rightarrow> nat \<Rightarrow> uchar list \<Rightarrow> bool \<Rightarrow> uchar list \<Rightarrow>
    ('a fstate_scheme \<times> (nat \<times> uchar list) option) res" where
  "namex_loop 0 c s ip pth nameiparent name0 = Hang"
| "namex_loop (Suc k) c s ip pth nameiparent name0 =
     (case skipelem pth of
        None \<Rightarrow> if nameiparent then rbind (iput c s ip) (\<lambda>s1. Ok (s1, None)) else Ok (s, Some (ip, name0))
      | Some (name, rest) \<Rightarrow>
          rbind (ilock c s (Some ip)) (\<lambda>s1.
            if in_type (inodes s1 ip) \<noteq> T_DIR then rbind (iunlockput c s1 ip) (\<lambda>s2. Ok (s2, None))
            else if nameiparent \<and> rest = [] then
              rbind (iunlock c s1 (Some ip)) (\<lambda>s2. Ok (s2, Some (ip, name)))
            else rbind (dirlookup c s1 ip name) (\<lambda>(s2, hit).
              case hit of
                None \<Rightarrow> rbind (iunlockput c s2 ip) (\<lambda>s3. Ok (s3, None))
              | Some (next, _) \<Rightarrow>
                  rbind (iunlockput c s2 ip) (\<lambda>s3. namex_loop k c s3 next rest nameiparent name))))"

text \<open>Fuel: every iteration removes at least one byte of the path.\<close>

definition namex :: "nat \<Rightarrow> 'a fstate_scheme \<Rightarrow> uchar list \<Rightarrow> bool \<Rightarrow> ('a fstate_scheme \<times> (nat \<times> uchar list) option) res" where
  "namex c s pth nameiparent =
     rbind (if pth \<noteq> [] \<and> hd pth = slash then iget c s (of_nat ROOTDEV) ROOTINO
            else rbind (myproc c s) (\<lambda>(s1, p). deref p (\<lambda>i. deref (cwd (procs s1 i)) (\<lambda>d. idup c s1 d)))) (\<lambda>(s2, ip).
     namex_loop (length pth + 2) c s2 ip pth nameiparent [])"

definition namei :: "nat \<Rightarrow> 'a fstate_scheme \<Rightarrow> uchar list \<Rightarrow> ('a fstate_scheme \<times> nat option) res" where
  "namei c s pth =
     rbind (namex c s pth False) (\<lambda>(s1, r). Ok (s1, map_option fst r))"

definition nameiparent :: "nat \<Rightarrow> 'a fstate_scheme \<Rightarrow> uchar list \<Rightarrow> ('a fstate_scheme \<times> (nat \<times> uchar list) option) res" where
  "nameiparent c s pth = namex c s pth True"

end
