(* ===== verification/Console.thy ===== *)
theory Console
  imports Fs
begin

text \<open>
  Console input and buffered output: the rest of \<^verbatim>\<open>kernel/uart.c\<close> and \<^verbatim>\<open>kernel/console.c\<close>. Reading and
  writing the console may sleep; each is given up to the point where it does and from there on.
\<close>

definition INPUT_BUF_SIZE :: nat where "INPUT_BUF_SIZE = 128"
definition CONSOLE :: nat where "CONSOLE = 1"

text \<open>\<^verbatim>\<open>cons\<close>: indices run freely and wrap at 32 bits; a slot is an index modulo the size.\<close>

record cons =
  cons_lock :: spinlock
  cons_buf :: "uchar list"
  cons_r :: uint
  cons_w :: uint
  cons_e :: uint

text \<open>The function pointers a device may have in \<^verbatim>\<open>devsw\<close>.\<close>

datatype dev_reader = DevConsoleread
datatype dev_writer = DevConsolewrite

record devsw_entry =
  dev_read :: "dev_reader option"
  dev_write :: "dev_writer option"

record cstate = fstate +
  cons :: cons
  devsw :: "nat \<Rightarrow> devsw_entry"

definition upd_cons :: "(cons \<Rightarrow> cons) \<Rightarrow> 'a cstate_scheme \<Rightarrow> 'a cstate_scheme" where
  "upd_cons f s = s\<lparr>cons := f (cons s)\<rparr>"

definition uart_L :: "('a io_state_scheme) lockref" where
  "uart_L = (uart_tx_lock, \<lambda>f s. s\<lparr>uart_tx_lock := f (uart_tx_lock s)\<rparr>)"

definition cons_L :: "('a cstate_scheme) lockref" where
  "cons_L = (\<lambda>s. cons_lock (cons s), \<lambda>f. upd_cons (\<lambda>k. k\<lparr>cons_lock := f (cons_lock k)\<rparr>))"

section \<open>uart.c, the buffered half\<close>

fun uartstart_loop :: "nat \<Rightarrow> nat \<Rightarrow> 'a io_state_scheme \<Rightarrow> 'a io_state_scheme res" where
  "uartstart_loop 0 c s = Hang"
| "uartstart_loop (Suc k) c s =
     (if uart_tx_w s = uart_tx_r s then Ok s
      else if ReadLSR (uart s) AND LSR_TX_IDLE = 0 then Ok s
      else let ch = uart_tx_buf s ! (unat (uart_tx_r s) mod UART_TX_BUF_SIZE);
               s1 = s\<lparr>uart_tx_r := uart_tx_r s + 1\<rparr>
           in rbind (wakeup c s1 ChanUart) (\<lambda>s2. uartstart_loop k c (uart_write THR ch s2)))"

text \<open>Every iteration sends one of the \<open>w - r\<close> buffered bytes, and one leaves the loop.\<close>

definition uartstart :: "nat \<Rightarrow> 'a io_state_scheme \<Rightarrow> 'a io_state_scheme res" where
  "uartstart c s = uartstart_loop (Suc (unat (uart_tx_w s - uart_tx_r s))) c s"

text \<open>\<^verbatim>\<open>uartputc\<close> from its loop on, with the lock held: \<open>Some\<close> when it goes to sleep on a full buffer.\<close>

definition uartputc_go :: "nat \<Rightarrow> 'a io_state_scheme \<Rightarrow> uchar \<Rightarrow> ('a io_state_scheme \<times> (nat \<times> bool) option) res" where
  "uartputc_go c s ch =
     (if uart_tx_w s = uart_tx_r s + of_nat UART_TX_BUF_SIZE then
        rbind (sleep_leave c s ChanUart uart_L) (\<lambda>(s1, t). Ok (s1, Some t))
      else
        let s1 = s\<lparr>uart_tx_buf := (uart_tx_buf s)[unat (uart_tx_w s) mod UART_TX_BUF_SIZE := ch]\<rparr>;
            s2 = s1\<lparr>uart_tx_w := uart_tx_w s1 + 1\<rparr>
        in rbind (uartstart c s2) (\<lambda>s3. rbind (lk_release c uart_L s3) (\<lambda>s4. Ok (s4, None))))"

definition uartputc :: "nat \<Rightarrow> 'a io_state_scheme \<Rightarrow> uchar \<Rightarrow> ('a io_state_scheme \<times> (nat \<times> bool) option) res" where
  "uartputc c s ch =
     rbind (lk_acquire c uart_L s) (\<lambda>s1. if panicked s1 then Hang else uartputc_go c s1 ch)"

definition uartputc_resume :: "nat \<Rightarrow> 'a io_state_scheme \<Rightarrow> uchar \<Rightarrow> nat \<times> bool \<Rightarrow> ('a io_state_scheme \<times> (nat \<times> bool) option) res" where
  "uartputc_resume c s ch t = rbind (sleep_return c s uart_L t) (\<lambda>s1. uartputc_go c s1 ch)"

text \<open>Reading \<^verbatim>\<open>RHR\<close> takes the byte out of the receive register.\<close>

definition uartgetc :: "'a io_state_scheme \<Rightarrow> 'a io_state_scheme \<times> int" where
  "uartgetc s =
     (if ReadLSR (uart s) AND 0x01 \<noteq> 0
      then (s\<lparr>uart := (uart s)\<lparr>rx_in := tl (rx_in (uart s))\<rparr>\<rparr>, uint (hd (rx_in (uart s))))
      else (s, -1))"

section \<open>console.c\<close>

text \<open>\<^verbatim>\<open>C('D')\<close> and the other control characters.\<close>

definition ctrl :: "int \<Rightarrow> int" where "ctrl x = x - 64"

definition cons_at :: "'a cstate_scheme \<Rightarrow> uint \<Rightarrow> uchar" where
  "cons_at s i = cons_buf (cons s) ! (unat i mod INPUT_BUF_SIZE)"

text \<open>
  \<^verbatim>\<open>consolewrite\<close> with \<open>k\<close> bytes to go: the bytes written, or where it sleeps (the byte in hand, the
  count so far and the bytes to go after it). \<^verbatim>\<open>char c\<close> lives at \<open>kframe\<close>.
\<close>

fun consolewrite_loop :: "nat \<Rightarrow> 'a cstate_scheme \<Rightarrow> bool \<Rightarrow> uint64 \<Rightarrow> int \<Rightarrow> nat \<Rightarrow>
    ('a cstate_scheme \<times> (int + uchar \<times> int \<times> nat \<times> nat \<times> bool)) res" where
  "consolewrite_loop c s user_src src i 0 = Ok (s, Inl i)"
| "consolewrite_loop c s user_src src i (Suc k) =
     rbind (either_copyin c s (kframe s) user_src (src + of_int i) 1) (\<lambda>(s1, r).
       if r = -1 then Ok (s1, Inl i)
       else let ch = mem s1 (kframe s1)
            in rbind (uartputc c s1 ch) (\<lambda>(s2, w).
               case w of Some t \<Rightarrow> Ok (s2, Inr (ch, i, k, t))
               | None \<Rightarrow> consolewrite_loop c s2 user_src src (i + 1) k))"

definition consolewrite :: "nat \<Rightarrow> 'a cstate_scheme \<Rightarrow> bool \<Rightarrow> uint64 \<Rightarrow> int \<Rightarrow>
    ('a cstate_scheme \<times> (int + uchar \<times> int \<times> nat \<times> nat \<times> bool)) res" where
  "consolewrite c s user_src src n = consolewrite_loop c s user_src src 0 (nat n)"

definition consolewrite_resume :: "nat \<Rightarrow> 'a cstate_scheme \<Rightarrow> bool \<Rightarrow> uint64 \<Rightarrow> uchar \<times> int \<times> nat \<times> nat \<times> bool \<Rightarrow>
    ('a cstate_scheme \<times> (int + uchar \<times> int \<times> nat \<times> nat \<times> bool)) res" where
  "consolewrite_resume c s user_src src q =
     (case q of (ch, i, k, t) \<Rightarrow>
        rbind (uartputc_resume c s ch t) (\<lambda>(s1, w).
          case w of Some t1 \<Rightarrow> Ok (s1, Inr (ch, i, k, t1))
          | None \<Rightarrow> consolewrite_loop c s1 user_src src (i + 1) k))"

text \<open>
  \<^verbatim>\<open>consoleread\<close> with the lock held and \<open>n\<close> bytes still wanted of \<^verbatim>\<open>target\<close>: its result, or where it
  sleeps. \<^verbatim>\<open>char cbuf\<close> lives at \<open>kframe\<close>.
\<close>

definition cons_done :: "nat \<Rightarrow> 'a cstate_scheme \<Rightarrow> nat \<Rightarrow> nat \<Rightarrow>
    ('a cstate_scheme \<times> (int + uint64 \<times> nat \<times> nat \<times> bool)) res" where
  "cons_done c s target n = rbind (lk_release c cons_L s) (\<lambda>s1. Ok (s1, Inl (int target - int n)))"

fun consoleread_loop :: "nat \<Rightarrow> 'a cstate_scheme \<Rightarrow> bool \<Rightarrow> uint64 \<Rightarrow> nat \<Rightarrow> nat \<Rightarrow>
    ('a cstate_scheme \<times> (int + uint64 \<times> nat \<times> nat \<times> bool)) res" where
  "consoleread_loop c s user_dst dst target 0 = cons_done c s target 0"
| "consoleread_loop c s user_dst dst target (Suc n) =
     (if cons_r (cons s) = cons_w (cons s) then
        rbind (myproc c s) (\<lambda>(s0, me). deref me (\<lambda>p.
        rbind (killed_q c s0 p) (\<lambda>(s1, k).
          if k \<noteq> 0 then rbind (lk_release c cons_L s1) (\<lambda>s2. Ok (s2, Inl (-1)))
          else rbind (sleep_leave c s1 ChanCons cons_L) (\<lambda>(s2, t). Ok (s2, Inr (dst, Suc n, t))))))
      else
        let ch = cons_at s (cons_r (cons s));
            s1 = upd_cons (\<lambda>k. k\<lparr>cons_r := cons_r k + 1\<rparr>) s
        in if uint ch = ctrl 68 then
             cons_done c (if Suc n < target then upd_cons (\<lambda>k. k\<lparr>cons_r := cons_r k - 1\<rparr>) s1 else s1) target (Suc n)
           else
             rbind (either_copyout c (s1\<lparr>mem := (mem s1)(kframe s1 := ch)\<rparr>) user_dst dst (kframe s1) 1) (\<lambda>(s2, r).
               if r = -1 then cons_done c s2 target (Suc n)
               else if ch = 10 then cons_done c s2 target n
               else consoleread_loop c s2 user_dst (dst + 1) target n))"

text \<open>A request for no byte, or for a negative number, reads nothing.\<close>

definition consoleread :: "nat \<Rightarrow> 'a cstate_scheme \<Rightarrow> bool \<Rightarrow> uint64 \<Rightarrow> int \<Rightarrow>
    ('a cstate_scheme \<times> (int + uint64 \<times> nat \<times> nat \<times> bool)) res" where
  "consoleread c s user_dst dst n =
     rbind (lk_acquire c cons_L s) (\<lambda>s1. consoleread_loop c s1 user_dst dst (nat n) (nat n))"

definition consoleread_resume :: "nat \<Rightarrow> 'a cstate_scheme \<Rightarrow> bool \<Rightarrow> nat \<Rightarrow> uint64 \<times> nat \<times> nat \<times> bool \<Rightarrow>
    ('a cstate_scheme \<times> (int + uint64 \<times> nat \<times> nat \<times> bool)) res" where
  "consoleread_resume c s user_dst target q =
     (case q of (dst, n, t) \<Rightarrow>
        rbind (sleep_return c s cons_L t) (\<lambda>s1. consoleread_loop c s1 user_dst dst target n))"

fun kill_line :: "nat \<Rightarrow> nat \<Rightarrow> 'a cstate_scheme \<Rightarrow> 'a cstate_scheme res" where
  "kill_line 0 c s = Hang"
| "kill_line (Suc k) c s =
     (if cons_e (cons s) \<noteq> cons_w (cons s) \<and> cons_at s (cons_e (cons s) - 1) \<noteq> 10 then
        rbind (consputc c (upd_cons (\<lambda>x. x\<lparr>cons_e := cons_e x - 1\<rparr>) s) BACKSPACE) (\<lambda>s1. kill_line k c s1)
      else Ok s)"

definition cons_put :: "uint \<Rightarrow> uchar \<Rightarrow> 'a cstate_scheme \<Rightarrow> 'a cstate_scheme" where
  "cons_put i ch = upd_cons (\<lambda>x. x\<lparr>cons_buf := (cons_buf x)[unat i mod INPUT_BUF_SIZE := ch]\<rparr>)"

definition consoleintr_key :: "nat \<Rightarrow> 'a cstate_scheme \<Rightarrow> int \<Rightarrow> 'a cstate_scheme res" where
  "consoleintr_key c s ch0 =
     (if ch0 \<noteq> 0 \<and> unat (cons_e (cons s) - cons_r (cons s)) < INPUT_BUF_SIZE then
        let ch = (if ch0 = 13 then 10 else ch0)
        in rbind (consputc c s ch) (\<lambda>s1.
           let s2 = upd_cons (\<lambda>x. x\<lparr>cons_e := cons_e x + 1\<rparr>) (cons_put (cons_e (cons s1)) (of_int ch) s1)
           in if ch = 10 \<or> ch = ctrl 68 \<or> unat (cons_e (cons s2) - cons_r (cons s2)) = INPUT_BUF_SIZE then
                wakeup c (upd_cons (\<lambda>x. x\<lparr>cons_w := cons_e x\<rparr>) s2) ChanCons
              else Ok s2)
      else Ok s)"

definition consoleintr :: "nat \<Rightarrow> 'a cstate_scheme \<Rightarrow> int \<Rightarrow> 'a cstate_scheme res" where
  "consoleintr c s ch =
     rbind (lk_acquire c cons_L s) (\<lambda>s1.
     rbind (if ch = ctrl 80 then procdump c s1
            else if ch = ctrl 85 then kill_line (Suc (unat (cons_e (cons s1) - cons_w (cons s1)))) c s1
            else if ch = ctrl 72 \<or> ch = 0x7f then
              (if cons_e (cons s1) \<noteq> cons_w (cons s1)
               then consputc c (upd_cons (\<lambda>x. x\<lparr>cons_e := cons_e x - 1\<rparr>) s1) BACKSPACE
               else Ok s1)
            else consoleintr_key c s1 ch) (\<lambda>s2.
     lk_release c cons_L s2))"

definition consoleinit :: "'a cstate_scheme \<Rightarrow> 'a cstate_scheme" where
  "consoleinit s =
     (let s1 = uartinit (upd_cons (\<lambda>x. x\<lparr>cons_lock := initlock (cons_lock x) ''cons''\<rparr>) s)
      in s1\<lparr>devsw := (devsw s1)(CONSOLE := \<lparr>dev_read = Some DevConsoleread, dev_write = Some DevConsolewrite\<rparr>)\<rparr>)"

text \<open>The loop of \<^verbatim>\<open>uartintr\<close> ends when the receive register is empty: one iteration per byte and one to leave.\<close>

fun uartintr_loop :: "nat \<Rightarrow> nat \<Rightarrow> 'a cstate_scheme \<Rightarrow> 'a cstate_scheme res" where
  "uartintr_loop 0 c s = Hang"
| "uartintr_loop (Suc k) c s =
     (case uartgetc s of (s1, ch) \<Rightarrow>
        if ch = -1 then Ok s1 else rbind (consoleintr c s1 ch) (\<lambda>s2. uartintr_loop k c s2))"

definition uartintr :: "nat \<Rightarrow> 'a cstate_scheme \<Rightarrow> 'a cstate_scheme res" where
  "uartintr c s =
     rbind (uartintr_loop (Suc (length (rx_in (uart s)))) c s) (\<lambda>s1.
     rbind (lk_acquire c uart_L s1) (\<lambda>s2.
     rbind (uartstart c s2) (\<lambda>s3. lk_release c uart_L s3)))"

end
