(* ===== verification/File.thy ===== *)
theory File
  imports Console
begin

text \<open>\<^verbatim>\<open>kernel/file.c\<close> and \<^verbatim>\<open>kernel/pipe.c\<close>: the table of open files, and pipes.\<close>

definition PIPESIZE :: nat where "PIPESIZE = 512"

record pipe =
  pi_lock :: spinlock
  pi_data :: "uchar list"
  nread :: uint
  nwrite :: uint
  readopen :: bool
  writeopen :: bool

datatype file_type = FD_NONE | FD_PIPE | FD_INODE | FD_DEVICE

record struct_file =
  f_type :: file_type
  f_ref :: int
  readable :: bool
  writable :: bool
  f_pipe :: uint64
  f_ip :: "nat option"
  f_off :: uint
  f_major :: ushort

text \<open>A pipe lives in a page of its own, whose address names it.\<close>

record ostate = cstate +
  ftable_lock :: spinlock
  files :: "nat \<Rightarrow> struct_file"
  pipes :: "uint64 \<Rightarrow> pipe"

definition upd_file :: "nat \<Rightarrow> (struct_file \<Rightarrow> struct_file) \<Rightarrow> 'a ostate_scheme \<Rightarrow> 'a ostate_scheme" where
  "upd_file i f s = s\<lparr>files := (files s)(i := f (files s i))\<rparr>"

definition upd_pipe :: "uint64 \<Rightarrow> (pipe \<Rightarrow> pipe) \<Rightarrow> 'a ostate_scheme \<Rightarrow> 'a ostate_scheme" where
  "upd_pipe a f s = s\<lparr>pipes := (pipes s)(a := f (pipes s a))\<rparr>"

definition ftable_L :: "('a ostate_scheme) lockref" where
  "ftable_L = (ftable_lock, \<lambda>f s. s\<lparr>ftable_lock := f (ftable_lock s)\<rparr>)"

definition pipe_L :: "uint64 \<Rightarrow> ('a ostate_scheme) lockref" where
  "pipe_L a = (\<lambda>s. pi_lock (pipes s a), \<lambda>f. upd_pipe a (\<lambda>p. p\<lparr>pi_lock := f (pi_lock p)\<rparr>))"

text \<open>The addresses of the fields \<^verbatim>\<open>nread\<close> and \<^verbatim>\<open>nwrite\<close>, on which readers and writers sleep.\<close>

definition nread_chan :: "uint64 \<Rightarrow> channel" where "nread_chan a = ChanAddr (a + 536)"
definition nwrite_chan :: "uint64 \<Rightarrow> channel" where "nwrite_chan a = ChanAddr (a + 540)"

text \<open>
  Where a system call that sleeps has stopped: what its loop needs to go on, with the process and the
  interrupt state \<^verbatim>\<open>sleep\<close> returns to.
\<close>

datatype blocked =
    BPipeWrite uint64 uint64 int nat "nat \<times> bool"
  | BPipeRead uint64 uint64 int "nat \<times> bool"
  | BConsRead nat "uint64 \<times> nat \<times> nat \<times> bool"
  | BConsWrite uint64 "uchar \<times> int \<times> nat \<times> nat \<times> bool"
  | BTicks uint int "nat \<times> bool"
  | BWait uint64 "nat \<times> bool"

datatype 'r outcome = Done 'r | Blocked blocked

section \<open>pipe.c\<close>

definition pipeclose :: "nat \<Rightarrow> 'a ostate_scheme \<Rightarrow> uint64 \<Rightarrow> bool \<Rightarrow> 'a ostate_scheme res" where
  "pipeclose c s a wr =
     rbind (lk_acquire c (pipe_L a) s) (\<lambda>s1.
     rbind (if wr then wakeup c (upd_pipe a (\<lambda>p. p\<lparr>writeopen := False\<rparr>) s1) (nread_chan a)
            else wakeup c (upd_pipe a (\<lambda>p. p\<lparr>readopen := False\<rparr>) s1) (nwrite_chan a)) (\<lambda>s2.
       if \<not> readopen (pipes s2 a) \<and> \<not> writeopen (pipes s2 a) then
         rbind (lk_release c (pipe_L a) s2) (\<lambda>s3. kfree c s3 a)
       else lk_release c (pipe_L a) s2))"

definition pipe_put :: "uint64 \<Rightarrow> uchar \<Rightarrow> 'a ostate_scheme \<Rightarrow> 'a ostate_scheme" where
  "pipe_put a ch = upd_pipe a (\<lambda>p. p\<lparr>pi_data := (pi_data p)[unat (nwrite p) mod PIPESIZE := ch], nwrite := nwrite p + 1\<rparr>)"

text \<open>The loop of \<^verbatim>\<open>pipewrite\<close> by process \<open>pr\<close> with \<open>k\<close> bytes to go; \<^verbatim>\<open>char ch\<close> lives at \<open>kframe\<close>.\<close>

fun pipewrite_loop :: "nat \<Rightarrow> 'a ostate_scheme \<Rightarrow> uint64 \<Rightarrow> nat \<Rightarrow> uint64 \<Rightarrow> int \<Rightarrow> nat \<Rightarrow> ('a ostate_scheme \<times> int outcome) res" where
  "pipewrite_loop c s a pr addr i 0 =
     rbind (wakeup c s (nread_chan a)) (\<lambda>s1. rbind (lk_release c (pipe_L a) s1) (\<lambda>s2. Ok (s2, Done i)))"
| "pipewrite_loop c s a pr addr i (Suc k) =
     rbind (if \<not> readopen (pipes s a) then Ok (s, 1) else killed_q c s pr) (\<lambda>(s1, stop).
       if stop \<noteq> 0 then rbind (lk_release c (pipe_L a) s1) (\<lambda>s2. Ok (s2, Done (-1)))
       else if nwrite (pipes s1 a) = nread (pipes s1 a) + of_nat PIPESIZE then
         rbind (wakeup c s1 (nread_chan a)) (\<lambda>s2.
         rbind (sleep_leave c s2 (nwrite_chan a) (pipe_L a)) (\<lambda>(s3, t).
         Ok (s3, Blocked (BPipeWrite a addr i (Suc k) t))))
       else
         rbind (copyin c s1 (pagetable (procs s1 pr)) (kframe s1) (addr + of_int i) 1) (\<lambda>(s2, r).
           if r = -1 then
             rbind (wakeup c s2 (nread_chan a)) (\<lambda>s3. rbind (lk_release c (pipe_L a) s3) (\<lambda>s4. Ok (s4, Done i)))
           else pipewrite_loop c (pipe_put a (mem s2 (kframe s2)) s2) a pr addr (i + 1) k))"

definition pipewrite :: "nat \<Rightarrow> 'a ostate_scheme \<Rightarrow> uint64 \<Rightarrow> uint64 \<Rightarrow> int \<Rightarrow> ('a ostate_scheme \<times> int outcome) res" where
  "pipewrite c s a addr n =
     rbind (myproc c s) (\<lambda>(s1, me). deref me (\<lambda>pr.
     rbind (lk_acquire c (pipe_L a) s1) (\<lambda>s2. pipewrite_loop c s2 a pr addr 0 (nat n))))"

definition pipewrite_resume :: "nat \<Rightarrow> 'a ostate_scheme \<Rightarrow> uint64 \<Rightarrow> uint64 \<Rightarrow> int \<Rightarrow> nat \<Rightarrow> nat \<times> bool \<Rightarrow>
    ('a ostate_scheme \<times> int outcome) res" where
  "pipewrite_resume c s a addr i k t =
     rbind (sleep_return c s (pipe_L a) t) (\<lambda>s1. pipewrite_loop c s1 a (fst t) addr i k)"

fun piperead_copy :: "nat \<Rightarrow> 'a ostate_scheme \<Rightarrow> uint64 \<Rightarrow> nat \<Rightarrow> uint64 \<Rightarrow> int \<Rightarrow> nat \<Rightarrow> ('a ostate_scheme \<times> int) res" where
  "piperead_copy c s a pr addr i 0 = Ok (s, i)"
| "piperead_copy c s a pr addr i (Suc k) =
     (if nread (pipes s a) = nwrite (pipes s a) then Ok (s, i)
      else let ch = pi_data (pipes s a) ! (unat (nread (pipes s a)) mod PIPESIZE);
               s1 = upd_pipe a (\<lambda>p. p\<lparr>nread := nread p + 1\<rparr>) s
           in rbind (copyout c (s1\<lparr>mem := (mem s1)(kframe s1 := ch)\<rparr>) (pagetable (procs s1 pr)) (addr + of_int i) (kframe s1) 1)
                (\<lambda>(s2, r). if r = -1 then Ok (s2, i) else piperead_copy c s2 a pr addr (i + 1) k))"

text \<open>\<^verbatim>\<open>piperead\<close> with the lock held.\<close>

definition piperead_go :: "nat \<Rightarrow> 'a ostate_scheme \<Rightarrow> uint64 \<Rightarrow> nat \<Rightarrow> uint64 \<Rightarrow> int \<Rightarrow> ('a ostate_scheme \<times> int outcome) res" where
  "piperead_go c s a pr addr n =
     (if nread (pipes s a) = nwrite (pipes s a) \<and> writeopen (pipes s a) then
        rbind (killed_q c s pr) (\<lambda>(s1, k).
          if k \<noteq> 0 then rbind (lk_release c (pipe_L a) s1) (\<lambda>s2. Ok (s2, Done (-1)))
          else rbind (sleep_leave c s1 (nread_chan a) (pipe_L a)) (\<lambda>(s2, t).
               Ok (s2, Blocked (BPipeRead a addr n t))))
      else
        rbind (piperead_copy c s a pr addr 0 (nat n)) (\<lambda>(s1, i).
        rbind (wakeup c s1 (nwrite_chan a)) (\<lambda>s2.
        rbind (lk_release c (pipe_L a) s2) (\<lambda>s3. Ok (s3, Done i)))))"

definition piperead :: "nat \<Rightarrow> 'a ostate_scheme \<Rightarrow> uint64 \<Rightarrow> uint64 \<Rightarrow> int \<Rightarrow> ('a ostate_scheme \<times> int outcome) res" where
  "piperead c s a addr n =
     rbind (myproc c s) (\<lambda>(s1, me). deref me (\<lambda>pr.
     rbind (lk_acquire c (pipe_L a) s1) (\<lambda>s2. piperead_go c s2 a pr addr n)))"

definition piperead_resume :: "nat \<Rightarrow> 'a ostate_scheme \<Rightarrow> uint64 \<Rightarrow> uint64 \<Rightarrow> int \<Rightarrow> nat \<times> bool \<Rightarrow> ('a ostate_scheme \<times> int outcome) res" where
  "piperead_resume c s a addr n t =
     rbind (sleep_return c s (pipe_L a) t) (\<lambda>s1. piperead_go c s1 a (fst t) addr n)"

section \<open>file.c\<close>

definition fileinit :: "'a ostate_scheme \<Rightarrow> 'a ostate_scheme" where
  "fileinit s = s\<lparr>ftable_lock := initlock (ftable_lock s) ''ftable''\<rparr>"

fun filealloc_scan :: "(nat \<Rightarrow> struct_file) \<Rightarrow> nat list \<Rightarrow> nat option" where
  "filealloc_scan F [] = None"
| "filealloc_scan F (f # fs) = (if f_ref (F f) = 0 then Some f else filealloc_scan F fs)"

definition filealloc :: "nat \<Rightarrow> 'a ostate_scheme \<Rightarrow> ('a ostate_scheme \<times> nat option) res" where
  "filealloc c s =
     rbind (lk_acquire c ftable_L s) (\<lambda>s1.
       case filealloc_scan (files s1) [0..<NFILE] of
         Some f \<Rightarrow> rbind (lk_release c ftable_L (upd_file f (\<lambda>x. x\<lparr>f_ref := 1\<rparr>) s1)) (\<lambda>s2. Ok (s2, Some f))
       | None \<Rightarrow> rbind (lk_release c ftable_L s1) (\<lambda>s2. Ok (s2, None)))"

definition filedup :: "nat \<Rightarrow> 'a ostate_scheme \<Rightarrow> nat \<Rightarrow> ('a ostate_scheme \<times> nat) res" where
  "filedup c s f =
     rbind (lk_acquire c ftable_L s) (\<lambda>s1.
       if f_ref (files s1 f) < 1 then Panic ''filedup''
       else rbind (lk_release c ftable_L (upd_file f (\<lambda>x. x\<lparr>f_ref := f_ref x + 1\<rparr>) s1)) (\<lambda>s2. Ok (s2, f)))"

definition fileclose :: "nat \<Rightarrow> 'a ostate_scheme \<Rightarrow> nat \<Rightarrow> 'a ostate_scheme res" where
  "fileclose c s f =
     rbind (lk_acquire c ftable_L s) (\<lambda>s1.
       if f_ref (files s1 f) < 1 then Panic ''fileclose''
       else let s2 = upd_file f (\<lambda>x. x\<lparr>f_ref := f_ref x - 1\<rparr>) s1
            in if f_ref (files s2 f) > 0 then lk_release c ftable_L s2
               else let ff = files s2 f
                    in rbind (lk_release c ftable_L (upd_file f (\<lambda>x. x\<lparr>f_ref := 0, f_type := FD_NONE\<rparr>) s2)) (\<lambda>s3.
                       if f_type ff = FD_PIPE then pipeclose c s3 (f_pipe ff) (writable ff)
                       else if f_type ff = FD_INODE \<or> f_type ff = FD_DEVICE then
                         rbind (begin_op c s3) (\<lambda>s4.
                         rbind (deref (f_ip ff) (iput c s4)) (\<lambda>s5. end_op c s5))
                       else Ok s3))"

definition pipealloc :: "nat \<Rightarrow> 'a ostate_scheme \<Rightarrow> ('a ostate_scheme \<times> (nat \<times> nat) option) res" where
  "pipealloc c s =
     rbind (filealloc c s) (\<lambda>(s1, f0).
       case f0 of None \<Rightarrow> Ok (s1, None)
       | Some rdf \<Rightarrow>
         rbind (filealloc c s1) (\<lambda>(s2, f1).
           case f1 of None \<Rightarrow> rbind (fileclose c s2 rdf) (\<lambda>s3. Ok (s3, None))
           | Some wrf \<Rightarrow>
             rbind (kalloc c s2) (\<lambda>(s3, a).
               if a = 0 then
                 rbind (fileclose c s3 rdf) (\<lambda>s4. rbind (fileclose c s4 wrf) (\<lambda>s5. Ok (s5, None)))
               else
                 let s4 = upd_pipe a (\<lambda>p. p\<lparr>readopen := True, writeopen := True, nwrite := 0, nread := 0,
                            pi_lock := initlock (pi_lock p) ''pipe''\<rparr>) s3;
                     s5 = upd_file rdf (\<lambda>x. x\<lparr>f_type := FD_PIPE, readable := True, writable := False, f_pipe := a\<rparr>) s4;
                     s6 = upd_file wrf (\<lambda>x. x\<lparr>f_type := FD_PIPE, readable := False, writable := True, f_pipe := a\<rparr>) s5
                 in Ok (s6, Some (rdf, wrf)))))"

text \<open>\<^verbatim>\<open>struct stat st\<close> lives at \<open>kframe\<close>: 24 bytes, with 4 bytes of padding before \<^verbatim>\<open>size\<close>.\<close>

definition stat_bytes :: "stat \<Rightarrow> uchar list \<Rightarrow> uchar list" where
  "stat_bytes st pad = le_bytes 4 (of_int (st_dev st)) @ le_bytes 4 (ucast (st_ino st)) @ le_bytes 2 (ucast (st_type st)) @
     le_bytes 2 (ucast (st_nlink st)) @ pad @ le_bytes 8 (st_size st)"

definition filestat :: "nat \<Rightarrow> 'a ostate_scheme \<Rightarrow> nat \<Rightarrow> uint64 \<Rightarrow> ('a ostate_scheme \<times> int) res" where
  "filestat c s f addr =
     rbind (myproc c s) (\<lambda>(s1, me). deref me (\<lambda>p.
       if f_type (files s1 f) = FD_INODE \<or> f_type (files s1 f) = FD_DEVICE then
         rbind (ilock c s1 (f_ip (files s1 f))) (\<lambda>s2. deref (f_ip (files s2 f)) (\<lambda>ip.
         let st = stat_bytes (stati s2 ip) (bytes (mem s2) (kframe s2 + 12) 4);
             s3 = s2\<lparr>mem := put_bytes (mem s2) (kframe s2) st\<rparr>
         in rbind (iunlock c s3 (f_ip (files s3 f))) (\<lambda>s4.
            rbind (copyout c s4 (pagetable (procs s4 p)) addr (kframe s4) 24) (\<lambda>(s5, r).
            Ok (s5, if r < 0 then -1 else 0)))))
       else Ok (s1, -1)))"

definition cons_read_outcome :: "nat \<Rightarrow> int + uint64 \<times> nat \<times> nat \<times> bool \<Rightarrow> int outcome" where
  "cons_read_outcome target r = (case r of Inl v \<Rightarrow> Done v | Inr q \<Rightarrow> Blocked (BConsRead target q))"

definition cons_write_outcome :: "uint64 \<Rightarrow> int + uchar \<times> int \<times> nat \<times> nat \<times> bool \<Rightarrow> int outcome" where
  "cons_write_outcome src r = (case r of Inl v \<Rightarrow> Done v | Inr q \<Rightarrow> Blocked (BConsWrite src q))"

definition bad_major :: "ushort \<Rightarrow> bool" where
  "bad_major m \<longleftrightarrow> sint m < 0 \<or> sint m \<ge> int NDEV"

definition fileread :: "nat \<Rightarrow> 'a ostate_scheme \<Rightarrow> nat \<Rightarrow> uint64 \<Rightarrow> int \<Rightarrow> ('a ostate_scheme \<times> int outcome) res" where
  "fileread c s f addr n =
     (if \<not> readable (files s f) then Ok (s, Done (-1))
      else case f_type (files s f) of
        FD_PIPE \<Rightarrow> piperead c s (f_pipe (files s f)) addr n
      | FD_DEVICE \<Rightarrow>
          (if bad_major (f_major (files s f)) \<or> dev_read (devsw s (unat (f_major (files s f)))) = None
           then Ok (s, Done (-1))
           else rbind (consoleread c s True addr n) (\<lambda>(s1, r). Ok (s1, cons_read_outcome (nat n) r)))
      | FD_INODE \<Rightarrow>
          rbind (ilock c s (f_ip (files s f))) (\<lambda>s1. deref (f_ip (files s1 f)) (\<lambda>ip.
          rbind (readi c s1 ip True addr (f_off (files s1 f)) (of_int n)) (\<lambda>(s2, r).
          let s3 = (if r > 0 then upd_file f (\<lambda>x. x\<lparr>f_off := f_off x + of_int r\<rparr>) s2 else s2)
          in rbind (iunlock c s3 (f_ip (files s3 f))) (\<lambda>s4. Ok (s4, Done r)))))
      | FD_NONE \<Rightarrow> Panic ''fileread'')"

text \<open>At most three blocks are written in one transaction.\<close>

definition max_write :: int where "max_write = (int MAXOPBLOCKS - 1 - 1 - 2) div 2 * int BSIZE"

fun filewrite_loop :: "nat \<Rightarrow> nat \<Rightarrow> 'a ostate_scheme \<Rightarrow> nat \<Rightarrow> uint64 \<Rightarrow> int \<Rightarrow> int \<Rightarrow> ('a ostate_scheme \<times> int) res" where
  "filewrite_loop 0 c s f addr n i = Hang"
| "filewrite_loop (Suc k) c s f addr n i =
     (if i < n then
        let n1 = (if n - i > max_write then max_write else n - i)
        in rbind (begin_op c s) (\<lambda>s1.
           rbind (ilock c s1 (f_ip (files s1 f))) (\<lambda>s2. deref (f_ip (files s2 f)) (\<lambda>ip.
           rbind (writei c s2 ip True (addr + of_int i) (f_off (files s2 f)) (of_int n1)) (\<lambda>(s3, r).
           let s4 = (if r > 0 then upd_file f (\<lambda>x. x\<lparr>f_off := f_off x + of_int r\<rparr>) s3 else s3)
           in rbind (iunlock c s4 (f_ip (files s4 f))) (\<lambda>s5.
              rbind (end_op c s5) (\<lambda>s6.
                if r \<noteq> n1 then Ok (s6, i) else filewrite_loop k c s6 f addr n (i + r)))))))
      else Ok (s, i))"

definition filewrite :: "nat \<Rightarrow> 'a ostate_scheme \<Rightarrow> nat \<Rightarrow> uint64 \<Rightarrow> int \<Rightarrow> ('a ostate_scheme \<times> int outcome) res" where
  "filewrite c s f addr n =
     (if \<not> writable (files s f) then Ok (s, Done (-1))
      else case f_type (files s f) of
        FD_PIPE \<Rightarrow> pipewrite c s (f_pipe (files s f)) addr n
      | FD_DEVICE \<Rightarrow>
          (if bad_major (f_major (files s f)) \<or> dev_write (devsw s (unat (f_major (files s f)))) = None
           then Ok (s, Done (-1))
           else rbind (consolewrite c s True addr n) (\<lambda>(s1, r). Ok (s1, cons_write_outcome addr r)))
      | FD_INODE \<Rightarrow>
          rbind (filewrite_loop (nat (n div max_write) + 2) c s f addr n 0) (\<lambda>(s1, i).
            Ok (s1, Done (if i = n then n else -1)))
      | FD_NONE \<Rightarrow> Panic ''filewrite'')"

end
