(* ===== verification/Proc_Life.thy ===== *)
theory Proc_Life
  imports File
begin

text \<open>
  The routines of \<^verbatim>\<open>kernel/proc.c\<close> that use the file system: the first process, \<^verbatim>\<open>fork\<close> and \<^verbatim>\<open>exit\<close>. The state
  gains the clock and the registers of \<^verbatim>\<open>trap.c\<close>, and the addresses the linker gives to the code a trap
  register may point to.
\<close>

section \<open>The state of the whole kernel\<close>

text \<open>The control registers of a hart; the bit \<^verbatim>\<open>SSTATUS_SIE\<close> of \<^verbatim>\<open>sstatus\<close> is the field \<open>intr\<close> of its CPU.\<close>

record csrs =
  mhartid :: uint64
  mstatus :: uint64
  mepc :: uint64
  sstatus_rest :: uint64
  sip :: uint64
  sie :: uint64
  mie :: uint64
  sepc :: uint64
  medeleg :: uint64
  mideleg :: uint64
  stvec :: uint64
  mtvec :: uint64
  pmpcfg0 :: uint64
  pmpaddr0 :: uint64
  satp :: uint64
  mscratch :: uint64
  scause :: uint64
  stval :: uint64
  tp :: uint64

text \<open>The interrupt controller: priorities, and each hart's enable bits, threshold, pending and completed interrupts.\<close>

record plic_dev =
  plic_priority :: "uint \<Rightarrow> uint"
  plic_enable :: "nat \<Rightarrow> uint"
  plic_threshold :: "nat \<Rightarrow> uint"
  plic_pending :: "nat \<Rightarrow> uint list"
  plic_done :: "nat \<Rightarrow> uint list"

text \<open>Addresses of code, fixed by the linker.\<close>

record code_addrs =
  a_kernelvec :: uint64
  a_uservec :: uint64
  a_userret :: uint64
  a_usertrap :: uint64
  a_timervec :: uint64
  a_main :: uint64
  a_initcode :: uint64
  a_etext :: uint64
  a_timer_scratch :: uint64

record kernel = ostate +
  tickslock :: spinlock
  ticks :: uint
  csr :: "nat \<Rightarrow> csrs"
  plic :: plic_dev
  code :: code_addrs
  first :: bool
  started :: bool
  kernel_pagetable :: uint64
  mtime :: uint64
  mtimecmp :: "nat \<Rightarrow> uint64"

text \<open>The address of a local variable, a fixed distance above \<open>kframe\<close>.\<close>

definition lvar :: "'a pstate_scheme \<Rightarrow> nat \<Rightarrow> uint64" where
  "lvar s k = kframe s + of_nat k"

text \<open>The bytes of a string before its terminator, in a buffer of \<open>k\<close> bytes.\<close>

definition cstring :: "memory \<Rightarrow> uint64 \<Rightarrow> nat \<Rightarrow> uchar list" where
  "cstring m a k = takeWhile (\<lambda>b. b \<noteq> 0) (bytes m a k)"

definition uchars :: "string \<Rightarrow> uchar list" where
  "uchars t = map of_char t"

text \<open>\<^verbatim>\<open>safestrcpy(p->name, t, 16)\<close> on the array of 16 bytes.\<close>

definition set_name :: "uchar list \<Rightarrow> uchar list \<Rightarrow> uchar list" where
  "set_name old t = (if length t < 15 then t @ [0, 0] @ drop (length t + 2) old else take 15 t @ [0])"

section \<open>The first process\<close>

definition initcode :: "uchar list" where
  "initcode = [
    0x17, 0x05, 0x00, 0x00, 0x13, 0x05, 0x45, 0x02,
    0x97, 0x05, 0x00, 0x00, 0x93, 0x85, 0x35, 0x02,
    0x93, 0x08, 0x70, 0x00, 0x73, 0x00, 0x00, 0x00,
    0x93, 0x08, 0x20, 0x00, 0x73, 0x00, 0x00, 0x00,
    0xef, 0xf0, 0x9f, 0xff, 0x2f, 0x69, 0x6e, 0x69,
    0x74, 0x00, 0x00, 0x24, 0x00, 0x00, 0x00, 0x00,
    0x00, 0x00, 0x00, 0x00]"

definition userinit :: "nat \<Rightarrow> 'a kernel_scheme \<Rightarrow> 'a kernel_scheme res" where
  "userinit c s =
     rbind (allocproc c s) (\<lambda>(s1, p).
     let s2 = s1\<lparr>initproc := p, mem := put_bytes (mem s1) (a_initcode (code s1)) initcode\<rparr>
     in deref p (\<lambda>i.
        rbind (uvmfirst c s2 (pagetable (procs s2 i)) (a_initcode (code s2)) (of_nat (length initcode))) (\<lambda>s3.
        let s4 = upd_proc i (\<lambda>q. q\<lparr>sz := PGSIZE\<rparr>) s3;
            s5 = tf_set i ''sp'' PGSIZE (tf_set i ''epc'' 0 s4);
            s6 = upd_proc i (\<lambda>q. q\<lparr>p_name := set_name (p_name q) (uchars ''initcode'')\<rparr>) s5
        in rbind (namei c s6 [slash]) (\<lambda>(s7, d).
           let s8 = upd_proc i (\<lambda>q. q\<lparr>cwd := d, state := RUNNABLE\<rparr>) s7
           in rbind (insertProcess c s8 i) (\<lambda>s9. lk_release c (proc_L i) s9)))))"

section \<open>fork\<close>

fun fork_files :: "nat \<Rightarrow> 'a ostate_scheme \<Rightarrow> nat \<Rightarrow> nat \<Rightarrow> nat list \<Rightarrow> 'a ostate_scheme res" where
  "fork_files c s p np [] = Ok s"
| "fork_files c s p np (i # is) =
     (case ofile (procs s p) i of
        None \<Rightarrow> fork_files c s p np is
      | Some f \<Rightarrow> rbind (filedup c s f) (\<lambda>(s1, f1).
          fork_files c (upd_proc np (\<lambda>q. q\<lparr>ofile := (ofile q)(i := Some f1)\<rparr>) s1) p np is))"

text \<open>\<^verbatim>\<open>struct trapframe\<close> is 36 words.\<close>

definition copy_trapframe :: "nat \<Rightarrow> nat \<Rightarrow> 'a pstate_scheme \<Rightarrow> 'a pstate_scheme" where
  "copy_trapframe p np s =
     s\<lparr>mem := put_bytes (mem s) (trapframe_pg (procs s np)) (bytes (mem s) (trapframe_pg (procs s p)) 288)\<rparr>"

definition fork :: "nat \<Rightarrow> 'a ostate_scheme \<Rightarrow> ('a ostate_scheme \<times> int) res" where
  "fork c s =
     rbind (myproc c s) (\<lambda>(s1, me). deref me (\<lambda>p.
     rbind (allocproc c s1) (\<lambda>(s2, new).
       case new of None \<Rightarrow> Ok (s2, -1)
       | Some np \<Rightarrow>
         rbind (uvmcopy c s2 (pagetable (procs s2 p)) (pagetable (procs s2 np)) (sz (procs s2 p))) (\<lambda>(s3, r).
           if r < 0 then
             rbind (freeproc c s3 np) (\<lambda>s4. rbind (lk_release c (proc_L np) s4) (\<lambda>s5. Ok (s5, -1)))
           else
             let s4 = upd_proc np (\<lambda>q. q\<lparr>sz := sz (procs s3 p)\<rparr>) s3;
                 s5 = tf_set np ''a0'' 0 (copy_trapframe p np s4)
             in rbind (fork_files c s5 p np [0..<NOFILE]) (\<lambda>s6.
                rbind (deref (cwd (procs s6 p)) (idup c s6)) (\<lambda>(s7, d).
                let s8 = upd_proc np (\<lambda>q. q\<lparr>cwd := Some d,
                           p_name := set_name (p_name q) (takeWhile (\<lambda>b. b \<noteq> 0) (p_name (procs s7 p)))\<rparr>) s7;
                    n = pid (procs s8 np)
                in rbind (lk_release c (proc_L np) s8) (\<lambda>s9.
                   rbind (lk_acquire c wait_L s9) (\<lambda>s10.
                   rbind (lk_release c wait_L (upd_proc np (\<lambda>q. q\<lparr>parent := Some p\<rparr>) s10)) (\<lambda>s11.
                   rbind (lk_acquire c (proc_L np) s11) (\<lambda>s12.
                   rbind (lk_release c (proc_L np) (upd_proc np (\<lambda>q. q\<lparr>state := RUNNABLE\<rparr>) s12)) (\<lambda>s13.
                   rbind (insertProcess c s13 np) (\<lambda>s14. Ok (s14, n))))))))))))) "

section \<open>exit\<close>

fun exit_files :: "nat \<Rightarrow> 'a ostate_scheme \<Rightarrow> nat \<Rightarrow> nat list \<Rightarrow> 'a ostate_scheme res" where
  "exit_files c s p [] = Ok s"
| "exit_files c s p (fd # fds) =
     (case ofile (procs s p) fd of
        None \<Rightarrow> exit_files c s p fds
      | Some f \<Rightarrow> rbind (fileclose c s f) (\<lambda>s1.
          exit_files c (upd_proc p (\<lambda>q. q\<lparr>ofile := (ofile q)(fd := None)\<rparr>) s1) p fds))"

text \<open>No process sleeps on the null channel.\<close>

definition proc_chan :: "pptr \<Rightarrow> channel" where
  "proc_chan p = (case p of Some i \<Rightarrow> ChanProc i | None \<Rightarrow> ChanAddr 0)"

text \<open>\<^verbatim>\<open>exit\<close> up to its \<^verbatim>\<open>sched\<close>; coming back from it is the panic \<open>zombie exit\<close>.\<close>

definition exit_leave :: "nat \<Rightarrow> 'a ostate_scheme \<Rightarrow> int \<Rightarrow> ('a ostate_scheme \<times> nat \<times> bool) res" where
  "exit_leave c s status =
     rbind (myproc c s) (\<lambda>(s1, me).
       if me = initproc s1 then Panic ''init exiting''
       else deref me (\<lambda>p.
         rbind (exit_files c s1 p [0..<NOFILE]) (\<lambda>s2.
         rbind (begin_op c s2) (\<lambda>s3.
         rbind (deref (cwd (procs s3 p)) (iput c s3)) (\<lambda>s4.
         rbind (end_op c s4) (\<lambda>s5.
         rbind (lk_acquire c wait_L (upd_proc p (\<lambda>q. q\<lparr>cwd := None\<rparr>) s5)) (\<lambda>s6.
         rbind (reparent c s6 p) (\<lambda>s7.
         rbind (wakeup c s7 (proc_chan (parent (procs s7 p)))) (\<lambda>s8.
         rbind (lk_acquire c (proc_L p) s8) (\<lambda>s9.
         rbind (lk_release c wait_L (upd_proc p (\<lambda>q. q\<lparr>xstate := status, state := ZOMBIE\<rparr>) s9)) (\<lambda>s10.
         sched_leave c s10)))))))))))"

definition exit_return :: "'a ostate_scheme \<Rightarrow> 'a ostate_scheme res" where
  "exit_return s = Panic ''zombie exit''"

end
