(* ===== verification/Sysfile.thy ===== *)
theory Sysfile
  imports Proc_Life
begin

text \<open>
  Arguments of system calls (\<^verbatim>\<open>kernel/syscall.c\<close>, lines 10 to 77) and the file system calls of
  \<^verbatim>\<open>kernel/sysfile.c\<close>. Local buffers lie above \<open>kframe\<close>: two paths, an argument pointer and two descriptors.
\<close>

section \<open>Arguments\<close>

definition path_buf :: "'a pstate_scheme \<Rightarrow> uint64" where "path_buf s = lvar s 256"
definition path_buf2 :: "'a pstate_scheme \<Rightarrow> uint64" where "path_buf2 s = lvar s 384"
definition uarg_buf :: "'a pstate_scheme \<Rightarrow> uint64" where "uarg_buf s = lvar s 640"
definition fd_buf :: "'a pstate_scheme \<Rightarrow> uint64" where "fd_buf s = lvar s 656"

definition fetchaddr :: "nat \<Rightarrow> 'a pstate_scheme \<Rightarrow> uint64 \<Rightarrow> uint64 \<Rightarrow> ('a pstate_scheme \<times> int) res" where
  "fetchaddr c s addr ip =
     rbind (myproc c s) (\<lambda>(s1, me). deref me (\<lambda>p.
       if addr \<ge> sz (procs s1 p) \<or> addr + 8 > sz (procs s1 p) then Ok (s1, -1)
       else rbind (copyin c s1 (pagetable (procs s1 p)) ip addr 8) (\<lambda>(s2, r). Ok (s2, if r \<noteq> 0 then -1 else 0))))"

definition fetchstr :: "nat \<Rightarrow> 'a pstate_scheme \<Rightarrow> uint64 \<Rightarrow> uint64 \<Rightarrow> nat \<Rightarrow> ('a pstate_scheme \<times> int) res" where
  "fetchstr c s addr buf mx =
     rbind (myproc c s) (\<lambda>(s1, me). deref me (\<lambda>p.
     rbind (copyinstr c s1 (pagetable (procs s1 p)) buf addr (of_nat mx)) (\<lambda>(s2, r).
       if r < 0 then Ok (s2, -1) else rbind (strlen (mem s2) buf) (\<lambda>n. Ok (s2, int n)))))"

definition argraw :: "nat \<Rightarrow> 'a pstate_scheme \<Rightarrow> int \<Rightarrow> ('a pstate_scheme \<times> uint64) res" where
  "argraw c s n =
     rbind (myproc c s) (\<lambda>(s1, me). deref me (\<lambda>p.
       if n = 0 then Ok (s1, tf_get s1 p ''a0'') else if n = 1 then Ok (s1, tf_get s1 p ''a1'')
       else if n = 2 then Ok (s1, tf_get s1 p ''a2'') else if n = 3 then Ok (s1, tf_get s1 p ''a3'')
       else if n = 4 then Ok (s1, tf_get s1 p ''a4'') else if n = 5 then Ok (s1, tf_get s1 p ''a5'')
       else Panic ''argraw''))"

definition argint :: "nat \<Rightarrow> 'a pstate_scheme \<Rightarrow> int \<Rightarrow> ('a pstate_scheme \<times> int) res" where
  "argint c s n = rbind (argraw c s n) (\<lambda>(s1, v). Ok (s1, sint (ucast v :: uint)))"

definition argaddr :: "nat \<Rightarrow> 'a pstate_scheme \<Rightarrow> int \<Rightarrow> ('a pstate_scheme \<times> uint64) res" where
  "argaddr c s n = argraw c s n"

definition argstr :: "nat \<Rightarrow> 'a pstate_scheme \<Rightarrow> int \<Rightarrow> uint64 \<Rightarrow> nat \<Rightarrow> ('a pstate_scheme \<times> int) res" where
  "argstr c s n buf mx = rbind (argaddr c s n) (\<lambda>(s1, addr). fetchstr c s1 addr buf mx)"

text \<open>\<^verbatim>\<open>argstr(n, path, MAXPATH)\<close>: the path, or \<open>None\<close> for a negative result.\<close>

definition argpath :: "nat \<Rightarrow> 'a pstate_scheme \<Rightarrow> int \<Rightarrow> uint64 \<Rightarrow> ('a pstate_scheme \<times> uchar list option) res" where
  "argpath c s n buf =
     rbind (argstr c s n buf MAXPATH) (\<lambda>(s1, r).
       Ok (s1, if r < 0 then None else Some (cstring (mem s1) buf MAXPATH)))"

section \<open>File descriptors\<close>

definition argfd :: "nat \<Rightarrow> 'a ostate_scheme \<Rightarrow> int \<Rightarrow> ('a ostate_scheme \<times> (int \<times> nat) option) res" where
  "argfd c s n =
     rbind (argint c s n) (\<lambda>(s1, fd).
       if fd < 0 \<or> fd \<ge> int NOFILE then Ok (s1, None)
       else rbind (myproc c s1) (\<lambda>(s2, me). deref me (\<lambda>p.
         Ok (s2, case ofile (procs s2 p) (nat fd) of None \<Rightarrow> None | Some f \<Rightarrow> Some (fd, f)))))"

fun fdalloc_scan :: "(nat \<Rightarrow> nat option) \<Rightarrow> nat list \<Rightarrow> nat option" where
  "fdalloc_scan ofl [] = None"
| "fdalloc_scan ofl (fd # fds) = (if ofl fd = None then Some fd else fdalloc_scan ofl fds)"

definition set_ofile :: "nat \<Rightarrow> nat \<Rightarrow> nat option \<Rightarrow> 'a rq_state_scheme \<Rightarrow> 'a rq_state_scheme" where
  "set_ofile p fd f = upd_proc p (\<lambda>q. q\<lparr>ofile := (ofile q)(fd := f)\<rparr>)"

definition fdalloc :: "nat \<Rightarrow> 'a ostate_scheme \<Rightarrow> nat \<Rightarrow> ('a ostate_scheme \<times> int) res" where
  "fdalloc c s f =
     rbind (myproc c s) (\<lambda>(s1, me). deref me (\<lambda>p.
       case fdalloc_scan (ofile (procs s1 p)) [0..<NOFILE] of
         Some fd \<Rightarrow> Ok (set_ofile p fd (Some f) s1, int fd)
       | None \<Rightarrow> Ok (s1, -1)))"

definition sys_dup :: "nat \<Rightarrow> 'a ostate_scheme \<Rightarrow> ('a ostate_scheme \<times> int) res" where
  "sys_dup c s =
     rbind (argfd c s 0) (\<lambda>(s1, a).
       case a of None \<Rightarrow> Ok (s1, -1)
       | Some (_, f) \<Rightarrow>
         rbind (fdalloc c s1 f) (\<lambda>(s2, fd).
           if fd < 0 then Ok (s2, -1) else rbind (filedup c s2 f) (\<lambda>(s3, _). Ok (s3, fd))))"

definition sys_read :: "nat \<Rightarrow> 'a ostate_scheme \<Rightarrow> ('a ostate_scheme \<times> int outcome) res" where
  "sys_read c s =
     rbind (argaddr c s 1) (\<lambda>(s1, p).
     rbind (argint c s1 2) (\<lambda>(s2, n).
     rbind (argfd c s2 0) (\<lambda>(s3, a).
       case a of None \<Rightarrow> Ok (s3, Done (-1)) | Some (_, f) \<Rightarrow> fileread c s3 f p n)))"

definition sys_write :: "nat \<Rightarrow> 'a ostate_scheme \<Rightarrow> ('a ostate_scheme \<times> int outcome) res" where
  "sys_write c s =
     rbind (argaddr c s 1) (\<lambda>(s1, p).
     rbind (argint c s1 2) (\<lambda>(s2, n).
     rbind (argfd c s2 0) (\<lambda>(s3, a).
       case a of None \<Rightarrow> Ok (s3, Done (-1)) | Some (_, f) \<Rightarrow> filewrite c s3 f p n)))"

definition sys_close :: "nat \<Rightarrow> 'a ostate_scheme \<Rightarrow> ('a ostate_scheme \<times> int) res" where
  "sys_close c s =
     rbind (argfd c s 0) (\<lambda>(s1, a).
       case a of None \<Rightarrow> Ok (s1, -1)
       | Some (fd, f) \<Rightarrow>
         rbind (myproc c s1) (\<lambda>(s2, me). deref me (\<lambda>p.
         rbind (fileclose c (set_ofile p (nat fd) None s2) f) (\<lambda>s3. Ok (s3, 0)))))"

definition sys_fstat :: "nat \<Rightarrow> 'a ostate_scheme \<Rightarrow> ('a ostate_scheme \<times> int) res" where
  "sys_fstat c s =
     rbind (argaddr c s 1) (\<lambda>(s1, st).
     rbind (argfd c s1 0) (\<lambda>(s2, a).
       case a of None \<Rightarrow> Ok (s2, -1) | Some (_, f) \<Rightarrow> filestat c s2 f st))"

section \<open>Links\<close>

text \<open>\<^verbatim>\<open>end_op(); return v;\<close>\<close>

definition op_ret :: "nat \<Rightarrow> 'a fstate_scheme \<Rightarrow> 'r \<Rightarrow> ('a fstate_scheme \<times> 'r) res" where
  "op_ret c s v = rbind (end_op c s) (\<lambda>s1. Ok (s1, v))"

definition add_nlink :: "nat \<Rightarrow> ushort \<Rightarrow> 'a fstate_scheme \<Rightarrow> 'a fstate_scheme" where
  "add_nlink ip d = upd_inode ip (\<lambda>x. x\<lparr>in_nlink := in_nlink x + d\<rparr>)"

definition link_bad :: "nat \<Rightarrow> 'a fstate_scheme \<Rightarrow> nat \<Rightarrow> ('a fstate_scheme \<times> int) res" where
  "link_bad c s ip =
     rbind (ilock c s (Some ip)) (\<lambda>s1.
     rbind (iupdate c (add_nlink ip (-1) s1) ip) (\<lambda>s2.
     rbind (iunlockput c s2 ip) (\<lambda>s3. op_ret c s3 (-1))))"

definition sys_link :: "nat \<Rightarrow> 'a fstate_scheme \<Rightarrow> ('a fstate_scheme \<times> int) res" where
  "sys_link c s =
     rbind (argpath c s 0 (path_buf s)) (\<lambda>(s1, old).
       case old of None \<Rightarrow> Ok (s1, -1)
       | Some old \<Rightarrow> rbind (argpath c s1 1 (path_buf2 s1)) (\<lambda>(s2, new).
       case new of None \<Rightarrow> Ok (s2, -1)
       | Some new \<Rightarrow>
         rbind (begin_op c s2) (\<lambda>s3.
         rbind (namei c s3 old) (\<lambda>(s4, r).
           case r of None \<Rightarrow> op_ret c s4 (-1)
           | Some ip \<Rightarrow>
             rbind (ilock c s4 (Some ip)) (\<lambda>s5.
               if in_type (inodes s5 ip) = T_DIR then rbind (iunlockput c s5 ip) (\<lambda>s6. op_ret c s6 (-1))
               else
                 rbind (iupdate c (add_nlink ip 1 s5) ip) (\<lambda>s6.
                 rbind (iunlock c s6 (Some ip)) (\<lambda>s7.
                 rbind (nameiparent c s7 new) (\<lambda>(s8, pr).
                   case pr of None \<Rightarrow> link_bad c s8 ip
                   | Some (dp, name) \<Rightarrow>
                     rbind (ilock c s8 (Some dp)) (\<lambda>s9.
                     rbind (if in_dev (inodes s9 dp) \<noteq> in_dev (inodes s9 ip) then Ok (s9, -1)
                            else dirlink c s9 dp name (in_inum (inodes s9 ip))) (\<lambda>(s10, rr).
                       if rr < 0 then rbind (iunlockput c s10 dp) (\<lambda>s11. link_bad c s11 ip)
                       else rbind (iunlockput c s10 dp) (\<lambda>s11.
                            rbind (iput c s11 ip) (\<lambda>s12. op_ret c s12 0)))))))))))) "

fun isdirempty_loop :: "nat \<Rightarrow> nat \<Rightarrow> 'a fstate_scheme \<Rightarrow> nat \<Rightarrow> uint \<Rightarrow> ('a fstate_scheme \<times> bool) res" where
  "isdirempty_loop 0 c s dp o' = Hang"
| "isdirempty_loop (Suc k) c s dp o' =
     (if o' < in_size (inodes s dp) then
        rbind (readi c s dp False (kframe s) o' 16) (\<lambda>(s1, r).
          if r \<noteq> 16 then Panic ''isdirempty: readi''
          else if de_inum s1 \<noteq> 0 then Ok (s1, False)
          else isdirempty_loop k c s1 dp (o' + 16))
      else Ok (s, True))"

definition isdirempty :: "nat \<Rightarrow> 'a fstate_scheme \<Rightarrow> nat \<Rightarrow> ('a fstate_scheme \<times> bool) res" where
  "isdirempty c s dp = isdirempty_loop (unat (in_size (inodes s dp)) div 16 + 2) c s dp 32"

definition unlink_bad :: "nat \<Rightarrow> 'a fstate_scheme \<Rightarrow> nat \<Rightarrow> ('a fstate_scheme \<times> int) res" where
  "unlink_bad c s dp = rbind (iunlockput c s dp) (\<lambda>s1. op_ret c s1 (-1))"

definition unlink_entry :: "nat \<Rightarrow> 'a fstate_scheme \<Rightarrow> nat \<Rightarrow> nat \<Rightarrow> uint \<Rightarrow> ('a fstate_scheme \<times> int) res" where
  "unlink_entry c s dp ip o' =
     (let s1 = s\<lparr>mem := memset (mem s) (kframe s) 0 16\<rparr>
      in rbind (writei c s1 dp False (kframe s1) o' 16) (\<lambda>(s2, r).
         if r \<noteq> 16 then Panic ''unlink: writei''
         else
           rbind (if in_type (inodes s2 ip) = T_DIR then iupdate c (add_nlink dp (-1) s2) dp else Ok s2) (\<lambda>s3.
           rbind (iunlockput c s3 dp) (\<lambda>s4.
           rbind (iupdate c (add_nlink ip (-1) s4) ip) (\<lambda>s5.
           rbind (iunlockput c s5 ip) (\<lambda>s6. op_ret c s6 0))))))"

definition sys_unlink :: "nat \<Rightarrow> 'a fstate_scheme \<Rightarrow> ('a fstate_scheme \<times> int) res" where
  "sys_unlink c s =
     rbind (argpath c s 0 (path_buf s)) (\<lambda>(s1, pth).
       case pth of None \<Rightarrow> Ok (s1, -1)
       | Some pth \<Rightarrow>
         rbind (begin_op c s1) (\<lambda>s2.
         rbind (nameiparent c s2 pth) (\<lambda>(s3, pr).
           case pr of None \<Rightarrow> op_ret c s3 (-1)
           | Some (dp, name) \<Rightarrow>
             rbind (ilock c s3 (Some dp)) (\<lambda>s4.
               if namecmp name (uchars ''.'') = 0 \<or> namecmp name (uchars ''..'') = 0 then unlink_bad c s4 dp
               else rbind (dirlookup c s4 dp name) (\<lambda>(s5, hit).
                 case hit of None \<Rightarrow> unlink_bad c s5 dp
                 | Some (ip, o') \<Rightarrow>
                   rbind (ilock c s5 (Some ip)) (\<lambda>s6.
                     if sint (in_nlink (inodes s6 ip)) < 1 then Panic ''unlink: nlink < 1''
                     else rbind (if in_type (inodes s6 ip) = T_DIR then isdirempty c s6 ip else Ok (s6, True)) (\<lambda>(s7, e).
                       if \<not> e then rbind (iunlockput c s7 ip) (\<lambda>s8. unlink_bad c s8 dp)
                       else unlink_entry c s7 dp ip o')))))))"

section \<open>create and open\<close>

definition create_fail :: "nat \<Rightarrow> 'a fstate_scheme \<Rightarrow> nat \<Rightarrow> nat \<Rightarrow> ('a fstate_scheme \<times> nat option) res" where
  "create_fail c s ip dp =
     rbind (iupdate c (upd_inode ip (\<lambda>x. x\<lparr>in_nlink := 0\<rparr>) s) ip) (\<lambda>s1.
     rbind (iunlockput c s1 ip) (\<lambda>s2.
     rbind (iunlockput c s2 dp) (\<lambda>s3. Ok (s3, None))))"

definition create_dots :: "nat \<Rightarrow> 'a fstate_scheme \<Rightarrow> nat \<Rightarrow> nat \<Rightarrow> ('a fstate_scheme \<times> int) res" where
  "create_dots c s ip dp =
     rbind (dirlink c s ip (uchars ''.'') (in_inum (inodes s ip))) (\<lambda>(s1, r).
       if r < 0 then Ok (s1, -1) else dirlink c s1 ip (uchars ''..'') (in_inum (inodes s1 dp)))"

definition create :: "nat \<Rightarrow> 'a fstate_scheme \<Rightarrow> uchar list \<Rightarrow> ushort \<Rightarrow> ushort \<Rightarrow> ushort \<Rightarrow> ('a fstate_scheme \<times> nat option) res" where
  "create c s pth ty maj mnr =
     rbind (nameiparent c s pth) (\<lambda>(s1, pr).
       case pr of None \<Rightarrow> Ok (s1, None)
       | Some (dp, name) \<Rightarrow>
         rbind (ilock c s1 (Some dp)) (\<lambda>s2.
         rbind (dirlookup c s2 dp name) (\<lambda>(s3, hit).
           case hit of
             Some (ip, _) \<Rightarrow>
               rbind (iunlockput c s3 dp) (\<lambda>s4.
               rbind (ilock c s4 (Some ip)) (\<lambda>s5.
                 if ty = T_FILE \<and> (in_type (inodes s5 ip) = T_FILE \<or> in_type (inodes s5 ip) = T_DEVICE) then Ok (s5, Some ip)
                 else rbind (iunlockput c s5 ip) (\<lambda>s6. Ok (s6, None))))
           | None \<Rightarrow>
               rbind (ialloc c s3 (in_dev (inodes s3 dp)) ty) (\<lambda>(s4, new).
                 case new of None \<Rightarrow> rbind (iunlockput c s4 dp) (\<lambda>s5. Ok (s5, None))
                 | Some ip \<Rightarrow>
                   rbind (ilock c s4 (Some ip)) (\<lambda>s5.
                   let s6 = upd_inode ip (\<lambda>x. x\<lparr>in_major := maj, in_minor := mnr, in_nlink := 1\<rparr>) s5
                   in rbind (iupdate c s6 ip) (\<lambda>s7.
                      rbind (if ty = T_DIR then create_dots c s7 ip dp else Ok (s7, 0)) (\<lambda>(s8, r).
                        if r < 0 then create_fail c s8 ip dp
                        else rbind (dirlink c s8 dp name (in_inum (inodes s8 ip))) (\<lambda>(s9, r1).
                          if r1 < 0 then create_fail c s9 ip dp
                          else rbind (if ty = T_DIR then iupdate c (add_nlink dp 1 s9) dp else Ok s9) (\<lambda>s10.
                               rbind (iunlockput c s10 dp) (\<lambda>s11. Ok (s11, Some ip)))))))))))"

definition O_RDONLY :: uint where "O_RDONLY = 0x000"
definition O_WRONLY :: uint where "O_WRONLY = 0x001"
definition O_RDWR :: uint where "O_RDWR = 0x002"
definition O_CREATE :: uint where "O_CREATE = 0x200"
definition O_TRUNC :: uint where "O_TRUNC = 0x400"

lemmas fcntl_defs = O_RDONLY_def O_WRONLY_def O_RDWR_def O_CREATE_def O_TRUNC_def

definition open_fail :: "nat \<Rightarrow> 'a fstate_scheme \<Rightarrow> nat \<Rightarrow> ('a fstate_scheme \<times> int) res" where
  "open_fail c s ip = rbind (iunlockput c s ip) (\<lambda>s1. op_ret c s1 (-1))"

text \<open>The first half of \<^verbatim>\<open>sys_open\<close>: the locked inode, or nothing after the error exit.\<close>

definition open_inode :: "nat \<Rightarrow> 'a fstate_scheme \<Rightarrow> uchar list \<Rightarrow> uint \<Rightarrow> ('a fstate_scheme \<times> nat option) res" where
  "open_inode c s pth omode =
     (if omode AND O_CREATE \<noteq> 0 then
        rbind (create c s pth T_FILE 0 0) (\<lambda>(s1, r).
          case r of None \<Rightarrow> op_ret c s1 None | Some ip \<Rightarrow> Ok (s1, Some ip))
      else
        rbind (namei c s pth) (\<lambda>(s1, r).
          case r of None \<Rightarrow> op_ret c s1 None
          | Some ip \<Rightarrow>
            rbind (ilock c s1 (Some ip)) (\<lambda>s2.
              if in_type (inodes s2 ip) = T_DIR \<and> omode \<noteq> O_RDONLY
              then rbind (iunlockput c s2 ip) (\<lambda>s3. op_ret c s3 None)
              else Ok (s2, Some ip))))"

text \<open>The second half, from the locked inode on.\<close>

definition open_file :: "nat \<Rightarrow> 'a ostate_scheme \<Rightarrow> nat \<Rightarrow> uint \<Rightarrow> ('a ostate_scheme \<times> int) res" where
  "open_file c s ip omode =
     (if in_type (inodes s ip) = T_DEVICE \<and> bad_major (in_major (inodes s ip)) then open_fail c s ip
      else
        rbind (filealloc c s) (\<lambda>(s1, fo).
          case fo of None \<Rightarrow> open_fail c s1 ip
          | Some f \<Rightarrow>
            rbind (fdalloc c s1 f) (\<lambda>(s2, fd).
              if fd < 0 then rbind (fileclose c s2 f) (\<lambda>s3. open_fail c s3 ip)
              else
                let s3 = (if in_type (inodes s2 ip) = T_DEVICE
                          then upd_file f (\<lambda>x. x\<lparr>f_type := FD_DEVICE, f_major := in_major (inodes s2 ip)\<rparr>) s2
                          else upd_file f (\<lambda>x. x\<lparr>f_type := FD_INODE, f_off := 0\<rparr>) s2);
                    s4 = upd_file f (\<lambda>x. x\<lparr>f_ip := Some ip, readable := (omode AND O_WRONLY = 0),
                           writable := (omode AND O_WRONLY \<noteq> 0 \<or> omode AND O_RDWR \<noteq> 0)\<rparr>) s3
                in rbind (if omode AND O_TRUNC \<noteq> 0 \<and> in_type (inodes s4 ip) = T_FILE then itrunc c s4 ip else Ok s4) (\<lambda>s5.
                   rbind (iunlock c s5 (Some ip)) (\<lambda>s6. op_ret c s6 fd)))))"

definition sys_open :: "nat \<Rightarrow> 'a ostate_scheme \<Rightarrow> ('a ostate_scheme \<times> int) res" where
  "sys_open c s =
     rbind (argint c s 1) (\<lambda>(s1, omode).
     rbind (argpath c s1 0 (path_buf s1)) (\<lambda>(s2, pth).
       case pth of None \<Rightarrow> Ok (s2, -1)
       | Some pth \<Rightarrow>
         rbind (begin_op c s2) (\<lambda>s3.
         rbind (open_inode c s3 pth (of_int omode)) (\<lambda>(s4, r).
           case r of None \<Rightarrow> Ok (s4, -1) | Some ip \<Rightarrow> open_file c s4 ip (of_int omode)))))"

text \<open>The common end of \<^verbatim>\<open>sys_mkdir\<close> and \<^verbatim>\<open>sys_mknod\<close>.\<close>

definition create_ret :: "nat \<Rightarrow> 'a fstate_scheme \<Rightarrow> uchar list option \<Rightarrow> ushort \<Rightarrow> ushort \<Rightarrow> ushort \<Rightarrow> ('a fstate_scheme \<times> int) res" where
  "create_ret c s pth ty maj mnr =
     (case pth of None \<Rightarrow> op_ret c s (-1)
      | Some pth \<Rightarrow>
        rbind (create c s pth ty maj mnr) (\<lambda>(s1, r).
          case r of None \<Rightarrow> op_ret c s1 (-1)
          | Some ip \<Rightarrow> rbind (iunlockput c s1 ip) (\<lambda>s2. op_ret c s2 0)))"

definition sys_mkdir :: "nat \<Rightarrow> 'a fstate_scheme \<Rightarrow> ('a fstate_scheme \<times> int) res" where
  "sys_mkdir c s =
     rbind (begin_op c s) (\<lambda>s1.
     rbind (argpath c s1 0 (path_buf s1)) (\<lambda>(s2, pth). create_ret c s2 pth T_DIR 0 0))"

definition sys_mknod :: "nat \<Rightarrow> 'a fstate_scheme \<Rightarrow> ('a fstate_scheme \<times> int) res" where
  "sys_mknod c s =
     rbind (begin_op c s) (\<lambda>s1.
     rbind (argint c s1 1) (\<lambda>(s2, maj).
     rbind (argint c s2 2) (\<lambda>(s3, mnr).
     rbind (argpath c s3 0 (path_buf s3)) (\<lambda>(s4, pth). create_ret c s4 pth T_DEVICE (of_int maj) (of_int mnr)))))"

definition sys_chdir :: "nat \<Rightarrow> 'a fstate_scheme \<Rightarrow> ('a fstate_scheme \<times> int) res" where
  "sys_chdir c s =
     rbind (myproc c s) (\<lambda>(s0, me). deref me (\<lambda>p.
     rbind (begin_op c s0) (\<lambda>s1.
     rbind (argpath c s1 0 (path_buf s1)) (\<lambda>(s2, pth).
       case pth of None \<Rightarrow> op_ret c s2 (-1)
       | Some pth \<Rightarrow>
         rbind (namei c s2 pth) (\<lambda>(s3, r).
           case r of None \<Rightarrow> op_ret c s3 (-1)
           | Some ip \<Rightarrow>
             rbind (ilock c s3 (Some ip)) (\<lambda>s4.
               if in_type (inodes s4 ip) \<noteq> T_DIR then rbind (iunlockput c s4 ip) (\<lambda>s5. op_ret c s5 (-1))
               else
                 rbind (iunlock c s4 (Some ip)) (\<lambda>s5.
                 rbind (deref (cwd (procs s5 p)) (iput c s5)) (\<lambda>s6.
                 rbind (end_op c s6) (\<lambda>s7. Ok (upd_proc p (\<lambda>q. q\<lparr>cwd := Some ip\<rparr>) s7, 0))))))))))"

section \<open>Pipes\<close>

definition pipe_undo :: "nat \<Rightarrow> 'a ostate_scheme \<Rightarrow> nat \<Rightarrow> nat \<Rightarrow> ('a ostate_scheme \<times> int) res" where
  "pipe_undo c s rdf wrf =
     rbind (fileclose c s rdf) (\<lambda>s1. rbind (fileclose c s1 wrf) (\<lambda>s2. Ok (s2, -1)))"

definition sys_pipe :: "nat \<Rightarrow> 'a ostate_scheme \<Rightarrow> ('a ostate_scheme \<times> int) res" where
  "sys_pipe c s =
     rbind (myproc c s) (\<lambda>(s0, me). deref me (\<lambda>p.
     rbind (argaddr c s0 0) (\<lambda>(s1, fdarray).
     rbind (pipealloc c s1) (\<lambda>(s2, r).
       case r of None \<Rightarrow> Ok (s2, -1)
       | Some (rdf, wrf) \<Rightarrow>
         rbind (fdalloc c s2 rdf) (\<lambda>(s3, fd0).
           if fd0 < 0 then pipe_undo c s3 rdf wrf
           else rbind (fdalloc c s3 wrf) (\<lambda>(s4, fd1).
             if fd1 < 0 then pipe_undo c (set_ofile p (nat fd0) None s4) rdf wrf
             else
               let s5 = s4\<lparr>mem := put_bytes (mem s4) (fd_buf s4) (le_bytes 4 (of_int fd0) @ le_bytes 4 (of_int fd1))\<rparr>
               in rbind (copyout c s5 (pagetable (procs s5 p)) fdarray (fd_buf s5) 4) (\<lambda>(s6, r0).
                  rbind (if r0 < 0 then Ok (s6, r0)
                         else copyout c s6 (pagetable (procs s6 p)) (fdarray + 4) (fd_buf s6 + 4) 4) (\<lambda>(s7, r1).
                    if r1 < 0 then
                      pipe_undo c (set_ofile p (nat fd1) None (set_ofile p (nat fd0) None s7)) rdf wrf
                    else Ok (s7, 0)))))))))"

end
