(* ===== verification/Exec.thy ===== *)
theory Exec
  imports Sysfile
begin

text \<open>\<^verbatim>\<open>kernel/exec.c\<close> and \<^verbatim>\<open>sys_exec\<close>: replacing the image of a process by an ELF executable.\<close>

section \<open>ELF headers (elf.h)\<close>

definition ELF_MAGIC :: uint where "ELF_MAGIC = 0x464C457F"
definition ELF_PROG_LOAD :: uint where "ELF_PROG_LOAD = 1"

record elfhdr =
  e_magic :: uint
  e_entry :: uint64
  e_phoff :: uint64
  e_phnum :: ushort

record proghdr =
  ph_type :: uint
  ph_flags :: uint
  ph_off :: uint64
  ph_vaddr :: uint64
  ph_filesz :: uint64
  ph_memsz :: uint64

text \<open>The headers at the address of the local variable they were read into.\<close>

definition elf_buf :: "'a pstate_scheme \<Rightarrow> uint64" where "elf_buf s = lvar s 512"
definition ph_buf :: "'a pstate_scheme \<Rightarrow> uint64" where "ph_buf s = lvar s 576"
definition ustack_buf :: "'a pstate_scheme \<Rightarrow> uint64" where "ustack_buf s = lvar s 1024"

definition get_elf :: "'a pstate_scheme \<Rightarrow> elfhdr" where
  "get_elf s = (let a = elf_buf s in \<lparr>e_magic = ld32 (bytes (mem s) a 4) 0, e_entry = load64 (mem s) (a + 24),
     e_phoff = load64 (mem s) (a + 32), e_phnum = ld16 (bytes (mem s) (a + 56) 2) 0\<rparr>)"

definition get_ph :: "'a pstate_scheme \<Rightarrow> proghdr" where
  "get_ph s = (let a = ph_buf s in \<lparr>ph_type = ld32 (bytes (mem s) a 4) 0, ph_flags = ld32 (bytes (mem s) (a + 4) 4) 0,
     ph_off = load64 (mem s) (a + 8), ph_vaddr = load64 (mem s) (a + 16), ph_filesz = load64 (mem s) (a + 32),
     ph_memsz = load64 (mem s) (a + 40)\<rparr>)"

section \<open>exec\<close>

definition flags2perm :: "uint \<Rightarrow> uint64" where
  "flags2perm flags =
     (let perm = (if flags AND 0x1 \<noteq> 0 then PTE_X else 0)
      in if flags AND 0x2 \<noteq> 0 then perm OR PTE_W else perm)"

fun loadseg_loop :: "nat \<Rightarrow> nat \<Rightarrow> 'a fstate_scheme \<Rightarrow> uint64 \<Rightarrow> uint64 \<Rightarrow> nat \<Rightarrow> uint \<Rightarrow> uint \<Rightarrow> uint \<Rightarrow> ('a fstate_scheme \<times> int) res" where
  "loadseg_loop 0 c s pt va ip o' psz i = Hang"
| "loadseg_loop (Suc k) c s pt va ip o' psz i =
     (if i < psz then
        rbind (walkaddr c s pt (va + ucast i)) (\<lambda>pa.
          if pa = 0 then Panic ''loadseg: address should exist''
          else let n = (if ucast (psz - i) < PGSIZE then psz - i else ucast PGSIZE)
               in rbind (readi c s ip False pa (o' + i) n) (\<lambda>(s1, r).
                  if of_int r \<noteq> n then Ok (s1, -1)
                  else loadseg_loop k c s1 pt va ip o' psz (i + ucast PGSIZE)))
      else Ok (s, 0))"

text \<open>Fuel: one step per page of the segment, and one to leave.\<close>

definition loadseg :: "nat \<Rightarrow> 'a fstate_scheme \<Rightarrow> uint64 \<Rightarrow> uint64 \<Rightarrow> nat \<Rightarrow> uint \<Rightarrow> uint \<Rightarrow> ('a fstate_scheme \<times> int) res" where
  "loadseg c s pt va ip o' psz = loadseg_loop (unat psz div 4096 + 2) c s pt va ip o' psz 0"

text \<open>The program headers that remain, from file offset \<open>o'\<close>: the new size, and whether all were loaded.\<close>

fun exec_load :: "nat \<Rightarrow> nat \<Rightarrow> 'a fstate_scheme \<Rightarrow> uint64 \<Rightarrow> nat \<Rightarrow> uint \<Rightarrow> uint64 \<Rightarrow> ('a fstate_scheme \<times> uint64 \<times> bool) res" where
  "exec_load 0 c s pt ip o' psz = Ok (s, psz, True)"
| "exec_load (Suc k) c s pt ip o' psz =
     rbind (readi c s ip False (ph_buf s) o' 56) (\<lambda>(s1, r).
       let ph = get_ph s1
       in if r \<noteq> 56 then Ok (s1, psz, False)
          else if ph_type ph \<noteq> ELF_PROG_LOAD then exec_load k c s1 pt ip (o' + 56) psz
          else if ph_memsz ph < ph_filesz ph then Ok (s1, psz, False)
          else if ph_vaddr ph + ph_memsz ph < ph_vaddr ph then Ok (s1, psz, False)
          else if ph_vaddr ph mod PGSIZE \<noteq> 0 then Ok (s1, psz, False)
          else rbind (uvmalloc c s1 pt psz (ph_vaddr ph + ph_memsz ph) (flags2perm (ph_flags ph))) (\<lambda>(s2, sz1).
               if sz1 = 0 then Ok (s2, psz, False)
               else rbind (loadseg c s2 pt (ph_vaddr ph) ip (ucast (ph_off ph)) (ucast (ph_filesz ph))) (\<lambda>(s3, r1).
                    if r1 < 0 then Ok (s3, sz1, False) else exec_load k c s3 pt ip (o' + 56) sz1)))"

text \<open>Push the argument strings: the stack pointer and the pointers pushed, or \<open>None\<close> for \<^verbatim>\<open>goto bad\<close>.\<close>

fun exec_args :: "nat \<Rightarrow> 'a pstate_scheme \<Rightarrow> uint64 \<Rightarrow> uint64 \<Rightarrow> uint64 \<Rightarrow> uint64 list \<Rightarrow> uint64 list \<Rightarrow>
    ('a pstate_scheme \<times> (uint64 \<times> uint64 list) option) res" where
  "exec_args c s pt sp stackbase ustack [] = Ok (s, Some (sp, ustack))"
| "exec_args c s pt sp stackbase ustack (a # argv) =
     (if length ustack \<ge> MAXARG then Ok (s, None)
      else rbind (strlen (mem s) a) (\<lambda>n.
        let sp1 = sp - of_nat (n + 1); sp2 = sp1 - sp1 mod 16
        in if sp2 < stackbase then Ok (s, None)
           else rbind (copyout c s pt sp2 a (of_nat (n + 1))) (\<lambda>(s1, r).
                if r < 0 then Ok (s1, None)
                else exec_args c s1 pt sp2 stackbase (ustack @ [sp2]) argv)))"

text \<open>The error exit: free the new page table if there is one, drop the inode if it is still held.\<close>

definition exec_bad :: "nat \<Rightarrow> 'a fstate_scheme \<Rightarrow> uint64 \<Rightarrow> uint64 \<Rightarrow> nat option \<Rightarrow> ('a fstate_scheme \<times> int) res" where
  "exec_bad c s pt psz ip =
     rbind (if pt \<noteq> 0 then proc_freepagetable c s pt psz else Ok s) (\<lambda>s1.
       case ip of None \<Rightarrow> Ok (s1, -1)
       | Some i \<Rightarrow> rbind (iunlockput c s1 i) (\<lambda>s2. rbind (end_op c s2) (\<lambda>s3. Ok (s3, -1))))"

text \<open>The part of the path after its last slash.\<close>

fun last_elem :: "uchar list \<Rightarrow> uchar list \<Rightarrow> uchar list" where
  "last_elem lst [] = lst"
| "last_elem lst (b # bs) = (if b = slash then last_elem bs bs else last_elem lst bs)"

definition exec_commit :: "nat \<Rightarrow> 'a fstate_scheme \<Rightarrow> nat \<Rightarrow> uchar list \<Rightarrow> uint64 \<Rightarrow> uint64 \<Rightarrow> uint64 \<Rightarrow> uint64 \<Rightarrow> uint64 \<Rightarrow> int \<Rightarrow>
    ('a fstate_scheme \<times> int) res" where
  "exec_commit c s p pth pt psz sp entry oldsz argc =
     (let s1 = tf_set p ''a1'' sp s;
          s2 = upd_proc p (\<lambda>q. q\<lparr>p_name := set_name (p_name q) (last_elem pth pth)\<rparr>) s1;
          oldpagetable = pagetable (procs s2 p);
          s3 = upd_proc p (\<lambda>q. q\<lparr>pagetable := pt, sz := psz\<rparr>) s2;
          s4 = tf_set p ''sp'' sp (tf_set p ''epc'' entry s3);
          s5 = upd_proc p (\<lambda>q. q\<lparr>priority := 2\<rparr>) s4
      in rbind (proc_freepagetable c s5 oldpagetable oldsz) (\<lambda>s6. Ok (s6, argc)))"

definition exec_stack :: "nat \<Rightarrow> 'a fstate_scheme \<Rightarrow> nat \<Rightarrow> uchar list \<Rightarrow> uint64 list \<Rightarrow> uint64 \<Rightarrow> uint64 \<Rightarrow> uint64 \<Rightarrow>
    ('a fstate_scheme \<times> int) res" where
  "exec_stack c s p pth argv pt psz0 entry =
     (let oldsz = sz (procs s p); psz1 = PGROUNDUP psz0
      in rbind (uvmalloc c s pt psz1 (psz1 + 2 * PGSIZE) PTE_W) (\<lambda>(s1, psz).
         if psz = 0 then exec_bad c s1 pt psz1 None
         else rbind (uvmclear c s1 pt (psz - 2 * PGSIZE)) (\<lambda>s2.
           let stackbase = psz - PGSIZE
           in rbind (exec_args c s2 pt psz stackbase [] argv) (\<lambda>(s3, r).
              case r of None \<Rightarrow> exec_bad c s3 pt psz None
              | Some (sp0, ustack) \<Rightarrow>
                let argc = length ustack;
                    sp1 = sp0 - of_nat (argc + 1) * 8;
                    sp = sp1 - sp1 mod 16;
                    s4 = s3\<lparr>mem := put_bytes (mem s3) (ustack_buf s3) (concat (map (le_bytes 8) (ustack @ [0])))\<rparr>
                in if sp < stackbase then exec_bad c s4 pt psz None
                   else rbind (copyout c s4 pt sp (ustack_buf s4) (of_nat ((argc + 1) * 8))) (\<lambda>(s5, r1).
                        if r1 < 0 then exec_bad c s5 pt psz None
                        else exec_commit c s5 p pth pt psz sp entry oldsz (int argc))))))"

text \<open>\<open>argv\<close> is the array up to its null pointer.\<close>

definition exec :: "nat \<Rightarrow> 'a fstate_scheme \<Rightarrow> uchar list \<Rightarrow> uint64 list \<Rightarrow> ('a fstate_scheme \<times> int) res" where
  "exec c s pth argv =
     rbind (myproc c s) (\<lambda>(s0, me). deref me (\<lambda>p.
     rbind (begin_op c s0) (\<lambda>s1.
     rbind (namei c s1 pth) (\<lambda>(s2, r).
       case r of None \<Rightarrow> op_ret c s2 (-1)
       | Some ip \<Rightarrow>
         rbind (ilock c s2 (Some ip)) (\<lambda>s3.
         rbind (readi c s3 ip False (elf_buf s3) 0 64) (\<lambda>(s4, n).
           let elf = get_elf s4
           in if n \<noteq> 64 then exec_bad c s4 0 0 (Some ip)
              else if e_magic elf \<noteq> ELF_MAGIC then exec_bad c s4 0 0 (Some ip)
              else rbind (proc_pagetable c s4 p) (\<lambda>(s5, pt).
                if pt = 0 then exec_bad c s5 0 0 (Some ip)
                else rbind (exec_load (unat (e_phnum elf)) c s5 pt ip (ucast (e_phoff elf)) 0) (\<lambda>(s6, psz, ok).
                  if \<not> ok then exec_bad c s6 pt psz (Some ip)
                  else rbind (iunlockput c s6 ip) (\<lambda>s7.
                       rbind (end_op c s7) (\<lambda>s8. exec_stack c s8 p pth argv pt psz (e_entry elf)))))))))))"

section \<open>sys\_exec\<close>

fun kfree_all :: "nat \<Rightarrow> 'a kstate_scheme \<Rightarrow> uint64 list \<Rightarrow> 'a kstate_scheme res" where
  "kfree_all c s [] = Ok s"
| "kfree_all c s (a # as) = rbind (kfree c s a) (\<lambda>s1. kfree_all c s1 as)"

text \<open>Fetch the arguments with \<open>k\<close> slots left: the pages allocated, and whether the null pointer was reached.\<close>

fun exec_fetch :: "nat \<Rightarrow> nat \<Rightarrow> 'a pstate_scheme \<Rightarrow> uint64 \<Rightarrow> uint64 list \<Rightarrow> ('a pstate_scheme \<times> uint64 list \<times> bool) res" where
  "exec_fetch 0 c s uargv argv = Ok (s, argv, False)"
| "exec_fetch (Suc k) c s uargv argv =
     rbind (fetchaddr c s (uargv + 8 * of_nat (length argv)) (uarg_buf s)) (\<lambda>(s1, r).
       let uarg = load64 (mem s1) (uarg_buf s1)
       in if r < 0 then Ok (s1, argv, False)
          else if uarg = 0 then Ok (s1, argv, True)
          else rbind (kalloc c s1) (\<lambda>(s2, pg).
               if pg = 0 then Ok (s2, argv, False)
               else rbind (fetchstr c s2 uarg pg (unat PGSIZE)) (\<lambda>(s3, n).
                    if n < 0 then Ok (s3, argv @ [pg], False)
                    else exec_fetch k c s3 uargv (argv @ [pg]))))"

definition sys_exec :: "nat \<Rightarrow> 'a fstate_scheme \<Rightarrow> ('a fstate_scheme \<times> int) res" where
  "sys_exec c s =
     rbind (argaddr c s 1) (\<lambda>(s1, uargv).
     rbind (argpath c s1 0 (path_buf s1)) (\<lambda>(s2, pth).
       case pth of None \<Rightarrow> Ok (s2, -1)
       | Some pth \<Rightarrow>
         rbind (exec_fetch MAXARG c s2 uargv []) (\<lambda>(s3, argv, ok).
         rbind (if ok then exec c s3 pth argv else Ok (s3, -1)) (\<lambda>(s4, ret).
         rbind (kfree_all c s4 argv) (\<lambda>s5. Ok (s5, ret))))))"

end
