(* ===== verification/Syscall.thy ===== *)
theory Syscall
  imports Exec
begin

text \<open>\<^verbatim>\<open>kernel/sysproc.c\<close> and the dispatcher of \<^verbatim>\<open>kernel/syscall.c\<close>.\<close>

definition ticks_L :: "('a kernel_scheme) lockref" where
  "ticks_L = (tickslock, \<lambda>f s. s\<lparr>tickslock := f (tickslock s)\<rparr>)"

text \<open>A system call returns a value, sleeps, or ends the process.\<close>

datatype sysret = SRet uint64 | SBlocked blocked | SExited "nat \<times> bool"

definition ret_int :: "('s \<times> int) res \<Rightarrow> ('s \<times> sysret) res" where
  "ret_int r = rbind r (\<lambda>(s, v). Ok (s, SRet (of_int v)))"

fun ret_outcome :: "int outcome \<Rightarrow> sysret" where
  "ret_outcome (Done v) = SRet (of_int v)"
| "ret_outcome (Blocked b) = SBlocked b"

definition ret_out :: "('s \<times> int outcome) res \<Rightarrow> ('s \<times> sysret) res" where
  "ret_out r = rbind r (\<lambda>(s, v). Ok (s, ret_outcome v))"

section \<open>sysproc.c\<close>

definition sys_exit :: "nat \<Rightarrow> 'a ostate_scheme \<Rightarrow> ('a ostate_scheme \<times> sysret) res" where
  "sys_exit c s = rbind (argint c s 0) (\<lambda>(s1, n). rbind (exit_leave c s1 n) (\<lambda>(s2, t). Ok (s2, SExited t)))"

definition sys_getpid :: "nat \<Rightarrow> 'a pstate_scheme \<Rightarrow> ('a pstate_scheme \<times> int) res" where
  "sys_getpid c s = rbind (myproc c s) (\<lambda>(s1, me). deref me (\<lambda>p. Ok (s1, pid (procs s1 p))))"

definition sys_fork :: "nat \<Rightarrow> 'a ostate_scheme \<Rightarrow> ('a ostate_scheme \<times> int) res" where
  "sys_fork c s = fork c s"

definition wait_outcome :: "uint64 \<Rightarrow> int + nat \<times> bool \<Rightarrow> int outcome" where
  "wait_outcome addr r = (case r of Inl v \<Rightarrow> Done v | Inr t \<Rightarrow> Blocked (BWait addr t))"

definition sys_wait :: "nat \<Rightarrow> 'a pstate_scheme \<Rightarrow> ('a pstate_scheme \<times> int outcome) res" where
  "sys_wait c s =
     rbind (argaddr c s 0) (\<lambda>(s1, p). rbind (wait_enter c s1 p) (\<lambda>(s2, r). Ok (s2, wait_outcome p r)))"

definition sys_sbrk :: "nat \<Rightarrow> 'a pstate_scheme \<Rightarrow> ('a pstate_scheme \<times> sysret) res" where
  "sys_sbrk c s =
     rbind (argint c s 0) (\<lambda>(s1, n).
     rbind (myproc c s1) (\<lambda>(s2, me). deref me (\<lambda>p.
     let addr = sz (procs s2 p)
     in rbind (growproc c s2 n) (\<lambda>(s3, r). Ok (s3, SRet (if r < 0 then -1 else addr))))))"

text \<open>The loop of \<^verbatim>\<open>sys_sleep\<close>, with the lock held; the comparison is between unsigned numbers.\<close>

definition sys_sleep_go :: "nat \<Rightarrow> 'a kernel_scheme \<Rightarrow> uint \<Rightarrow> int \<Rightarrow> ('a kernel_scheme \<times> int outcome) res" where
  "sys_sleep_go c s ticks0 n =
     (if ticks s - ticks0 < of_int n then
        rbind (myproc c s) (\<lambda>(s1, me). deref me (\<lambda>p.
        rbind (killed_q c s1 p) (\<lambda>(s2, k).
          if k \<noteq> 0 then rbind (lk_release c ticks_L s2) (\<lambda>s3. Ok (s3, Done (-1)))
          else rbind (sleep_leave c s2 ChanTicks ticks_L) (\<lambda>(s3, t). Ok (s3, Blocked (BTicks ticks0 n t))))))
      else rbind (lk_release c ticks_L s) (\<lambda>s1. Ok (s1, Done 0)))"

definition sys_sleep :: "nat \<Rightarrow> 'a kernel_scheme \<Rightarrow> ('a kernel_scheme \<times> int outcome) res" where
  "sys_sleep c s =
     rbind (argint c s 0) (\<lambda>(s1, n).
     rbind (lk_acquire c ticks_L s1) (\<lambda>s2. sys_sleep_go c s2 (ticks s2) n))"

definition sys_kill :: "nat \<Rightarrow> 'a pstate_scheme \<Rightarrow> ('a pstate_scheme \<times> int) res" where
  "sys_kill c s = rbind (argint c s 0) (\<lambda>(s1, n). kill c s1 n)"

definition sys_uptime :: "nat \<Rightarrow> 'a kernel_scheme \<Rightarrow> ('a kernel_scheme \<times> sysret) res" where
  "sys_uptime c s =
     rbind (lk_acquire c ticks_L s) (\<lambda>s1.
     let xticks = ticks s1
     in rbind (lk_release c ticks_L s1) (\<lambda>s2. Ok (s2, SRet (ucast xticks))))"

definition sys_procs :: "nat \<Rightarrow> 'a io_state_scheme \<Rightarrow> ('a io_state_scheme \<times> int) res" where
  "sys_procs c s = procs_list c s"

definition sys_chprio :: "nat \<Rightarrow> 'a pstate_scheme \<Rightarrow> ('a pstate_scheme \<times> int) res" where
  "sys_chprio c s =
     rbind (argint c s 0) (\<lambda>(s1, n).
       if n < 0 then Ok (s1, -1)
       else rbind (argint c s1 1) (\<lambda>(s2, prio). if prio < 0 then Ok (s2, -1) else chprio c s2 n prio))"

section \<open>syscall.c\<close>

text \<open>The entries of the table \<^verbatim>\<open>syscalls\<close>, by number.\<close>

definition syscalls :: "nat \<Rightarrow> int \<Rightarrow> 'a kernel_scheme \<Rightarrow> ('a kernel_scheme \<times> sysret) res option" where
  "syscalls c num s =
     (if num = 1 then Some (ret_int (sys_fork c s))
      else if num = 2 then Some (sys_exit c s)
      else if num = 3 then Some (ret_out (sys_wait c s))
      else if num = 4 then Some (ret_int (sys_pipe c s))
      else if num = 5 then Some (ret_out (sys_read c s))
      else if num = 6 then Some (ret_int (sys_kill c s))
      else if num = 7 then Some (ret_int (sys_exec c s))
      else if num = 8 then Some (ret_int (sys_fstat c s))
      else if num = 9 then Some (ret_int (sys_chdir c s))
      else if num = 10 then Some (ret_int (sys_dup c s))
      else if num = 11 then Some (ret_int (sys_getpid c s))
      else if num = 12 then Some (sys_sbrk c s)
      else if num = 13 then Some (ret_out (sys_sleep c s))
      else if num = 14 then Some (sys_uptime c s)
      else if num = 15 then Some (ret_int (sys_open c s))
      else if num = 16 then Some (ret_out (sys_write c s))
      else if num = 17 then Some (ret_int (sys_mknod c s))
      else if num = 18 then Some (ret_int (sys_unlink c s))
      else if num = 19 then Some (ret_int (sys_link c s))
      else if num = 20 then Some (ret_int (sys_mkdir c s))
      else if num = 21 then Some (ret_int (sys_close c s))
      else if num = 22 then Some (ret_int (sys_chprio c s))
      else if num = 23 then Some (ret_int (sys_procs c s))
      else None)"

text \<open>Store the value of a call that has returned in \<^verbatim>\<open>a0\<close> of the process; otherwise how it stopped.\<close>

definition sys_finish :: "nat \<Rightarrow> 'a kernel_scheme \<Rightarrow> sysret \<Rightarrow> 'a kernel_scheme \<times> sysret option" where
  "sys_finish p s r = (case r of SRet v \<Rightarrow> (tf_set p ''a0'' v s, None) | _ \<Rightarrow> (s, Some r))"

definition syscall :: "nat \<Rightarrow> 'a kernel_scheme \<Rightarrow> ('a kernel_scheme \<times> sysret option) res" where
  "syscall c s =
     rbind (myproc c s) (\<lambda>(s1, me). deref me (\<lambda>p.
     let num = sint (ucast (tf_get s1 p ''a7'') :: uint)
     in case (if num > 0 \<and> num < 24 then syscalls c num s1 else None) of
          Some r \<Rightarrow> rbind r (\<lambda>(s2, v). Ok (sys_finish p s2 v))
        | None \<Rightarrow>
            rbind (printf c s1 (Some (''%d %s: unknown sys call %d'' @ [CHR 0x0A]))
                     [PInt (pid (procs s1 p)), PStr (Some (name_string (p_name (procs s1 p)))), PInt num]) (\<lambda>s2.
            Ok (tf_set p ''a0'' (-1) s2, None))))"

text \<open>A sleeping call that its process resumes.\<close>

fun syscall_wake :: "nat \<Rightarrow> 'a kernel_scheme \<Rightarrow> blocked \<Rightarrow> ('a kernel_scheme \<times> sysret) res" where
  "syscall_wake c s (BPipeWrite a addr i k t) = ret_out (pipewrite_resume c s a addr i k t)"
| "syscall_wake c s (BPipeRead a addr n t) = ret_out (piperead_resume c s a addr n t)"
| "syscall_wake c s (BConsRead target q) =
     ret_out (rbind (consoleread_resume c s True target q) (\<lambda>(s1, r). Ok (s1, cons_read_outcome target r)))"
| "syscall_wake c s (BConsWrite src q) =
     ret_out (rbind (consolewrite_resume c s True src q) (\<lambda>(s1, r). Ok (s1, cons_write_outcome src r)))"
| "syscall_wake c s (BTicks ticks0 n t) =
     ret_out (rbind (sleep_return c s ticks_L t) (\<lambda>s1. sys_sleep_go c s1 ticks0 n))"
| "syscall_wake c s (BWait addr t) =
     ret_out (rbind (wait_resume c s addr t) (\<lambda>(s1, r). Ok (s1, wait_outcome addr r)))"

end
