(* ===== verification/Trap.thy ===== *)
theory Trap
  imports Syscall
begin

text \<open>
  Traps and start-up: the register accessors of \<^verbatim>\<open>kernel/riscv.h\<close>, \<^verbatim>\<open>kernel/plic.c\<close>, \<^verbatim>\<open>kernel/trap.c\<close>,
  \<^verbatim>\<open>forkret\<close>, and \<^verbatim>\<open>kernel/start.c\<close> and \<^verbatim>\<open>kernel/main.c\<close>. A trap handler that gives up the CPU is given up to
  that point and from there on.
\<close>

section \<open>Control registers (riscv.h)\<close>

definition MSTATUS_MPP_MASK :: uint64 where "MSTATUS_MPP_MASK = push_bit 11 3"
definition MSTATUS_MPP_S :: uint64 where "MSTATUS_MPP_S = push_bit 11 1"
definition MSTATUS_MIE :: uint64 where "MSTATUS_MIE = push_bit 3 1"
definition SSTATUS_SPP :: uint64 where "SSTATUS_SPP = push_bit 8 1"
definition SSTATUS_SPIE :: uint64 where "SSTATUS_SPIE = push_bit 5 1"
definition SSTATUS_SIE :: uint64 where "SSTATUS_SIE = push_bit 1 1"
definition SIE_SEIE :: uint64 where "SIE_SEIE = push_bit 9 1"
definition SIE_STIE :: uint64 where "SIE_STIE = push_bit 5 1"
definition SIE_SSIE :: uint64 where "SIE_SSIE = push_bit 1 1"
definition MIE_MTIE :: uint64 where "MIE_MTIE = push_bit 7 1"
definition SATP_SV39 :: uint64 where "SATP_SV39 = push_bit 60 8"

definition MAKE_SATP :: "uint64 \<Rightarrow> uint64" where
  "MAKE_SATP pt = SATP_SV39 OR drop_bit 12 pt"

lemmas csr_defs = MSTATUS_MPP_MASK_def MSTATUS_MPP_S_def MSTATUS_MIE_def SSTATUS_SPP_def SSTATUS_SPIE_def
  SSTATUS_SIE_def SIE_SEIE_def SIE_STIE_def SIE_SSIE_def MIE_MTIE_def SATP_SV39_def

definition upd_csr :: "nat \<Rightarrow> (csrs \<Rightarrow> csrs) \<Rightarrow> 'a kernel_scheme \<Rightarrow> 'a kernel_scheme" where
  "upd_csr c f s = s\<lparr>csr := (csr s)(c := f (csr s c))\<rparr>"

definition r_mhartid :: "nat \<Rightarrow> 'a kernel_scheme \<Rightarrow> uint64" where "r_mhartid c s = mhartid (csr s c)"
definition r_mstatus :: "nat \<Rightarrow> 'a kernel_scheme \<Rightarrow> uint64" where "r_mstatus c s = mstatus (csr s c)"
definition r_sip :: "nat \<Rightarrow> 'a kernel_scheme \<Rightarrow> uint64" where "r_sip c s = sip (csr s c)"
definition r_sie :: "nat \<Rightarrow> 'a kernel_scheme \<Rightarrow> uint64" where "r_sie c s = sie (csr s c)"
definition r_mie :: "nat \<Rightarrow> 'a kernel_scheme \<Rightarrow> uint64" where "r_mie c s = mie (csr s c)"
definition r_sepc :: "nat \<Rightarrow> 'a kernel_scheme \<Rightarrow> uint64" where "r_sepc c s = sepc (csr s c)"
definition r_satp :: "nat \<Rightarrow> 'a kernel_scheme \<Rightarrow> uint64" where "r_satp c s = satp (csr s c)"
definition r_scause :: "nat \<Rightarrow> 'a kernel_scheme \<Rightarrow> uint64" where "r_scause c s = scause (csr s c)"
definition r_stval :: "nat \<Rightarrow> 'a kernel_scheme \<Rightarrow> uint64" where "r_stval c s = stval (csr s c)"
definition r_tp :: "nat \<Rightarrow> 'a kernel_scheme \<Rightarrow> uint64" where "r_tp c s = tp (csr s c)"

definition w_mstatus :: "nat \<Rightarrow> uint64 \<Rightarrow> 'a kernel_scheme \<Rightarrow> 'a kernel_scheme" where
  "w_mstatus c x = upd_csr c (\<lambda>r. r\<lparr>mstatus := x\<rparr>)"
definition w_mepc :: "nat \<Rightarrow> uint64 \<Rightarrow> 'a kernel_scheme \<Rightarrow> 'a kernel_scheme" where
  "w_mepc c x = upd_csr c (\<lambda>r. r\<lparr>mepc := x\<rparr>)"
definition w_sip :: "nat \<Rightarrow> uint64 \<Rightarrow> 'a kernel_scheme \<Rightarrow> 'a kernel_scheme" where
  "w_sip c x = upd_csr c (\<lambda>r. r\<lparr>sip := x\<rparr>)"
definition w_sie :: "nat \<Rightarrow> uint64 \<Rightarrow> 'a kernel_scheme \<Rightarrow> 'a kernel_scheme" where
  "w_sie c x = upd_csr c (\<lambda>r. r\<lparr>sie := x\<rparr>)"
definition w_mie :: "nat \<Rightarrow> uint64 \<Rightarrow> 'a kernel_scheme \<Rightarrow> 'a kernel_scheme" where
  "w_mie c x = upd_csr c (\<lambda>r. r\<lparr>mie := x\<rparr>)"
definition w_sepc :: "nat \<Rightarrow> uint64 \<Rightarrow> 'a kernel_scheme \<Rightarrow> 'a kernel_scheme" where
  "w_sepc c x = upd_csr c (\<lambda>r. r\<lparr>sepc := x\<rparr>)"
definition w_medeleg :: "nat \<Rightarrow> uint64 \<Rightarrow> 'a kernel_scheme \<Rightarrow> 'a kernel_scheme" where
  "w_medeleg c x = upd_csr c (\<lambda>r. r\<lparr>medeleg := x\<rparr>)"
definition w_mideleg :: "nat \<Rightarrow> uint64 \<Rightarrow> 'a kernel_scheme \<Rightarrow> 'a kernel_scheme" where
  "w_mideleg c x = upd_csr c (\<lambda>r. r\<lparr>mideleg := x\<rparr>)"
definition w_stvec :: "nat \<Rightarrow> uint64 \<Rightarrow> 'a kernel_scheme \<Rightarrow> 'a kernel_scheme" where
  "w_stvec c x = upd_csr c (\<lambda>r. r\<lparr>stvec := x\<rparr>)"
definition w_mtvec :: "nat \<Rightarrow> uint64 \<Rightarrow> 'a kernel_scheme \<Rightarrow> 'a kernel_scheme" where
  "w_mtvec c x = upd_csr c (\<lambda>r. r\<lparr>mtvec := x\<rparr>)"
definition w_pmpcfg0 :: "nat \<Rightarrow> uint64 \<Rightarrow> 'a kernel_scheme \<Rightarrow> 'a kernel_scheme" where
  "w_pmpcfg0 c x = upd_csr c (\<lambda>r. r\<lparr>pmpcfg0 := x\<rparr>)"
definition w_pmpaddr0 :: "nat \<Rightarrow> uint64 \<Rightarrow> 'a kernel_scheme \<Rightarrow> 'a kernel_scheme" where
  "w_pmpaddr0 c x = upd_csr c (\<lambda>r. r\<lparr>pmpaddr0 := x\<rparr>)"
definition w_satp :: "nat \<Rightarrow> uint64 \<Rightarrow> 'a kernel_scheme \<Rightarrow> 'a kernel_scheme" where
  "w_satp c x = upd_csr c (\<lambda>r. r\<lparr>satp := x\<rparr>)"
definition w_mscratch :: "nat \<Rightarrow> uint64 \<Rightarrow> 'a kernel_scheme \<Rightarrow> 'a kernel_scheme" where
  "w_mscratch c x = upd_csr c (\<lambda>r. r\<lparr>mscratch := x\<rparr>)"
definition w_tp :: "nat \<Rightarrow> uint64 \<Rightarrow> 'a kernel_scheme \<Rightarrow> 'a kernel_scheme" where
  "w_tp c x = upd_csr c (\<lambda>r. r\<lparr>tp := x\<rparr>)"

lemmas csr_access = r_mhartid_def r_mstatus_def r_sip_def r_sie_def r_mie_def r_sepc_def r_satp_def r_scause_def
  r_stval_def r_tp_def w_mstatus_def w_mepc_def w_sip_def w_sie_def w_mie_def w_sepc_def w_medeleg_def
  w_mideleg_def w_stvec_def w_mtvec_def w_pmpcfg0_def w_pmpaddr0_def w_satp_def w_mscratch_def w_tp_def

text \<open>\<^verbatim>\<open>sstatus\<close>: its interrupt enable bit is the CPU's \<open>intr\<close>.\<close>

definition r_sstatus :: "nat \<Rightarrow> 'a kernel_scheme \<Rightarrow> uint64" where
  "r_sstatus c s = (sstatus_rest (csr s c) AND NOT SSTATUS_SIE) OR (if intr (cpus s c) then SSTATUS_SIE else 0)"

definition w_sstatus :: "nat \<Rightarrow> uint64 \<Rightarrow> 'a kernel_scheme \<Rightarrow> 'a kernel_scheme" where
  "w_sstatus c x s =
     upd_cpu c (\<lambda>u. u\<lparr>intr := (x AND SSTATUS_SIE \<noteq> 0)\<rparr>) (upd_csr c (\<lambda>r. r\<lparr>sstatus_rest := x AND NOT SSTATUS_SIE\<rparr>) s)"

section \<open>plic.c\<close>

definition upd_plic :: "(plic_dev \<Rightarrow> plic_dev) \<Rightarrow> 'a kernel_scheme \<Rightarrow> 'a kernel_scheme" where
  "upd_plic f s = s\<lparr>plic := f (plic s)\<rparr>"

definition plicinit :: "'a kernel_scheme \<Rightarrow> 'a kernel_scheme" where
  "plicinit s = upd_plic (\<lambda>d. d\<lparr>plic_priority := (plic_priority d)(UART0_IRQ := 1, VIRTIO0_IRQ := 1)\<rparr>) s"

definition plicinithart :: "nat \<Rightarrow> 'a kernel_scheme \<Rightarrow> 'a kernel_scheme" where
  "plicinithart c s =
     upd_plic (\<lambda>d. d\<lparr>plic_enable := (plic_enable d)(c := push_bit (unat UART0_IRQ) 1 OR push_bit (unat VIRTIO0_IRQ) 1),
       plic_threshold := (plic_threshold d)(c := 0)\<rparr>) s"

text \<open>Reading the claim register takes the next pending interrupt, or 0; writing it completes one.\<close>

definition plic_claim :: "nat \<Rightarrow> 'a kernel_scheme \<Rightarrow> 'a kernel_scheme \<times> uint" where
  "plic_claim c s =
     (case plic_pending (plic s) c of [] \<Rightarrow> (s, 0)
      | irq # q \<Rightarrow> (upd_plic (\<lambda>d. d\<lparr>plic_pending := (plic_pending d)(c := q)\<rparr>) s, irq))"

definition plic_complete :: "nat \<Rightarrow> 'a kernel_scheme \<Rightarrow> uint \<Rightarrow> 'a kernel_scheme" where
  "plic_complete c s irq = upd_plic (\<lambda>d. d\<lparr>plic_done := (plic_done d)(c := plic_done d c @ [irq])\<rparr>) s"

section \<open>trap.c\<close>

definition trapinit :: "'a kernel_scheme \<Rightarrow> 'a kernel_scheme" where
  "trapinit s = s\<lparr>tickslock := initlock (tickslock s) ''time''\<rparr>"

definition trapinithart :: "nat \<Rightarrow> 'a kernel_scheme \<Rightarrow> 'a kernel_scheme" where
  "trapinithart c s = w_stvec c (a_kernelvec (code s)) s"

definition clockintr :: "nat \<Rightarrow> 'a kernel_scheme \<Rightarrow> 'a kernel_scheme res" where
  "clockintr c s =
     rbind (lk_acquire c ticks_L s) (\<lambda>s1.
     rbind (wakeup c (s1\<lparr>ticks := ticks s1 + 1\<rparr>) ChanTicks) (\<lambda>s2. lk_release c ticks_L s2))"

definition devintr :: "nat \<Rightarrow> 'a kernel_scheme \<Rightarrow> ('a kernel_scheme \<times> int) res" where
  "devintr c s =
     (if r_scause c s AND 0x8000000000000000 \<noteq> 0 \<and> r_scause c s AND 0xff = 9 then
        (case plic_claim c s of (s1, irq) \<Rightarrow>
           rbind (if irq = UART0_IRQ then uartintr c s1
                  else if irq = VIRTIO0_IRQ then virtio_disk_intr c s1
                  else if irq \<noteq> 0 then printf c s1 (Some (''unexpected interrupt irq=%d'' @ [CHR 0x0A])) [PInt (sint irq)]
                  else Ok s1) (\<lambda>s2.
           Ok (if irq \<noteq> 0 then plic_complete c s2 irq else s2, 1)))
      else if r_scause c s = 0x8000000000000001 then
        rbind (if c = 0 then clockintr c s else Ok s) (\<lambda>s1. Ok (w_sip c (r_sip c s1 AND NOT 2) s1, 2))
      else Ok (s, 0))"

text \<open>
  The end of a trap from user space: back to user space through \<^verbatim>\<open>userret\<close> with the page table to load, or
  the process has left the CPU in a system call, in \<^verbatim>\<open>exit\<close> or in \<^verbatim>\<open>yield\<close>.
\<close>

datatype trap_end = ToUser uint64 uint64 | InSyscall blocked | Exited "nat \<times> bool" | Yielded "nat \<times> bool"

definition usertrapret :: "nat \<Rightarrow> 'a kernel_scheme \<Rightarrow> ('a kernel_scheme \<times> trap_end) res" where
  "usertrapret c s =
     rbind (myproc c s) (\<lambda>(s1, me). deref me (\<lambda>p.
     let s2 = intr_off c s1;
         trampoline_uservec = TRAMPOLINE + (a_uservec (code s2) - trampoline s2);
         s3 = w_stvec c trampoline_uservec s2;
         s4 = tf_set p ''kernel_satp'' (r_satp c s3) s3;
         s5 = tf_set p ''kernel_sp'' (kstack (procs s4 p) + PGSIZE) s4;
         s6 = tf_set p ''kernel_trap'' (a_usertrap (code s5)) s5;
         s7 = tf_set p ''kernel_hartid'' (r_tp c s6) s6;
         x = (r_sstatus c s7 AND NOT SSTATUS_SPP) OR SSTATUS_SPIE;
         s8 = w_sstatus c x s7;
         s9 = w_sepc c (tf_get s8 p ''epc'') s8;
         satp1 = MAKE_SATP (pagetable (procs s9 p));
         trampoline_userret = TRAMPOLINE + (a_userret (code s9) - trampoline s9)
     in Ok (s9, ToUser trampoline_userret satp1)))"

text \<open>The end of \<^verbatim>\<open>usertrap\<close>, from the second test of \<^verbatim>\<open>killed\<close> on.\<close>

definition usertrap_end :: "nat \<Rightarrow> 'a kernel_scheme \<Rightarrow> nat \<Rightarrow> int \<Rightarrow> ('a kernel_scheme \<times> trap_end) res" where
  "usertrap_end c s p which_dev =
     rbind (killed_q c s p) (\<lambda>(s1, k).
       if k \<noteq> 0 then rbind (exit_leave c s1 (-1)) (\<lambda>(s2, t). Ok (s2, Exited t))
       else if which_dev = 2 then
         rbind (myproc c s1) (\<lambda>(s2, me). deref me (\<lambda>q.
         rbind (yield_leave c (upd_proc q (\<lambda>x. x\<lparr>currentRuntime := currentRuntime x + 1\<rparr>) s2)) (\<lambda>(s3, w).
           case w of None \<Rightarrow> usertrapret c s3 | Some t \<Rightarrow> Ok (s3, Yielded t))))
       else usertrapret c s1)"

text \<open>After \<^verbatim>\<open>syscall()\<close> has returned, or stopped.\<close>

definition usertrap_sys :: "nat \<Rightarrow> nat \<Rightarrow> 'a kernel_scheme \<times> sysret option \<Rightarrow> ('a kernel_scheme \<times> trap_end) res" where
  "usertrap_sys c p r =
     (case r of (s, None) \<Rightarrow> usertrap_end c s p 0
      | (s, Some (SBlocked b)) \<Rightarrow> Ok (s, InSyscall b)
      | (s, Some (SExited t)) \<Rightarrow> Ok (s, Exited t)
      | (s, Some (SRet v)) \<Rightarrow> Fault)"

definition usertrap :: "nat \<Rightarrow> 'a kernel_scheme \<Rightarrow> ('a kernel_scheme \<times> trap_end) res" where
  "usertrap c s =
     (if r_sstatus c s AND SSTATUS_SPP \<noteq> 0 then Panic ''usertrap: not from user mode''
      else
        rbind (myproc c (w_stvec c (a_kernelvec (code s)) s)) (\<lambda>(s1, me). deref me (\<lambda>p.
        let s2 = tf_set p ''epc'' (r_sepc c s1) s1
        in if r_scause c s2 = 8 then
             rbind (killed_q c s2 p) (\<lambda>(s3, k).
               if k \<noteq> 0 then rbind (exit_leave c s3 (-1)) (\<lambda>(s4, t). Ok (s4, Exited t))
               else
                 let s4 = intr_on c (tf_set p ''epc'' (tf_get s3 p ''epc'' + 4) s3)
                 in rbind (syscall c s4) (\<lambda>r. usertrap_sys c p r))
           else
             rbind (devintr c s2) (\<lambda>(s3, which_dev).
               if which_dev \<noteq> 0 then usertrap_end c s3 p which_dev
               else
                 rbind (printf c s3 (Some (''usertrap(): unexpected scause %p pid=%d'' @ [CHR 0x0A]))
                          [PPtr (r_scause c s3), PInt (pid (procs s3 p))]) (\<lambda>s4.
                 rbind (printf c s4 (Some (''            sepc=%p stval=%p'' @ [CHR 0x0A]))
                          [PPtr (r_sepc c s4), PPtr (r_stval c s4)]) (\<lambda>s5.
                 rbind (setkilled c s5 p) (\<lambda>s6. usertrap_end c s6 p 0)))))))"

text \<open>The process comes back: to the system call it slept in, or to the end of \<^verbatim>\<open>yield\<close>.\<close>

definition usertrap_wake :: "nat \<Rightarrow> 'a kernel_scheme \<Rightarrow> blocked \<Rightarrow> ('a kernel_scheme \<times> trap_end) res" where
  "usertrap_wake c s b =
     rbind (syscall_wake c s b) (\<lambda>(s1, v).
     rbind (myproc c s1) (\<lambda>(s2, me). deref me (\<lambda>p. usertrap_sys c p (sys_finish p s2 v))))"

definition usertrap_yielded :: "nat \<Rightarrow> 'a kernel_scheme \<Rightarrow> nat \<times> bool \<Rightarrow> ('a kernel_scheme \<times> trap_end) res" where
  "usertrap_yielded c s t = rbind (yield_return c s t) (\<lambda>s1. usertrapret c s1)"

text \<open>\<^verbatim>\<open>kerneltrap\<close>: finished, or given up the CPU with the registers it will restore.\<close>

definition kerneltrap :: "nat \<Rightarrow> 'a kernel_scheme \<Rightarrow> ('a kernel_scheme \<times> (uint64 \<times> uint64 \<times> nat \<times> bool) option) res" where
  "kerneltrap c s =
     (let sepc0 = r_sepc c s; sstatus0 = r_sstatus c s; scause0 = r_scause c s
      in if sstatus0 AND SSTATUS_SPP = 0 then Panic ''kerneltrap: not from supervisor mode''
         else if intr_get c s then Panic ''kerneltrap: interrupts enabled''
         else
           rbind (devintr c s) (\<lambda>(s1, which_dev).
             if which_dev = 0 then
               rbind (printf c s1 (Some (''scause %p'' @ [CHR 0x0A])) [PPtr scause0]) (\<lambda>s2.
               rbind (printf c s2 (Some (''sepc=%p stval=%p'' @ [CHR 0x0A])) [PPtr (r_sepc c s2), PPtr (r_stval c s2)]) (\<lambda>s3.
               Panic ''kerneltrap''))
             else
               rbind (if which_dev = 2 then myproc c s1 else Ok (s1, None)) (\<lambda>(s2, me).
                 case me of
                   Some p \<Rightarrow>
                     rbind (myproc c s2) (\<lambda>(s3, _).
                       if state (procs s3 p) = RUNNING then
                         rbind (yield_leave c s3) (\<lambda>(s4, w).
                           case w of Some t \<Rightarrow> Ok (s4, Some (sepc0, sstatus0, t))
                           | None \<Rightarrow> Ok (w_sstatus c sstatus0 (w_sepc c sepc0 s4), None))
                       else Ok (w_sstatus c sstatus0 (w_sepc c sepc0 s3), None))
                 | None \<Rightarrow> Ok (w_sstatus c sstatus0 (w_sepc c sepc0 s2), None))))"

definition kerneltrap_yielded :: "nat \<Rightarrow> 'a kernel_scheme \<Rightarrow> uint64 \<times> uint64 \<times> nat \<times> bool \<Rightarrow> 'a kernel_scheme res" where
  "kerneltrap_yielded c s q =
     (case q of (sepc0, sstatus0, t) \<Rightarrow>
        rbind (yield_return c s t) (\<lambda>s1. Ok (w_sstatus c sstatus0 (w_sepc c sepc0 s1))))"

text \<open>\<^verbatim>\<open>forkret\<close> of \<^verbatim>\<open>proc.c\<close>: where a new process starts.\<close>

definition forkret :: "nat \<Rightarrow> 'a kernel_scheme \<Rightarrow> ('a kernel_scheme \<times> trap_end) res" where
  "forkret c s =
     rbind (myproc c s) (\<lambda>(s1, me). deref me (\<lambda>p.
     rbind (lk_release c (proc_L p) s1) (\<lambda>s2.
     rbind (if first s2 then fsinit c (s2\<lparr>first := False\<rparr>) (of_nat ROOTDEV) else Ok s2) (\<lambda>s3.
     usertrapret c s3))))"

section \<open>start.c\<close>

definition timerinit :: "nat \<Rightarrow> 'a kernel_scheme \<Rightarrow> 'a kernel_scheme" where
  "timerinit c s =
     (let id = r_mhartid c s; interval = 1000000;
          s1 = s\<lparr>mtimecmp := (mtimecmp s)(unat id := mtime s + interval)\<rparr>;
          scratch = a_timer_scratch (code s1) + id * 40;
          s2 = s1\<lparr>mem := store64 (mem s1) (scratch + 24) (CLINT_MTIMECMP id)\<rparr>;
          s3 = s2\<lparr>mem := store64 (mem s2) (scratch + 32) interval\<rparr>;
          s4 = w_mscratch c scratch s3;
          s5 = w_mtvec c (a_timervec (code s4)) s4;
          s6 = w_mstatus c (r_mstatus c s5 OR MSTATUS_MIE) s5
      in w_mie c (r_mie c s6 OR MIE_MTIE) s6)"

text \<open>\<^verbatim>\<open>start\<close> up to \<^verbatim>\<open>mret\<close>, which goes to \<open>mepc\<close> in the mode that \<open>mstatus\<close> holds.\<close>

definition start :: "nat \<Rightarrow> 'a kernel_scheme \<Rightarrow> 'a kernel_scheme" where
  "start c s =
     (let x = (r_mstatus c s AND NOT MSTATUS_MPP_MASK) OR MSTATUS_MPP_S;
          s1 = w_mstatus c x s;
          s2 = w_mepc c (a_main (code s1)) s1;
          s3 = w_satp c 0 s2;
          s4 = w_mideleg c 0xffff (w_medeleg c 0xffff s3);
          s5 = w_sie c (r_sie c s4 OR SIE_SEIE OR SIE_STIE OR SIE_SSIE) s4;
          s6 = w_pmpcfg0 c 0xf (w_pmpaddr0 c 0x3fffffffffffff s5);
          s7 = timerinit c s6
      in w_tp c (r_mhartid c s7) s7)"

section \<open>main.c\<close>

definition kvminit :: "nat \<Rightarrow> 'a kernel_scheme \<Rightarrow> 'a kernel_scheme res" where
  "kvminit c s =
     rbind (kvmmake c s (a_etext (code s)) (trampoline s)) (\<lambda>(s1, pt). Ok (s1\<lparr>kernel_pagetable := pt\<rparr>))"

definition kvminithart :: "nat \<Rightarrow> 'a kernel_scheme \<Rightarrow> 'a kernel_scheme" where
  "kvminithart c s = w_satp c (MAKE_SATP (kernel_pagetable s)) s"

text \<open>\<^verbatim>\<open>main\<close> up to its call of \<^verbatim>\<open>scheduler\<close>; another CPU spins until the first has \<^verbatim>\<open>started\<close>.\<close>

definition main_init :: "nat \<Rightarrow> 'a kernel_scheme \<Rightarrow> 'a kernel_scheme res" where
  "main_init c s =
     (if c = 0 then
        let s1 = printfinit (consoleinit s)
        in rbind (printf c s1 (Some [CHR 0x0A]) []) (\<lambda>s2.
           rbind (printf c s2 (Some (''xv6 kernel is booting'' @ [CHR 0x0A])) []) (\<lambda>s3.
           rbind (printf c s3 (Some [CHR 0x0A]) []) (\<lambda>s4.
           rbind (kinit c s4) (\<lambda>s5.
           rbind (kvminit c s5) (\<lambda>s6.
           let s7 = kvminithart c s6;
               s8 = trapinithart c (trapinit (procinit s7));
               s9 = plicinithart c (plicinit s8);
               s10 = fileinit (iinit (binit s9))
           in rbind (virtio_disk_init c s10) (\<lambda>s11.
              rbind (userinit c s11) (\<lambda>s12. Ok (s12\<lparr>started := True\<rparr>))))))))
      else if \<not> started s then Hang
      else
        rbind (printf c s (Some (''hart %d starting'' @ [CHR 0x0A])) [PInt (int c)]) (\<lambda>s1.
        Ok (plicinithart c (trapinithart c (kvminithart c s1)))))"

end
