(* ===== verification/Lock_Ref.thy ===== *)
theory Lock_Ref
  imports Trap
begin

text \<open>
  Spin locks that live somewhere in the kernel's state. \<open>lock_ref\<close> is the contract of a reference to
  such a lock; what \<^verbatim>\<open>acquire\<close>, \<^verbatim>\<open>release\<close> and a critical section between them do is proved from it once,
  and every lock of the kernel is an instance.
\<close>

section \<open>The contract\<close>

text \<open>The state in which CPU \<open>c\<close> has just taken the lock.\<close>

definition held :: "nat \<Rightarrow> ('a machine_scheme) lockref \<Rightarrow> 'a machine_scheme \<Rightarrow> 'a machine_scheme" where
  "held c L s = snd L (\<lambda>l. l\<lparr>locked := 1, lk_cpu := Some c\<rparr>) (push_off c s)"

locale lock_ref =
  fixes L :: "('s machine_scheme) lockref"
  assumes get_upd: "fst L (snd L f s) = f (fst L s)"
    and upd_upd: "snd L f (snd L g s) = snd L (\<lambda>l. f (g l)) s"
    and upd_get: "snd L (\<lambda>_. fst L s) s = s"
    and get_cpus: "fst L (cpus_update C s) = fst L s"
    and upd_cpus: "snd L f (cpus_update C s) = cpus_update C (snd L f s)"
    and cpus_upd: "cpus (snd L f s) = cpus s"
begin

lemma get_push_off [simp]: "fst L (push_off c s) = fst L s"
  using get_cpus by (simp add: push_off_upd)

lemma get_after_lock [simp]: "fst L (after_lock c s) = fst L s"
  using get_cpus by (simp add: after_lock_def cpu_defs)

lemma acquire_ok: "lock_free (fst L s) \<Longrightarrow> lk_acquire c L s = Ok (held c L s)"
proof -
  assume f: "lock_free (fst L s)"
  have "snd L (\<lambda>_. (fst L s)\<lparr>locked := 1, lk_cpu := Some c\<rparr>) (push_off c s) = held c L s"
  proof -
    have "held c L s = snd L (\<lambda>l. l\<lparr>locked := 1, lk_cpu := Some c\<rparr>) (snd L (\<lambda>_. fst L (push_off c s)) (push_off c s))"
      by (simp only: upd_get held_def)
    then show ?thesis by (simp add: upd_upd)
  qed
  then show ?thesis using f by (simp add: lk_acquire_def acquire_free)
qed

lemma acquire_taken: "\<not> lock_free (fst L s) \<Longrightarrow> locked (fst L s) \<noteq> 0 \<Longrightarrow> lk_acquire c L s \<noteq> Ok t"
  by (simp add: lk_acquire_def acquire_def Let_def)

lemma release_ok:
  assumes "cpu_ok (cpus s c)" "lock_free (fst L s)"
  shows "lk_release c L (held c L s) = Ok (after_lock c s)"
proof -
  let ?h = "(fst L s)\<lparr>locked := 1, lk_cpu := Some c\<rparr>"
  have g: "fst L (held c L s) = ?h" by (simp add: held_def get_upd)
  have h: "held c L s = push_off c (snd L (\<lambda>_. ?h) s)"
  proof -
    have "held c L s = snd L (\<lambda>l. l\<lparr>locked := 1, lk_cpu := Some c\<rparr>) (snd L (\<lambda>_. fst L (push_off c s)) (push_off c s))"
      by (simp only: upd_get held_def)
    then show ?thesis by (simp add: upd_upd push_off_upd upd_cpus cpus_upd get_cpus)
  qed
  have "release c (held c L s) ?h = Ok (after_lock c (snd L (\<lambda>_. ?h) s), fst L s)"
    unfolding h using assms by (intro release_held) (simp_all add: cpus_upd)
  then have "lk_release c L (held c L s) = Ok (snd L (\<lambda>_. fst L s) (after_lock c (snd L (\<lambda>_. ?h) s)))"
    by (simp add: lk_release_def g)
  also have "snd L (\<lambda>_. fst L s) (after_lock c (snd L (\<lambda>_. ?h) s)) = after_lock c s"
    using upd_get [of s]
    by (simp add: after_lock_def cpu_defs upd_cpus cpus_upd upd_upd get_cpus) 
  finally show ?thesis .
qed

end

section \<open>What a lock bracket leaves behind\<close>

lemma after_lock_upd:
  "after_lock c s = s\<lparr>cpus := (cpus s)(c := (cpus s c)\<lparr>intena := (if noff (cpus s c) = 0 then intr (cpus s c)
     else intena (cpus s c))\<rparr>)\<rparr>"
  by (simp add: after_lock_def upd_cpu_def)

lemma after_lock_idem [simp]: "after_lock c (after_lock c s) = after_lock c s"
  by (simp add: after_lock_upd)

lemma push_off_after_lock [simp]: "push_off c (after_lock c s) = push_off c s"
  by (simp add: after_lock_upd push_off_upd)

lemma held_after_lock [simp]: "held c L (after_lock c s) = held c L s"
  by (simp add: held_def)

lemma after_lock_nested: "0 < noff (cpus s c) \<Longrightarrow> after_lock c s = s"
  by (simp add: after_lock_upd)

text \<open>A CPU whose interrupt bookkeeping a lock bracket would not change.\<close>

definition settled :: "nat \<Rightarrow> 'a machine_scheme \<Rightarrow> bool" where
  "settled c s \<longleftrightarrow> cpu_ok (cpus s c) \<and> after_lock c s = s"

lemma settledD: "settled c s \<Longrightarrow> cpu_ok (cpus s c)" "settled c s \<Longrightarrow> after_lock c s = s"
  by (simp_all add: settled_def)

lemma after_lock_fields [simp]:
  "cpu_proc (cpus (after_lock c s) d) = cpu_proc (cpus s d)" "noff (cpus (after_lock c s) d) = noff (cpus s d)"
  "intr (cpus (after_lock c s) d) = intr (cpus s d)" "cpu_ok (cpus (after_lock c s) d) = cpu_ok (cpus s d)"
  by (auto simp: after_lock_upd cpu_ok_def)

lemma myproc_ok: "cpu_ok (cpus s c) \<Longrightarrow> myproc c s = Ok (after_lock c s, cpu_proc (cpus s c))"
  by (simp add: myproc_def pop_push_off mycpu_def push_off_cpu)

end
