(* ===== verification/Sched_Base.thy ===== *)
theory Sched_Base
  imports Lock_Ref
begin

text \<open>
  What \<^verbatim>\<open>wakeup\<close>, \<^verbatim>\<open>kill\<close>, \<^verbatim>\<open>yield\<close>, \<^verbatim>\<open>sleep\<close> and the scheduler's round do to the process table and the run
  queue, from the laws of the queue (\<open>RunQueue\<close>) and of locks (\<open>Lock_Ref\<close>).
\<close>

interpretation plk: lock_ref "proc_L i"
  by unfold_locales (simp_all add: proc_L_def upd_proc_def)

interpretation wlk: lock_ref wait_L
  by unfold_locales (simp_all add: wait_L_def)

lemma fst_proc_L [simp]: "fst (proc_L i) s = p_lock (procs s i)"
  by (simp add: proc_L_def)

lemma fst_wait_L [simp]: "fst wait_L s = wait_lock s"
  by (simp add: wait_L_def)

section \<open>The queue invariant and fields it does not read\<close>

lemma rq_inv_cong:
  assumes "procs s' = procs s" "rbTree s' = rbTree s"
  shows "rq_inv s' xs = rq_inv s xs"
  using rq_inv_same [of s' s "rb_lock (rbTree s)"] assms by simp

lemma rq_inv_outside:
  assumes "rq_inv s xs" "i \<notin> set xs"
    and links: "\<And>q. left (f q) = left q \<and> right (f q) = right q \<and> parentP (f q) = parentP q \<and> coloring (f q) = coloring q"
  shows "rq_inv (upd_proc i f s) xs"
proof -
  have "colors (upd_proc i f s) = colors s" using links by (auto simp: colors_def fun_eq_iff upd_proc_def)
  moreover have "map (vr (upd_proc i f s)) xs = map (vr s) xs" "map (wt (upd_proc i f s)) xs = map (wt s) xs"
    "\<forall>j \<in> set xs. wt (upd_proc i f s) j = wt s j"
    using assms(2) by (auto simp: vr_def wt_def upd_proc_def)
  moreover have "left (procs (upd_proc i f s) j) = left (procs s j)" "right (procs (upd_proc i f s) j) = right (procs s j)" for j
    using links by (simp_all add: upd_proc_def)
  ultimately show ?thesis
    using assms(1) rep_upd_payload [of f i s] links unfolding rq_inv_def
    by (simp del: upd_proc_simps(1) cong: map_cong)
qed

lemma rq_inv_payload:
  assumes links: "\<And>q. left (f q) = left q \<and> right (f q) = right q \<and> parentP (f q) = parentP q \<and> coloring (f q) = coloring q"
    and keys: "\<And>q. virtualRuntime (f q) = virtualRuntime q \<and> weightValue (f q) = weightValue q"
  shows "rq_inv (upd_proc i f s) xs = rq_inv s xs"
proof -
  let ?s = "upd_proc i f s"
  have "colors ?s = colors s" "vr ?s = vr s" "wt ?s = wt s"
    using links keys by (auto simp: colors_def vr_def wt_def fun_eq_iff upd_proc_def)
  moreover have "left (procs ?s j) = left (procs s j)" "right (procs ?s j) = right (procs s j)" for j
    using links by (simp_all add: upd_proc_def)
  ultimately show ?thesis
    using rep_upd_payload [of f i s] links unfolding rq_inv_def by (simp del: upd_proc_simps(1))
qed

lemma rq_inv_plock [simp]: "rq_inv (upd_proc i (\<lambda>p. p\<lparr>p_lock := g p\<rparr>) s) xs = rq_inv s xs"
  by (rule rq_inv_payload) simp_all

lemma after_lock_rq [simp]: "procs (after_lock c s) = procs s" "rbTree (after_lock c s) = rbTree s"
  by (simp_all add: after_lock_upd)

lemma rq_ok_after_lock [simp]: "rq_ok c (after_lock c s) xs = rq_ok c s xs"
  by (simp add: rq_ok_def rq_inv_cong [of "after_lock c s" s])

lemma held_proc:
  "procs (held c (proc_L i) s) = (procs s)(i := (procs s i)\<lparr>p_lock := (p_lock (procs s i))\<lparr>locked := 1, lk_cpu := Some c\<rparr>\<rparr>)"
  "rbTree (held c (proc_L i) s) = rbTree s" "cpus (held c (proc_L i) s) = cpus (push_off c s)"
  by (simp_all add: held_def proc_L_def upd_proc_def push_off_upd)

lemma held_upd_proc:
  assumes "\<And>q l. g (q\<lparr>p_lock := l\<rparr>) = (g q)\<lparr>p_lock := l\<rparr>" "\<And>q. p_lock (g q) = p_lock q"
  shows "upd_proc i g (held c (proc_L i) s) = held c (proc_L i) (upd_proc i g s)"
  by (simp add: held_def proc_L_def upd_proc_def push_off_upd assms)

lemma rq_ok_held: "rq_ok c s xs \<Longrightarrow> rq_ok c (held c (proc_L i) s) xs"
  using rq_inv_cong [of "push_off c s" s xs]
  by (auto simp: rq_ok_def held_def proc_L_def push_off_ok upd_proc_def [of i "\<lambda>p. p\<lparr>p_lock := _ p\<rparr>", symmetric])

lemma vr_after_lock [simp]: "vr (after_lock c s) = vr s"
  by (simp add: vr_def fun_eq_iff)

section \<open>Waking one process\<close>

text \<open>A process as \<^verbatim>\<open>wakeup\<close>, \<^verbatim>\<open>kill\<close> and \<^verbatim>\<open>yield\<close> queue it.\<close>

definition wake :: "proc \<Rightarrow> proc" where
  "wake p = p\<lparr>state := RUNNABLE, virtualRuntime := virtualRuntime p + currentRuntime p, currentRuntime := 0,
     weightValue := calculateWeight (niceValue p)\<rparr>"

lemma payload_other: "p_lock (payload p) = p_lock p" "chan (payload p) = chan p" "killed (payload p) = killed p"
    "pid (payload p) = pid p" "parent (payload p) = parent p" "ofile (payload p) = ofile p"
  by (simp_all add: payload_def)

lemma payload_p_lock: "payload p = payload q \<Longrightarrow> p_lock p = p_lock q"
  by (metis payload_other(1))

lemma payload_chan: "payload p = payload q \<Longrightarrow> chan p = chan q"
  by (metis payload_other(2))


lemma payload_wake: "payload p = payload q \<Longrightarrow> payload (wake p) = payload (wake q)"
proof -
  assume "payload p = payload q"
  moreover have "payload (wake r) = wake (payload r)" for r by (simp add: payload_def wake_def)
  ultimately show ?thesis by simp
qed

lemma payload_set_lock: "payload p = payload q \<Longrightarrow> payload (p\<lparr>p_lock := l\<rparr>) = payload (q\<lparr>p_lock := l\<rparr>)"
proof -
  assume "payload p = payload q"
  moreover have "payload (r\<lparr>p_lock := l\<rparr>) = (payload r)\<lparr>p_lock := l\<rparr>" for r by (simp add: payload_def)
  ultimately show ?thesis by simp
qed

lemma requeue_held:
  assumes ok: "rq_ok c s xs" and i: "i \<notin> set xs" "i < NPROC" and free: "lock_free (p_lock (procs s i))"
  shows "\<exists>s'. requeue c (held c (proc_L i) s) i = Ok (held c (proc_L i) s') \<and> rq_ok c s' (enq (vr s') xs i) \<and>
    rq_env c ((procs s)(i := wake (procs s i))) s s'"
proof -
  let ?h = "held c (proc_L i) s"
  define h2 where "h2 = upd_proc i (\<lambda>p. p\<lparr>virtualRuntime := virtualRuntime p + currentRuntime p, currentRuntime := 0\<rparr>)
    (upd_proc i (\<lambda>p. p\<lparr>state := RUNNABLE\<rparr>) ?h)"
  have "rq_ok c h2 xs"
    using rq_ok_held [OF ok, of i] i(1) unfolding h2_def rq_ok_def by (auto intro!: rq_inv_outside)
  from insertProcess_ok [OF this i] obtain s3 where s3: "insertProcess c h2 i = Ok s3" "rq_ok c s3 (enq (vr h2) xs i)"
    "rq_env c ((procs h2)(i := with_weight (procs h2 i))) h2 s3" by blast
  obtain P T where PT: "s3 = after_lock c (h2\<lparr>procs := P, rbTree := T\<rparr>)" "rb_lock T = rb_lock (rbTree s)"
    "\<forall>j. payload (procs s3 j) = payload (((procs h2)(i := with_weight (procs h2 i))) j)"
    using s3(3) unfolding rq_env_def by (auto simp: h2_def held_proc)
  have cpu: "cpus h2 = cpus (push_off c s)" by (simp add: h2_def held_proc)
  have s3': "s3 = h2\<lparr>procs := P, rbTree := T\<rparr>"
    unfolding PT(1) by (rule after_lock_nested) (use ok in \<open>simp add: cpu push_off_cpu rq_ok_def cpu_ok_def\<close>)
  have lk: "p_lock (P i) = (p_lock (procs s i))\<lparr>locked := 1, lk_cpu := Some c\<rparr>"
    using payload_p_lock [OF PT(3) [rule_format, of i]] by (simp add: s3' h2_def held_proc with_weight_def)
  define u where "u = s\<lparr>procs := P(i := (P i)\<lparr>p_lock := p_lock (procs s i)\<rparr>), rbTree := T\<rparr>"
  have u: "s3 = held c (proc_L i) u"
    unfolding s3' u_def h2_def using lk
    by (simp add: held_def proc_L_def upd_proc_def push_off_upd fun_upd_idem)
  have P: "payload (procs u j) = payload (((procs s)(i := wake (procs s i))) j)" for j
  proof (cases "j = i")
    case True
    have "payload ((P i)\<lparr>p_lock := p_lock (procs s i)\<rparr>) = payload ((with_weight (procs h2 i))\<lparr>p_lock := p_lock (procs s i)\<rparr>)"
      using PT(3) [rule_format, of i] by (intro payload_set_lock) (simp add: s3')
    also have "(with_weight (procs h2 i))\<lparr>p_lock := p_lock (procs s i)\<rparr> = wake (procs s i)"
      by (simp add: with_weight_def wake_def h2_def held_proc)
    finally show ?thesis using True by (simp add: u_def)
  next
    case False
    then show ?thesis using PT(3) [rule_format, of j] by (simp add: s3' u_def h2_def held_proc)
  qed
  have req: "requeue c ?h i = Ok s3" using s3(1) by (simp add: requeue_def h2_def)
  have vr: "vr h2 = vr u"
  proof
    fix j show "vr h2 j = vr u j"
      using payload_fields(1) [OF P [of j]] by (auto simp: vr_def h2_def held_proc wake_def)
  qed
  have "rq_inv u (enq (vr u) xs i)"
    using s3(2) unfolding rq_ok_def u held_def proc_L_def vr
    using rq_inv_cong [of "push_off c u" u] by simp
  then have "rq_ok c (after_lock c u) (enq (vr u) xs i)" 
    unfolding rq_ok_after_lock using ok PT(2) by (simp add: rq_ok_def u_def)
  moreover have "rq_env c ((procs s)(i := wake (procs s i))) s (after_lock c u)"
    unfolding rq_env_def using P PT(2)
    by (intro conjI exI [of _ "procs u"] exI [of _ T]) (simp_all add: u_def)
  ultimately show ?thesis using req u by (intro exI [of _ "after_lock c u"]) simp
qed

lemma rq_env_trans:
  assumes "rq_env c G s s'" "rq_env c G' s' s''"
  shows "rq_env c G' s s''"
  using assms unfolding rq_env_def by (force simp: after_lock_upd)

lemma rq_env_procs_cong:
  "(\<And>j. payload (G j) = payload (G' j)) \<Longrightarrow> rq_env c G s s' = rq_env c G' s s'"
  by (simp add: rq_env_def)

lemma rq_env_refl: "rq_env c (procs s) s (after_lock c s)"
  unfolding rq_env_def by (intro conjI exI [of _ "procs s"] exI [of _ "rbTree s"]) simp_all

lemma rq_env_stable: "rq_env c G s s' \<Longrightarrow> after_lock c s' = s'"
  by (auto simp: rq_env_def)

lemma rq_env_proc:
  assumes "rq_env c G s s'"
  shows "payload (procs s' i) = payload (G i)" "p_lock (procs s' i) = p_lock (G i)" "state (procs s' i) = state (G i)"
    "chan (procs s' i) = chan (G i)" "cpu_proc (cpus s' d) = cpu_proc (cpus s d)" "noff (cpus s' d) = noff (cpus s d)"
    "intr (cpus s' d) = intr (cpus s d)"
proof -
  show p: "payload (procs s' i) = payload (G i)" using assms by (simp add: rq_env_def)
  show "p_lock (procs s' i) = p_lock (G i)" by (rule payload_p_lock [OF p])
  show "state (procs s' i) = state (G i)" by (rule payload_fields(4) [OF p])
  show "chan (procs s' i) = chan (G i)" by (rule payload_chan [OF p])
  obtain P T where "s' = after_lock c (s\<lparr>procs := P, rbTree := T\<rparr>)" using assms by (auto simp: rq_env_def)
  then show "cpu_proc (cpus s' d) = cpu_proc (cpus s d)" "noff (cpus s' d) = noff (cpus s d)"
    "intr (cpus s' d) = intr (cpus s d)" by simp_all
qed

definition sleeps_on :: "channel \<Rightarrow> proc \<Rightarrow> bool" where
  "sleeps_on ch p \<longleftrightarrow> state p = SLEEPING \<and> chan p = Some ch"

lemma wakeup_one_idle:
  assumes "cpu_ok (cpus s c)" and "cpu_proc (cpus s c) = Some i \<or> lock_free (p_lock (procs s i)) \<and> \<not> sleeps_on ch (procs s i)"
  shows "wakeup_one c s ch i = Ok (after_lock c s)"
  using assms
  by (auto simp: wakeup_one_def myproc_ok plk.acquire_ok plk.release_ok held_proc sleeps_on_def)

lemma wakeup_one_wakes:
  assumes ok: "rq_ok c s xs" and i: "i \<notin> set xs" "i < NPROC" and free: "lock_free (p_lock (procs s i))"
    and "cpu_proc (cpus s c) \<noteq> Some i" and "sleeps_on ch (procs s i)"
  shows "\<exists>s'. wakeup_one c s ch i = Ok s' \<and> rq_ok c s' (enq (vr s') xs i) \<and>
    rq_env c ((procs s)(i := wake (procs s i))) s s'"
proof -
  obtain t where t: "requeue c (held c (proc_L i) s) i = Ok (held c (proc_L i) t)" "rq_ok c t (enq (vr t) xs i)"
    "rq_env c ((procs s)(i := wake (procs s i))) s t" using requeue_held [OF ok i free] by blast
  have "cpu_ok (cpus s c)" "cpu_ok (cpus t c)" using ok t(2) by (simp_all add: rq_ok_def)
  moreover have "lock_free (p_lock (procs t i))"
    using t(3) free payload_p_lock [of "procs t i" "wake (procs s i)"] by (simp add: rq_env_def wake_def)
  ultimately have "wakeup_one c s ch i = Ok (after_lock c t)"
    using assms(5,6) free t(1)
    by (auto simp: wakeup_one_def myproc_ok plk.acquire_ok plk.release_ok held_proc sleeps_on_def)
  then show ?thesis using t rq_env_stable [OF t(3)] by simp
qed

section \<open>wakeup\<close>

definition woken :: "channel \<Rightarrow> nat option \<Rightarrow> (nat \<Rightarrow> proc) \<Rightarrow> nat list \<Rightarrow> nat list" where
  "woken ch me P ps = filter (\<lambda>i. me \<noteq> Some i \<and> sleeps_on ch (P i)) ps"

definition wake_all :: "nat list \<Rightarrow> (nat \<Rightarrow> proc) \<Rightarrow> nat \<Rightarrow> proc" where
  "wake_all ws P i = (if i \<in> set ws then wake (P i) else P i)"

lemma enq_cong: "(\<And>x. x \<in> set xs \<Longrightarrow> v x = v' x) \<Longrightarrow> v p = v' p \<Longrightarrow> enq v xs p = enq v' xs p"
  unfolding enq_def by (intro arg_cong2 [of _ _ _ _ append] arg_cong2 [of _ _ _ _ Cons] filter_cong) auto

lemma foldl_enq_set: "set (foldl (enq v) xs ws) = set xs \<union> set ws"
  by (induction ws arbitrary: xs) auto

lemma wakeup_loop_ok:
  assumes "rq_ok c s xs" "after_lock c s = s" "distinct ps" "set ps \<subseteq> {..<NPROC}"
    and "\<And>i. i \<in> set ps \<Longrightarrow> cpu_proc (cpus s c) \<noteq> Some i \<Longrightarrow> lock_free (p_lock (procs s i))"
    and "\<And>i. i \<in> set xs \<Longrightarrow> state (procs s i) \<noteq> SLEEPING"
  shows "\<exists>s'. wakeup_loop c s ch ps = Ok s' \<and>
    rq_ok c s' (foldl (enq (vr s')) xs (woken ch (cpu_proc (cpus s c)) (procs s) ps)) \<and>
    rq_env c (wake_all (woken ch (cpu_proc (cpus s c)) (procs s) ps) (procs s)) s s'"
  using assms
proof (induction ps arbitrary: s xs)
  case Nil
  then show ?case using rq_env_refl [of c s] by (simp add: woken_def wake_all_def [abs_def])
next
  case (Cons i ps)
  let ?me = "cpu_proc (cpus s c)"
  have cpu: "cpu_ok (cpus s c)" using Cons.prems(1) by (simp add: rq_ok_def)
  show ?case
  proof (cases "?me \<noteq> Some i \<and> sleeps_on ch (procs s i)")
    case False
    then have "wakeup_one c s ch i = Ok s"
      using wakeup_one_idle [OF cpu, of i ch] Cons.prems(2,5) by auto
    moreover have "woken ch ?me (procs s) (i # ps) = woken ch ?me (procs s) ps" using False by (auto simp: woken_def)
    ultimately show ?thesis using Cons.IH [OF Cons.prems(1,2)] Cons.prems(3-6) by simp
  next
    case True
    have i: "i \<notin> set xs" "i < NPROC" "lock_free (p_lock (procs s i))"
      using True Cons.prems(4,5,6) by (auto simp: sleeps_on_def)
    obtain s1 where s1: "wakeup_one c s ch i = Ok s1" "rq_ok c s1 (enq (vr s1) xs i)"
      "rq_env c ((procs s)(i := wake (procs s i))) s s1"
      using wakeup_one_wakes [OF Cons.prems(1) i] True by blast
    let ?W = "woken ch ?me (procs s) ps"
    have eq: "state (procs s1 j) = (if j = i then RUNNABLE else state (procs s j))" "chan (procs s1 j) = chan (procs s j)"
      "p_lock (procs s1 j) = p_lock (procs s j)" for j
      using rq_env_proc [OF s1(3), of j] by (auto simp: wake_def)
    have W: "woken ch (cpu_proc (cpus s1 c)) (procs s1) ps = ?W"
      unfolding woken_def using Cons.prems(3) rq_env_proc(5) [OF s1(3)]
      by (intro filter_cong) (auto simp: sleeps_on_def eq)
    have "\<exists>s'. wakeup_loop c s1 ch ps = Ok s' \<and>
        rq_ok c s' (foldl (enq (vr s')) (enq (vr s1) xs i) (woken ch (cpu_proc (cpus s1 c)) (procs s1) ps)) \<and>
        rq_env c (wake_all (woken ch (cpu_proc (cpus s1 c)) (procs s1) ps) (procs s1)) s1 s'"
      by (rule Cons.IH [OF s1(2) rq_env_stable [OF s1(3)]])
        (use Cons.prems rq_env_proc(5) [OF s1(3)] in \<open>auto simp: eq\<close>)
    then obtain s' where s': "wakeup_loop c s1 ch ps = Ok s'" "rq_ok c s' (foldl (enq (vr s')) (enq (vr s1) xs i) ?W)"
      "rq_env c (wake_all ?W (procs s1)) s1 s'" unfolding W by blast
    have "x \<notin> set ?W" if "x \<in> insert i (set xs)" for x
      using that Cons.prems(3,6) by (auto simp: woken_def sleeps_on_def)
    then have "vr s' x = vr s1 x" if "x \<in> insert i (set xs)" for x
      using that rq_env_fields(1) [OF s'(3)] by (simp add: vr_def wake_all_def)
    then have "enq (vr s1) xs i = enq (vr s') xs i" by (intro enq_cong) auto
    moreover have "payload (wake_all ?W (procs s1) j) = payload (wake_all (i # ?W) (procs s) j)" for j
      using Cons.prems(3) rq_env_proc(1) [OF s1(3), of j] payload_wake [of "procs s1 j" "procs s j"]
      by (auto simp: wake_all_def woken_def split: if_splits)
    then have "rq_env c (wake_all (i # ?W) (procs s)) s s'"
      using rq_env_trans [OF s1(3) s'(3)] rq_env_procs_cong [of "wake_all ?W (procs s1)"] by blast
    ultimately show ?thesis using s' s1(1) True by (simp add: woken_def)
  qed
qed

lemma wakeup_ok:
  assumes "rq_ok c s xs"
    and "\<And>i. i < NPROC \<Longrightarrow> cpu_proc (cpus s c) \<noteq> Some i \<Longrightarrow> lock_free (p_lock (procs s i))"
    and "\<And>i. i \<in> set xs \<Longrightarrow> state (procs s i) \<noteq> SLEEPING"
  shows "\<exists>s'. wakeup c s ch = Ok s' \<and>
    rq_ok c s' (foldl (enq (vr s')) xs (woken ch (cpu_proc (cpus s c)) (procs s) [0..<NPROC])) \<and>
    rq_env c (wake_all (woken ch (cpu_proc (cpus s c)) (procs s) [0..<NPROC]) (procs s)) s s'"
proof -
  have cpu: "cpu_ok (cpus s c)" using assms(1) by (simp add: rq_ok_def)
  then have "wakeup c s ch = wakeup c (after_lock c s) ch"
    unfolding wakeup_def by (subst (1 2) upt_conv_Cons) (simp_all add: NPROC_def wakeup_one_def myproc_ok)
  moreover have "\<exists>s'. wakeup_loop c (after_lock c s) ch [0..<NPROC] = Ok s' \<and>
    rq_ok c s' (foldl (enq (vr s')) xs (woken ch (cpu_proc (cpus s c)) (procs s) [0..<NPROC])) \<and>
    rq_env c (wake_all (woken ch (cpu_proc (cpus s c)) (procs s) [0..<NPROC]) (procs s)) (after_lock c s) s'"
    using wakeup_loop_ok [of c "after_lock c s" xs "[0..<NPROC]" ch] assms by (simp add: lessThan_atLeast0)
  ultimately show ?thesis using rq_env_trans [OF rq_env_refl [of c s]] unfolding wakeup_def by fastforce
qed

lemma wakeup_idle:
  assumes "cpu_ok (cpus s c)"
    and "\<And>i. i < NPROC \<Longrightarrow> cpu_proc (cpus s c) \<noteq> Some i \<Longrightarrow> lock_free (p_lock (procs s i)) \<and> \<not> sleeps_on ch (procs s i)"
  shows "wakeup c s ch = Ok (after_lock c s)"
proof -
  have "wakeup_loop c t ch ps = Ok (if ps = [] then t else after_lock c s)"
    if "set ps \<subseteq> {..<NPROC}" "t = s \<or> t = after_lock c s" for t ps
    using that
  proof (induction ps arbitrary: t)
    case (Cons i ps)
    then have "wakeup_one c t ch i = Ok (after_lock c s)"
      using wakeup_one_idle [of t c i ch] assms(1) assms(2) [of i] by (cases "cpu_proc (cpus s c) = Some i") auto
    then show ?case using Cons.IH [of "after_lock c s"] Cons.prems by simp
  qed simp
  from this [of "[0..<NPROC]" s] show ?thesis by (simp add: wakeup_def NPROC_def lessThan_atLeast0)
qed

end
