(* ===== verification/Sched_Props.thy ===== *)
theory Sched_Props
  imports Sched_Base
begin

text \<open>
  The scheduler as a state machine: CPUs that pick processes from the run queue, run them, and give
  them up by \<^verbatim>\<open>yield\<close> and \<^verbatim>\<open>sleep\<close>, with \<^verbatim>\<open>wakeup\<close> and \<^verbatim>\<open>kill\<close> in between, each step one of the routines of
  \<^verbatim>\<open>proc.c\<close> run between two context switches.
\<close>

section \<open>The machine\<close>

text \<open>What a CPU is doing: in the scheduler, or with a process it has just switched to, runs, or has just left.\<close>

datatype cmode = Idle | Entering nat | Executing nat | Leaving nat

inductive sched_step :: "'a pstate_scheme \<times> (nat \<Rightarrow> cmode) \<Rightarrow> 'a pstate_scheme \<times> (nat \<Rightarrow> cmode) \<Rightarrow> bool" where
  pick: "m c = Idle \<Longrightarrow> scheduler_pick c s = Ok (s', r) \<Longrightarrow>
     sched_step (s, m) (s', m(c := (case r of None \<Rightarrow> Idle | Some i \<Rightarrow> Entering i)))"
| resume: "m c = Entering i \<Longrightarrow> yield_return c s (i, e) = Ok s' \<Longrightarrow> sched_step (s, m) (s', m(c := Executing i))"
| tick: "m c = Executing i \<Longrightarrow>
     sched_step (s, m) (upd_proc i (\<lambda>p. p\<lparr>currentRuntime := currentRuntime p + 1\<rparr>) s, m)"
| yield: "m c = Executing i \<Longrightarrow> yield_leave c s = Ok (s', r) \<Longrightarrow>
     sched_step (s, m) (s', m(c := (case r of None \<Rightarrow> Executing i | Some t \<Rightarrow> Leaving i)))"
| sleep: "m c = Executing i \<Longrightarrow> lk_acquire c wait_L s = Ok s1 \<Longrightarrow> sleep_leave c s1 ch wait_L = Ok (s', t) \<Longrightarrow>
     sched_step (s, m) (s', m(c := Leaving i))"
| wakeup: "m c = Executing i \<Longrightarrow> wakeup c s ch = Ok s' \<Longrightarrow> sched_step (s, m) (s', m)"
| kill: "m c = Executing i \<Longrightarrow> kill c s n = Ok (s', r) \<Longrightarrow> sched_step (s, m) (s', m)"
| go_back: "m c = Leaving i \<Longrightarrow> scheduler_back c s i = Ok s' \<Longrightarrow> sched_step (s, m) (s', m(c := Idle))"

section \<open>The invariant\<close>

definition held_by :: "nat \<Rightarrow> spinlock \<Rightarrow> bool" where
  "held_by c lk \<longleftrightarrow> locked lk = 1 \<and> lk_cpu lk = Some c"

definition with_proc :: "cmode \<Rightarrow> nat \<Rightarrow> bool" where
  "with_proc k i \<longleftrightarrow> k = Entering i \<or> k = Executing i \<or> k = Leaving i"

fun mode_ok :: "nat \<Rightarrow> cmode \<Rightarrow> 'a rq_state_scheme \<Rightarrow> bool" where
  "mode_ok c Idle s \<longleftrightarrow> cpu_proc (cpus s c) = None \<and> noff (cpus s c) = 0"
| "mode_ok c (Entering i) s \<longleftrightarrow> i < NPROC \<and> cpu_proc (cpus s c) = Some i \<and> noff (cpus s c) = 1 \<and> \<not> intr (cpus s c) \<and>
     state (procs s i) = RUNNING \<and> held_by c (p_lock (procs s i))"
| "mode_ok c (Executing i) s \<longleftrightarrow> i < NPROC \<and> cpu_proc (cpus s c) = Some i \<and> noff (cpus s c) = 0 \<and>
     state (procs s i) = RUNNING \<and> lock_free (p_lock (procs s i))"
| "mode_ok c (Leaving i) s \<longleftrightarrow> i < NPROC \<and> cpu_proc (cpus s c) = Some i \<and> noff (cpus s c) = 1 \<and> \<not> intr (cpus s c) \<and>
     state (procs s i) \<noteq> RUNNING \<and> held_by c (p_lock (procs s i))"

definition sched_inv :: "'a pstate_scheme \<Rightarrow> (nat \<Rightarrow> cmode) \<Rightarrow> nat list \<Rightarrow> bool" where
  "sched_inv s m xs \<longleftrightarrow>
     rq_inv s xs \<and> lock_free (rb_lock (rbTree s)) \<and> lock_free (wait_lock s) \<and>
     (\<forall>i < NPROC. i \<in> set xs \<longleftrightarrow> state (procs s i) = RUNNABLE) \<and>
     (\<forall>c. mode_ok c (m c) s) \<and>
     (\<forall>c d i. with_proc (m c) i \<longrightarrow> with_proc (m d) i \<longrightarrow> c = d) \<and>
     (\<forall>i < NPROC. lock_free (p_lock (procs s i)) \<or> (\<exists>c. m c = Entering i \<or> m c = Leaving i)) \<and>
     (\<forall>i < NPROC. state (procs s i) = RUNNING \<longrightarrow> (\<exists>c. m c = Entering i \<or> m c = Executing i))"

lemma mode_ok_cpu_ok: "mode_ok c k s \<Longrightarrow> cpu_ok (cpus s c)"
  by (cases k) (auto simp: cpu_ok_def)

lemma sched_inv_mode: "sched_inv s m xs \<Longrightarrow> mode_ok c (m c) s"
  by (simp add: sched_inv_def)

lemma sched_inv_rq_ok: "sched_inv s m xs \<Longrightarrow> rq_ok c s xs"
  using mode_ok_cpu_ok unfolding sched_inv_def rq_ok_def by blast

text \<open>A lock that some CPU holds is not free; one that is not locked is.\<close>

lemma sched_inv_unlocked:
  assumes "sched_inv s m xs" "i < NPROC" "locked (p_lock (procs s i)) = 0"
  shows "lock_free (p_lock (procs s i))"
proof (rule ccontr)
  assume "\<not> lock_free (p_lock (procs s i))"
  then obtain c where "m c = Entering i \<or> m c = Leaving i" using assms(1,2) unfolding sched_inv_def by blast
  moreover have "mode_ok c (m c) s" using assms(1) by (simp add: sched_inv_def)
  ultimately show False using assms(3) by (auto simp: held_by_def)
qed

text \<open>A process with another CPU, or with its lock free, is seen by the invariant only through these fields.\<close>

lemma mode_ok_cong:
  assumes "mode_ok d k s" "cpu_proc (cpus s' d) = cpu_proc (cpus s d)" "noff (cpus s' d) = noff (cpus s d)"
    "intr (cpus s' d) = intr (cpus s d)"
    "\<And>i. with_proc k i \<Longrightarrow> (state (procs s' i) = RUNNING \<longleftrightarrow> state (procs s i) = RUNNING) \<and> p_lock (procs s' i) = p_lock (procs s i)"
  shows "mode_ok d k s'"
  using assms by (cases k) (auto simp: with_proc_def)

section \<open>wakeup and kill\<close>

lemma sched_inv_env:
  assumes inv: "sched_inv s m xs" and env: "rq_env c G s s'" and ys: "rq_inv s' ys" "lock_free (rb_lock (rbTree s'))"
    and G: "\<And>i. p_lock (G i) = p_lock (procs s i)"
      "\<And>i. state (G i) = state (procs s i) \<or> state (procs s i) = SLEEPING \<and> state (G i) = RUNNABLE"
      "\<And>i. i < NPROC \<Longrightarrow> i \<in> set ys \<longleftrightarrow> state (G i) = RUNNABLE"
  shows "sched_inv s' m ys"
proof -
  have st: "state (procs s' i) = state (G i)" "p_lock (procs s' i) = p_lock (procs s i)" for i
    using rq_env_proc [OF env] G(1) by auto
  have wl: "wait_lock s' = wait_lock s" using env by (auto simp: rq_env_def after_lock_upd)
  have run: "state (procs s' i) = RUNNING \<longleftrightarrow> state (procs s i) = RUNNING" for i using G(2) [of i] st by auto
  have "mode_ok d (m d) s'" for d
    by (rule mode_ok_cong [OF sched_inv_mode [OF inv]]) (simp_all add: run st(2) rq_env_proc(5-7) [OF env])
  then show ?thesis using inv ys wl G(3) st run unfolding sched_inv_def by (simp only: st(2)) blast
qed


lemma wakeup_one_free:
  assumes "wakeup_one c s ch i = Ok t" "cpu_ok (cpus s c)" "cpu_proc (cpus s c) \<noteq> Some i"
    "lock_free (p_lock (procs s i)) \<or> locked (p_lock (procs s i)) \<noteq> 0"
  shows "lock_free (p_lock (procs s i))"
proof (rule ccontr)
  assume "\<not> lock_free (p_lock (procs s i))"
  then have "lk_acquire c (proc_L i) (after_lock c s) \<noteq> Ok t'" for t'
    using plk.acquire_taken [of i "after_lock c s" c t'] assms(4) by simp
  then show False using assms(1-3) by (cases "lk_acquire c (proc_L i) (after_lock c s)") (auto simp: wakeup_one_def myproc_ok)
qed

lemma wakeup_loop_free:
  assumes "wakeup_loop c s ch ps = Ok t" "rq_ok c s xs" "distinct ps" "set ps \<subseteq> {..<NPROC}"
    "\<And>i. i \<in> set ps \<Longrightarrow> lock_free (p_lock (procs s i)) \<or> locked (p_lock (procs s i)) \<noteq> 0"
    "\<And>i. i \<in> set xs \<Longrightarrow> state (procs s i) \<noteq> SLEEPING"
  shows "\<forall>i \<in> set ps. cpu_proc (cpus s c) \<noteq> Some i \<longrightarrow> lock_free (p_lock (procs s i))"
  using assms
proof (induction ps arbitrary: s xs)
  case (Cons i ps)
  let ?me = "cpu_proc (cpus s c)"
  have cpu: "cpu_ok (cpus s c)" using Cons.prems(2) by (simp add: rq_ok_def)
  obtain s1 where s1: "wakeup_one c s ch i = Ok s1" "wakeup_loop c s1 ch ps = Ok t"
    using Cons.prems(1) by (cases "wakeup_one c s ch i") auto
  have free: "?me \<noteq> Some i \<longrightarrow> lock_free (p_lock (procs s i))"
    using wakeup_one_free [OF s1(1) cpu] Cons.prems(5) by auto
  have "\<exists>G ys. rq_env c G s s1 \<and> rq_ok c s1 ys \<and> (\<forall>j. p_lock (G j) = p_lock (procs s j)) \<and>
      (\<forall>j. j \<in> set ys \<longrightarrow> state (G j) \<noteq> SLEEPING)"
  proof (cases "?me \<noteq> Some i \<and> sleeps_on ch (procs s i)")
    case True
    then have "i \<notin> set xs" "i < NPROC" using Cons.prems(4,6) by (auto simp: sleeps_on_def)
    then obtain s2 where "wakeup_one c s ch i = Ok s2" "rq_ok c s2 (enq (vr s2) xs i)" "rq_env c ((procs s)(i := wake (procs s i))) s s2"
      using wakeup_one_wakes [OF Cons.prems(2)] True free by blast
    then show ?thesis using s1(1) Cons.prems(6)
      by (intro exI [of _ "(procs s)(i := wake (procs s i))"] exI [of _ "enq (vr s2) xs i"]) (auto simp: wake_def)
  next
    case False
    then have "s1 = after_lock c s" using wakeup_one_idle [OF cpu, of i ch] free s1(1) by auto
    then show ?thesis using rq_env_refl [of c s] Cons.prems(2,6) by (intro exI [of _ "procs s"] exI [of _ xs]) auto
  qed
  then obtain G ys where G: "rq_env c G s s1" "rq_ok c s1 ys" "\<forall>j. p_lock (G j) = p_lock (procs s j)"
    "\<forall>j. j \<in> set ys \<longrightarrow> state (G j) \<noteq> SLEEPING" by blast
  note e = rq_env_proc [OF G(1)]
  have "\<forall>j \<in> set ps. cpu_proc (cpus s1 c) \<noteq> Some j \<longrightarrow> lock_free (p_lock (procs s1 j))"
    by (rule Cons.IH [OF s1(2) G(2)]) (use Cons.prems(3-5) G(3,4) e(2,3) in \<open>auto\<close>)
  then show ?case using free G(3) e(2,5) by simp
qed simp

lemma sched_inv_locks: "sched_inv s m xs \<Longrightarrow> i < NPROC \<Longrightarrow> lock_free (p_lock (procs s i)) \<or> locked (p_lock (procs s i)) \<noteq> 0"
  using sched_inv_unlocked by blast

lemma sched_inv_queued: "sched_inv s m xs \<Longrightarrow> i \<in> set xs \<Longrightarrow> i < NPROC \<and> state (procs s i) = RUNNABLE"
  unfolding sched_inv_def rq_inv_def by (metis lessThan_iff subset_iff)

lemma wakeup_inv:
  assumes inv: "sched_inv s m xs" and run: "wakeup c s ch = Ok s'"
  shows "\<exists>ys. sched_inv s' m ys"
proof -
  have ns: "state (procs s i) \<noteq> SLEEPING" if "i \<in> set xs" for i using sched_inv_queued [OF inv that] by simp
  have "\<forall>i \<in> set [0..<NPROC]. cpu_proc (cpus s c) \<noteq> Some i \<longrightarrow> lock_free (p_lock (procs s i))"
    by (rule wakeup_loop_free [OF run [unfolded wakeup_def] sched_inv_rq_ok [OF inv]])
      (use sched_inv_locks [OF inv] ns in auto)
  then have free: "\<And>i. i < NPROC \<Longrightarrow> cpu_proc (cpus s c) \<noteq> Some i \<Longrightarrow> lock_free (p_lock (procs s i))" by simp
  let ?W = "woken ch (cpu_proc (cpus s c)) (procs s) [0..<NPROC]"
  obtain t where t: "wakeup c s ch = Ok t" "rq_ok c t (foldl (enq (vr t)) xs ?W)" "rq_env c (wake_all ?W (procs s)) s t"
    using wakeup_ok [OF sched_inv_rq_ok [OF inv] free ns] by blast
  have "sched_inv t m (foldl (enq (vr t)) xs ?W)"
  proof (rule sched_inv_env [OF inv t(3)])
    show "rq_inv t (foldl (enq (vr t)) xs ?W)" "lock_free (rb_lock (rbTree t))" using t(2) by (simp_all add: rq_ok_def)
    fix i
    show "p_lock (wake_all ?W (procs s) i) = p_lock (procs s i)" by (simp add: wake_all_def wake_def)
    show "state (wake_all ?W (procs s) i) = state (procs s i) \<or> state (procs s i) = SLEEPING \<and> state (wake_all ?W (procs s) i) = RUNNABLE"
      by (auto simp: wake_all_def wake_def woken_def sleeps_on_def)
    show "i \<in> set (foldl (enq (vr t)) xs ?W) \<longleftrightarrow> state (wake_all ?W (procs s) i) = RUNNABLE" if "i < NPROC"
      using inv that unfolding sched_inv_def by (auto simp: foldl_enq_set wake_all_def wake_def)
  qed
  then show ?thesis using t(1) run by auto
qed


lemma sched_inv_upd:
  assumes inv: "sched_inv s m xs"
    and "\<And>q. left (f q) = left q \<and> right (f q) = right q \<and> parentP (f q) = parentP q \<and> coloring (f q) = coloring q"
    and "\<And>q. virtualRuntime (f q) = virtualRuntime q \<and> weightValue (f q) = weightValue q"
    and f: "\<And>q. state (f q) = state q" "\<And>q. p_lock (f q) = p_lock q"
  shows "sched_inv (upd_proc i f s) m xs"
proof -
  have "rq_inv (upd_proc i f s) xs" using rq_inv_payload [of f i s xs] assms by (auto simp: sched_inv_def)
  moreover have p: "state (procs (upd_proc i f s) j) = state (procs s j)" "p_lock (procs (upd_proc i f s) j) = p_lock (procs s j)" for j
    using f by (simp_all add: upd_proc_def)
  moreover have "mode_ok d (m d) (upd_proc i f s)" for d
    by (rule mode_ok_cong [OF sched_inv_mode [OF inv]]) (simp_all add: p del: upd_proc_simps(1))
  moreover have "wait_lock (upd_proc i f s) = wait_lock s" by (simp add: upd_proc_def)
  ultimately show ?thesis using inv unfolding sched_inv_def by (simp del: upd_proc_simps(1))
qed

lemma sched_inv_after_lock: "sched_inv s m xs \<Longrightarrow> sched_inv (after_lock c s) m xs"
  by (rule sched_inv_env [OF _ rq_env_refl]) (auto simp: sched_inv_def rq_inv_cong [of "after_lock c s" s])

lemma acquire_proc:
  assumes "sched_inv s m xs" "i < NPROC" "lk_acquire c (proc_L i) s = Ok t"
  shows "lock_free (p_lock (procs s i))" "t = held c (proc_L i) s"
proof -
  show f: "lock_free (p_lock (procs s i))"
    using plk.acquire_taken [of i s c t] sched_inv_locks [OF assms(1,2)] assms(3) by auto
  then show "t = held c (proc_L i) s" using plk.acquire_ok [of i s c] assms(3) by simp
qed

text \<open>\<^verbatim>\<open>kill\<close> of the process it has found.\<close>

lemma kill_found_inv:
  assumes inv: "sched_inv s m xs" and i: "i < NPROC" "lock_free (p_lock (procs s i))"
    and run: "rbind (if state (procs s i) = SLEEPING then requeue c (held c (proc_L i) s) i else Ok (held c (proc_L i) s))
      (\<lambda>s3. lk_release c (proc_L i) s3) = Ok s'"
  shows "\<exists>ys. sched_inv s' m ys"
proof (cases "state (procs s i) = SLEEPING")
  case False
  then show ?thesis
    using run plk.release_ok [of s c i] i(2) sched_inv_rq_ok [OF inv, of c] sched_inv_after_lock [OF inv, of c]
    by (auto simp: rq_ok_def)
next
  case True
  have "i \<notin> set xs" using sched_inv_queued [OF inv, of i] True by auto
  then obtain t where t: "requeue c (held c (proc_L i) s) i = Ok (held c (proc_L i) t)" "rq_ok c t (enq (vr t) xs i)"
    "rq_env c ((procs s)(i := wake (procs s i))) s t"
    using requeue_held [OF sched_inv_rq_ok [OF inv] _ i] by blast
  have "lock_free (p_lock (procs t i))" using rq_env_proc(2) [OF t(3), of i] i(2) by (simp add: wake_def)
  then have "s' = t"
    using run True t plk.release_ok [of t c i] rq_env_stable [OF t(3)] by (simp add: rq_ok_def)
  moreover have "sched_inv t m (enq (vr t) xs i)"
    by (rule sched_inv_env [OF inv t(3)]) (use t(2) True inv in \<open>auto simp: rq_ok_def wake_def sched_inv_def\<close>)
  ultimately show ?thesis by blast
qed

lemma kill_inv:
  assumes "sched_inv s m xs" "kill_loop c s n ps = Ok (s', r)" "set ps \<subseteq> {..<NPROC}"
  shows "\<exists>ys. sched_inv s' m ys"
  using assms
proof (induction ps arbitrary: s)
  case (Cons i ps)
  have cpu: "cpu_ok (cpus s c)" using sched_inv_rq_ok [OF Cons.prems(1), of c] by (simp add: rq_ok_def)
  obtain t where t: "lk_acquire c (proc_L i) s = Ok t" using Cons.prems(2) by (cases "lk_acquire c (proc_L i) s") auto
  have i: "i < NPROC" using Cons.prems(3) by simp
  note l = acquire_proc [OF Cons.prems(1) i t]
  show ?case
  proof (cases "pid (procs s i) = n")
    case False
    then have "kill_loop c (after_lock c s) n ps = Ok (s', r)"
      using Cons.prems(2) t l plk.release_ok [OF cpu, of i] by (simp add: held_proc)
    then show ?thesis using Cons.IH [OF sched_inv_after_lock [OF Cons.prems(1)]] Cons.prems(3) by simp
  next
    case True
    let ?k = "upd_proc i (\<lambda>p. p\<lparr>killed := 1\<rparr>) s"
    have k: "sched_inv ?k m xs" by (rule sched_inv_upd [OF Cons.prems(1)]) simp_all
    have "upd_proc i (\<lambda>p. p\<lparr>killed := 1\<rparr>) t = held c (proc_L i) ?k"
      unfolding l(2) by (rule held_upd_proc) simp_all
    then have "rbind (if state (procs ?k i) = SLEEPING then requeue c (held c (proc_L i) ?k) i else Ok (held c (proc_L i) ?k))
        (\<lambda>s3. lk_release c (proc_L i) s3) = Ok s'"
      using Cons.prems(2) t True l(2)
      by (auto simp: held_proc upd_proc_def Let_def rbind_Ok_iff split: if_splits res.splits)
    then show ?thesis using kill_found_inv [OF k i] l(1) by (simp add: upd_proc_def)
  qed
qed auto


section \<open>Picking, running and leaving\<close>

text \<open>CPU \<open>c\<close> goes to mode \<open>k\<close>, and only process \<open>i\<close> and the CPU itself change.\<close>

lemma sched_inv_move:
  assumes inv: "sched_inv s m xs"
    and rq: "rq_inv s' ys" "lock_free (rb_lock (rbTree s'))" "lock_free (wait_lock s')"
    and cpu: "\<And>d. d \<noteq> c \<Longrightarrow> cpu_proc (cpus s' d) = cpu_proc (cpus s d) \<and> noff (cpus s' d) = noff (cpus s d) \<and> intr (cpus s' d) = intr (cpus s d)"
    and procs: "\<And>j. j \<noteq> i \<Longrightarrow> state (procs s' j) = state (procs s j) \<and> p_lock (procs s' j) = p_lock (procs s j)"
    and q: "\<And>j. j < NPROC \<Longrightarrow> j \<in> set ys \<longleftrightarrow> state (procs s' j) = RUNNABLE"
    and k: "mode_ok c k s'" "\<And>j. with_proc k j \<Longrightarrow> j = i" "\<And>j. with_proc (m c) j \<Longrightarrow> j = i"
    and others: "\<And>d. d \<noteq> c \<Longrightarrow> \<not> with_proc (m d) i"
    and lk: "lock_free (p_lock (procs s' i)) \<or> k = Entering i \<or> k = Leaving i"
    and run: "state (procs s' i) = RUNNING \<Longrightarrow> k = Entering i \<or> k = Executing i"
  shows "sched_inv s' (m(c := k)) ys"
proof -
  have "mode_ok d ((m(c := k)) d) s'" for d
  proof (cases "d = c")
    case False
    then show ?thesis
      using mode_ok_cong [OF sched_inv_mode [OF inv], of s' d] cpu [OF False] procs others [OF False]
      by (metis fun_upd_other)
  qed (use k(1) in simp)
  moreover have "with_proc ((m(c := k)) d) j \<Longrightarrow> with_proc ((m(c := k)) e) j \<Longrightarrow> d = e" for d e j
    using k(2) others inv unfolding sched_inv_def by (metis fun_upd_apply)
  moreover have "lock_free (p_lock (procs s' j)) \<or> (\<exists>d. (m(c := k)) d = Entering j \<or> (m(c := k)) d = Leaving j)" if "j < NPROC" for j
  proof (cases "j = i")
    case False
    have "d \<noteq> c" if "m d = Entering j \<or> m d = Leaving j" for d using that k(3) [of j] False by (auto simp: with_proc_def)
    moreover have "lock_free (p_lock (procs s j)) \<or> (\<exists>d. m d = Entering j \<or> m d = Leaving j)"
      using inv that by (simp add: sched_inv_def)
    ultimately show ?thesis using procs [OF False] by (metis fun_upd_other)
  qed (use lk in auto)
  moreover have "\<exists>d. (m(c := k)) d = Entering j \<or> (m(c := k)) d = Executing j" if "j < NPROC" "state (procs s' j) = RUNNING" for j
  proof (cases "j = i")
    case False
    have "d \<noteq> c" if "m d = Entering j \<or> m d = Executing j" for d using that k(3) [of j] False by (auto simp: with_proc_def)
    moreover have "\<exists>d. m d = Entering j \<or> m d = Executing j"
      using inv that procs [OF False] by (simp add: sched_inv_def)
    ultimately show ?thesis by (metis fun_upd_other)
  qed (use run that in auto)
  ultimately show ?thesis using rq q unfolding sched_inv_def by blast
qed

text \<open>A CPU that holds the lock of a process just before it lets go.\<close>

lemma held_form:
  assumes "noff (cpus t c) = 1" "\<not> intr (cpus t c)" "held_by c (p_lock (procs t i))"
  shows "\<exists>s. t = held c (proc_L i) s \<and> lock_free (p_lock (procs s i)) \<and> cpu_ok (cpus s c) \<and> noff (cpus s c) = 0 \<and>
    s = upd_proc i (\<lambda>p. p\<lparr>p_lock := (p_lock p)\<lparr>locked := 0, lk_cpu := None\<rparr>\<rparr>)
      (upd_cpu c (\<lambda>x. x\<lparr>noff := 0, intr := intena x\<rparr>) t)"
proof -
  define s where "s = upd_proc i (\<lambda>p. p\<lparr>p_lock := (p_lock p)\<lparr>locked := 0, lk_cpu := None\<rparr>\<rparr>)
      (upd_cpu c (\<lambda>x. x\<lparr>noff := 0, intr := intena x\<rparr>) t)"
  have lk: "(p_lock (procs t i))\<lparr>locked := 1, lk_cpu := Some c\<rparr> = p_lock (procs t i)"
    using assms(3) by (simp add: held_by_def)
  have cp: "(cpus t c)\<lparr>intr := False, noff := 1\<rparr> = cpus t c" using assms(1,2) by simp
  have "held c (proc_L i) s = t"
    using lk cp by (simp add: s_def held_def proc_L_def upd_proc_def upd_cpu_def push_off_upd)
  moreover have "lock_free (p_lock (procs s i))" "cpu_ok (cpus s c)" "noff (cpus s c) = 0"
    by (simp_all add: s_def upd_proc_def upd_cpu_def lock_free_def cpu_ok_def)
  ultimately show ?thesis using s_def by metis
qed


lemma release_form:
  assumes "noff (cpus t c) = 1" "\<not> intr (cpus t c)" "held_by c (p_lock (procs t i))" "lk_release c (proc_L i) t = Ok s'"
  shows "procs s' = (procs t)(i := (procs t i)\<lparr>p_lock := (p_lock (procs t i))\<lparr>locked := 0, lk_cpu := None\<rparr>\<rparr>)"
    "rbTree s' = rbTree t" "lock_free (p_lock (procs s' i))"
    "cpu_proc (cpus s' d) = cpu_proc (cpus t d)" "noff (cpus s' c) = 0"
    "d \<noteq> c \<Longrightarrow> cpus s' d = cpus t d" "rq_state.more s' = rq_state.more t" "rq_inv s' xs = rq_inv t xs"
proof -
  obtain s where s: "t = held c (proc_L i) s" "lock_free (p_lock (procs s i))" "cpu_ok (cpus s c)"
    "s = upd_proc i (\<lambda>p. p\<lparr>p_lock := (p_lock p)\<lparr>locked := 0, lk_cpu := None\<rparr>\<rparr>)
      (upd_cpu c (\<lambda>x. x\<lparr>noff := 0, intr := intena x\<rparr>) t)" using held_form [OF assms(1-3)] by blast
  have "s' = after_lock c s" using assms(4) s(1-3) plk.release_ok [of s c i] by simp
  then have *: "s' = after_lock c (upd_proc i (\<lambda>p. p\<lparr>p_lock := (p_lock p)\<lparr>locked := 0, lk_cpu := None\<rparr>\<rparr>)
      (upd_cpu c (\<lambda>x. x\<lparr>noff := 0, intr := intena x\<rparr>) t))" using s(4) by simp
  show "procs s' = (procs t)(i := (procs t i)\<lparr>p_lock := (p_lock (procs t i))\<lparr>locked := 0, lk_cpu := None\<rparr>\<rparr>)"
    "rbTree s' = rbTree t" "lock_free (p_lock (procs s' i))"
    "cpu_proc (cpus s' d) = cpu_proc (cpus t d)" "noff (cpus s' c) = 0" "rq_state.more s' = rq_state.more t"
    unfolding * by (simp_all add: upd_proc_def upd_cpu_def after_lock_upd lock_free_def)
  show "d \<noteq> c \<Longrightarrow> cpus s' d = cpus t d" unfolding * by (simp add: upd_proc_def upd_cpu_def after_lock_upd)
  have "rq_inv s' xs = rq_inv (upd_proc i (\<lambda>p. p\<lparr>p_lock := (p_lock p)\<lparr>locked := 0, lk_cpu := None\<rparr>\<rparr>) t) xs"
    by (rule rq_inv_cong) (simp_all add: * upd_proc_def upd_cpu_def)
  also have "\<dots> = rq_inv t xs" by (rule rq_inv_plock)
  finally show "rq_inv s' xs = rq_inv t xs" .
qed

lemma more_wait_lock: "rq_state.more s' = rq_state.more s \<Longrightarrow> wait_lock s' = wait_lock s"
  by (cases s, cases s') simp


lemma with_proc_unique: "sched_inv s m xs \<Longrightarrow> with_proc (m c) i \<Longrightarrow> d \<noteq> c \<Longrightarrow> \<not> with_proc (m d) i"
  unfolding sched_inv_def by metis

lemma with_proc_same: "with_proc k i \<Longrightarrow> with_proc k j \<Longrightarrow> j = i"
  by (auto simp: with_proc_def)

text \<open>Dropping the lock at the end of a switch, into the process or back in the scheduler.\<close>

lemma drop_inv:
  assumes inv: "sched_inv s m xs" and old: "with_proc (m c) i"
    and t: "procs t = procs s" "rbTree t = rbTree s" "rq_state.more t = rq_state.more s"
      "noff (cpus t c) = 1" "\<not> intr (cpus t c)" "held_by c (p_lock (procs s i))" "\<And>d. d \<noteq> c \<Longrightarrow> cpus t d = cpus s d"
    and run: "lk_release c (proc_L i) t = Ok s'"
    and k: "k = Idle \<and> state (procs s i) \<noteq> RUNNING \<and> cpu_proc (cpus t c) = None \<or>
      k = Executing i \<and> state (procs s i) = RUNNING \<and> i < NPROC \<and> cpu_proc (cpus t c) = Some i"
  shows "sched_inv s' (m(c := k)) xs"
proof (rule sched_inv_move [OF inv, where i = i])
  note f = release_form [OF t(4,5) _ run, unfolded t(1), OF t(6)]
  show "rq_inv s' xs" using f(8) rq_inv_cong [OF t(1,2)] inv by (simp add: sched_inv_def)
  show "lock_free (rb_lock (rbTree s'))" using f(2) t(2) inv by (simp add: sched_inv_def)
  show "lock_free (wait_lock s')" using f(7) t(3) more_wait_lock [of s' s] inv by (simp add: sched_inv_def)
  show "cpu_proc (cpus s' d) = cpu_proc (cpus s d) \<and> noff (cpus s' d) = noff (cpus s d) \<and> intr (cpus s' d) = intr (cpus s d)" if "d \<noteq> c" for d
    using f(6) t(7) that by simp
  show "state (procs s' j) = state (procs s j) \<and> p_lock (procs s' j) = p_lock (procs s j)" if "j \<noteq> i" for j
    using f(1) that by simp
  show "j \<in> set xs \<longleftrightarrow> state (procs s' j) = RUNNABLE" if "j < NPROC" for j
    using f(1) that inv by (simp add: sched_inv_def)
  show "mode_ok c k s'" using k f(1,3,5) f(4) [of c] by auto
  show "j = i" if "with_proc k j" for j using that k by (auto simp: with_proc_def)
  show "j = i" if "with_proc (m c) j" for j using that old with_proc_same by blast
  show "\<not> with_proc (m d) i" if "d \<noteq> c" for d using with_proc_unique [OF inv old that] .
  show "lock_free (p_lock (procs s' i)) \<or> k = Entering i \<or> k = Leaving i" using f(3) by simp
  show "k = Entering i \<or> k = Executing i" if "state (procs s' i) = RUNNING" using that k f(1) by auto
qed

lemma resume_inv:
  assumes inv: "sched_inv s m xs" and m: "m c = Entering i" and run: "yield_return c s (i, e) = Ok s'"
  shows "sched_inv s' (m(c := Executing i)) xs"
  by (rule drop_inv [OF inv, where t = "sched_return c s e"])
    (use sched_inv_mode [OF inv, of c] m run in \<open>auto simp: with_proc_def yield_return_def sched_return_def upd_cpu_def\<close>)

lemma back_inv:
  assumes inv: "sched_inv s m xs" and m: "m c = Leaving i" and run: "scheduler_back c s i = Ok s'"
  shows "sched_inv s' (m(c := Idle)) xs"
  by (rule drop_inv [OF inv, where t = "upd_cpu c (\<lambda>x. x\<lparr>cpu_proc := None\<rparr>) s" and i = i])
    (use sched_inv_mode [OF inv, of c] m run in \<open>auto simp: with_proc_def scheduler_back_def upd_cpu_def\<close>)

text \<open>The end of \<^verbatim>\<open>yield\<close> and \<^verbatim>\<open>sleep\<close>: \<^verbatim>\<open>sched\<close> leaves with only the process's own lock.\<close>

lemma sched_leave_form:
  assumes "sched_leave c (held c (proc_L i) s) = Ok (s', r)" "cpu_ok (cpus s c)" "cpu_proc (cpus s c) = Some i"
  shows "s' = swtch_out c i (held c (proc_L i) s)" "state (procs s i) \<noteq> RUNNING" "noff (cpus s c) = 0"
proof -
  have "myproc c (held c (proc_L i) s) = Ok (held c (proc_L i) s, Some i)"
    using assms(2,3) after_lock_nested [of "held c (proc_L i) s" c]
    by (simp add: myproc_ok held_proc push_off_ok push_off_cpu cpu_ok_def)
  then show "s' = swtch_out c i (held c (proc_L i) s)" "state (procs s i) \<noteq> RUNNING" "noff (cpus s c) = 0"
    using assms(1) by (auto simp: sched_leave_def deref_def held_proc mycpu_def push_off_cpu split: if_splits)
qed

lemma leave_inv:
  assumes inv: "sched_inv s m xs" and m: "m c = Executing i"
    and t: "rq_inv t ys" "lock_free (rb_lock (rbTree t))" "wait_lock t = wait_lock s" "lock_free (p_lock (procs t i))"
      "\<And>d. cpu_proc (cpus t d) = cpu_proc (cpus s d) \<and> noff (cpus t d) = noff (cpus s d) \<and> intr (cpus t d) = intr (cpus s d)"
      "\<And>j. j \<noteq> i \<Longrightarrow> state (procs t j) = state (procs s j) \<and> p_lock (procs t j) = p_lock (procs s j)"
      "\<And>j. j < NPROC \<Longrightarrow> j \<in> set ys \<longleftrightarrow> state (procs t j) = RUNNABLE"
    and run: "sched_leave c (held c (proc_L i) t) = Ok (s', r)"
  shows "sched_inv s' (m(c := Leaving i)) ys"
proof (rule sched_inv_move [OF inv, where i = i])
  have mo: "i < NPROC" "cpu_proc (cpus s c) = Some i" "noff (cpus s c) = 0"
    using sched_inv_mode [OF inv, of c] m by auto
  have "cpu_ok (cpus t c)" using mo(3) t(5) [of c] by (simp add: cpu_ok_def)
  note s' = sched_leave_form [OF run this]
  have f: "s' = swtch_out c i (held c (proc_L i) t)" "state (procs t i) \<noteq> RUNNING" using s' mo t(5) [of c] by auto
  have ex: "state (procs s' j) = state (procs t j) \<and>
        p_lock (procs s' j) = (if j = i then (p_lock (procs t i))\<lparr>locked := 1, lk_cpu := Some c\<rparr> else p_lock (procs t j))"
      "rbTree s' = rbTree t" "wait_lock s' = wait_lock t" "d \<noteq> c \<Longrightarrow> cpus s' d = cpus t d"
      "cpu_proc (cpus s' c) = cpu_proc (cpus t c)" "noff (cpus s' c) = noff (cpus t c) + 1" "\<not> intr (cpus s' c)" for j d
    unfolding f(1) by (auto simp: swtch_out_def held_def proc_L_def upd_proc_def upd_cpu_def push_off_upd)
  show "rq_inv s' ys"
  proof -
    have "s' = upd_cpu c (\<lambda>x. x\<lparr>hregs := cpu_context x\<rparr>) (upd_proc i (\<lambda>p. p\<lparr>p_context := hregs (cpus (held c (proc_L i) t) c)\<rparr>) (held c (proc_L i) t))"
      by (simp add: f(1) swtch_out_def)
    then have "rq_inv s' ys = rq_inv (held c (proc_L i) t) ys"
      using rq_inv_cong [of s' "upd_proc i (\<lambda>p. p\<lparr>p_context := hregs (cpus (held c (proc_L i) t) c)\<rparr>) (held c (proc_L i) t)" ys]
        rq_inv_payload [of "\<lambda>p. p\<lparr>p_context := hregs (cpus (held c (proc_L i) t) c)\<rparr>" i "held c (proc_L i) t" ys]
      by (simp add: upd_cpu_def)
    also have "\<dots> = rq_inv t ys" using rq_inv_cong [of "push_off c t" t ys] by (simp add: held_def proc_L_def)
    finally show ?thesis using t(1) by simp
  qed
  show "lock_free (rb_lock (rbTree s'))" "lock_free (wait_lock s')" using ex t(2,3) inv by (simp_all add: sched_inv_def)
  show "cpu_proc (cpus s' d) = cpu_proc (cpus s d) \<and> noff (cpus s' d) = noff (cpus s d) \<and> intr (cpus s' d) = intr (cpus s d)" if "d \<noteq> c" for d
    using ex(4) t(5) [of d] that by simp
  show "state (procs s' j) = state (procs s j) \<and> p_lock (procs s' j) = p_lock (procs s j)" if "j \<noteq> i" for j
    using ex(1) [of j] t(6) [OF that] that by simp
  show "j \<in> set ys \<longleftrightarrow> state (procs s' j) = RUNNABLE" if "j < NPROC" for j
    using ex(1) [of j] t(7) [OF that] by auto
  show "mode_ok c (Leaving i) s'"
    using mo f(2) ex(1) [of i] ex(5-7) t(5) [of c] by (simp add: held_by_def)
  show "j = i" if "with_proc (Leaving i) j" for j using that by (auto simp: with_proc_def)
  show "j = i" if "with_proc (m c) j" for j using that m by (auto simp: with_proc_def)
  show "\<not> with_proc (m d) i" if "d \<noteq> c" for d using with_proc_unique [OF inv _ that] m by (auto simp: with_proc_def)
  show "lock_free (p_lock (procs s' i)) \<or> Leaving i = Entering i \<or> Leaving i = Leaving i" by simp
  show "Leaving i = Entering i \<or> Leaving i = Executing i" if "state (procs s' i) = RUNNING"
    using that ex(1) [of i] f(2) by simp
qed


lemma rq_env_more: "rq_env c G s s' \<Longrightarrow> rq_state.more s' = rq_state.more s"
  by (auto simp: rq_env_def after_lock_upd)

lemma yield_inv:
  assumes inv: "sched_inv s m xs" and m: "m c = Executing i" and run: "yield_leave c s = Ok (s', r)"
  shows "\<exists>ys. sched_inv s' (m(c := (case r of None \<Rightarrow> Executing i | Some t \<Rightarrow> Leaving i))) ys"
proof -
  have mo: "i < NPROC" "cpu_proc (cpus s c) = Some i" "noff (cpus s c) = 0" "state (procs s i) = RUNNING" "lock_free (p_lock (procs s i))"
    using sched_inv_mode [OF inv, of c] m by auto
  have cpu: "cpu_ok (cpus s c)" using mo(3) by (simp add: cpu_ok_def)
  have i: "i \<notin> set xs" using sched_inv_queued [OF inv, of i] mo(4) by auto
  obtain t where t: "requeue c (held c (proc_L i) s) i = Ok (held c (proc_L i) t)" "rq_ok c t (enq (vr t) xs i)"
    "rq_env c ((procs s)(i := wake (procs s i))) s t"
    using requeue_held [OF sched_inv_rq_ok [OF inv] i mo(1,5)] by blast
  note e = rq_env_proc [OF t(3)]
  show ?thesis
  proof (cases "checkPreemption (held c (proc_L i) s) i (min_vRuntime (rbTree (held c (proc_L i) s))) = 1")
    case True
    then obtain x where x: "sched_leave c (held c (proc_L i) t) = Ok (s', x)" "r = Some x"
      using run mo(2,5) t(1) by (auto simp: yield_leave_def myproc_ok [OF cpu] deref_def plk.acquire_ok rbind_Ok_iff)
    have "sched_inv s' (m(c := Leaving i)) (enq (vr t) xs i)"
      by (rule leave_inv [OF inv m _ _ _ _ _ _ _ x(1)])
        (use t(2) e mo inv more_wait_lock [OF rq_env_more [OF t(3)]] in \<open>auto simp: rq_ok_def wake_def sched_inv_def\<close>)
    then show ?thesis using x(2) by auto
  next
    case False
    then have "s' = after_lock c s" "r = None"
      using run mo(2,5) cpu by (auto simp: yield_leave_def myproc_ok [OF cpu] deref_def plk.acquire_ok plk.release_ok)
    moreover have "m(c := Executing i) = m" using m by auto
    ultimately show ?thesis using sched_inv_after_lock [OF inv, of c] by auto
  qed
qed

lemma sleep_inv:
  assumes inv: "sched_inv s m xs" and m: "m c = Executing i"
    and run: "lk_acquire c wait_L s = Ok s1" "sleep_leave c s1 ch wait_L = Ok (s', t)"
  shows "sched_inv s' (m(c := Leaving i)) xs"
proof -
  have mo: "i < NPROC" "cpu_proc (cpus s c) = Some i" "noff (cpus s c) = 0" "state (procs s i) = RUNNING" "lock_free (p_lock (procs s i))"
    using sched_inv_mode [OF inv, of c] m by auto
  have cpu: "cpu_ok (cpus s c)" using mo(3) by (simp add: cpu_ok_def)
  have i: "i \<notin> set xs" using sched_inv_queued [OF inv, of i] mo(4) by auto
  have w: "lock_free (wait_lock s)" using inv by (simp add: sched_inv_def)
  have s1: "s1 = held c wait_L s" using run(1) w by (simp add: wlk.acquire_ok)
  have c1: "cpus s1 = cpus (push_off c s)" "procs s1 = procs s" by (simp_all add: s1 held_def wait_L_def)
  have my: "myproc c s1 = Ok (s1, Some i)"
    using myproc_ok [of s1 c] after_lock_nested [of s1 c] mo(2,3) cpu by (simp add: c1 push_off_cpu cpu_ok_def)
  let ?h = "held c (proc_L i) s"
  have swap: "held c (proc_L i) s1 = held c wait_L ?h"
    by (simp add: s1 held_def proc_L_def wait_L_def upd_proc_def push_off_upd)
  have "after_lock c ?h = ?h" using mo(3) by (intro after_lock_nested) (simp add: held_proc push_off_cpu)
  then have rel: "lk_release c wait_L (held c wait_L ?h) = Ok ?h"
    using wlk.release_ok [of ?h c] w cpu by (simp add: held_proc push_off_ok) (simp add: held_def proc_L_def upd_proc_def push_off_upd)
  let ?t = "upd_proc i (\<lambda>p. p\<lparr>chan := Some ch, state := SLEEPING\<rparr>) s"
  have "upd_proc i (\<lambda>p. p\<lparr>chan := Some ch, state := SLEEPING\<rparr>) ?h = held c (proc_L i) ?t"
    by (rule held_upd_proc) simp_all
  then have lv: "sched_leave c (held c (proc_L i) ?t) = Ok (s', t)"
    using run(2) my mo(5) rel by (simp add: sleep_leave_def deref_def plk.acquire_ok c1 swap)
  show ?thesis
  proof (rule leave_inv [OF inv m _ _ _ _ _ _ _ lv])
    show "rq_inv ?t xs" using inv i by (intro rq_inv_outside) (auto simp: sched_inv_def)
    show "j \<in> set xs \<longleftrightarrow> state (procs ?t j) = RUNNABLE" if "j < NPROC" for j
      using inv i that unfolding sched_inv_def by (auto simp: upd_proc_def)
  qed (use inv mo in \<open>auto simp: sched_inv_def upd_proc_def\<close>)
qed


text \<open>\<^verbatim>\<open>scheduler\<close> picks the first process of the queue.\<close>

lemma pick_taken_inv:
  assumes inv: "sched_inv s m (x # ys)" and m: "m c = Idle"
    and s2: "rq_ok c s2 ys" "rq_env c ((procs (intr_on c s))(x := (procs (intr_on c s) x)\<lparr>maximumExecutiontime := sl\<rparr>)) (intr_on c s) s2"
    and free: "lock_free (p_lock (procs s x))"
    and s': "s' = swtch_in c x (upd_cpu c (\<lambda>u. u\<lparr>cpu_proc := Some x\<rparr>) (upd_proc x (\<lambda>p. p\<lparr>state := RUNNING\<rparr>) (held c (proc_L x) s2)))"
  shows "sched_inv s' (m(c := Entering x)) ys"
proof (rule sched_inv_move [OF inv, where i = x])
  note e = rq_env_proc [OF s2(2)]
  have x: "x < NPROC" "state (procs s x) = RUNNABLE" using sched_inv_queued [OF inv, of x] by auto
  have xs: "x \<notin> set ys" using inv rq_inv_dist [of s "x # ys"] by (auto simp: sched_inv_def)
  have mo: "noff (cpus s c) = 0" using sched_inv_mode [OF inv, of c] m by simp
  have st: "state (procs s2 j) = state (procs s j)" "p_lock (procs s2 j) = p_lock (procs s j)" for j
    using e(2,3) by (auto simp: intr_on_def upd_cpu_def)
  have cp: "noff (cpus s2 d) = noff (cpus s d)" "cpu_proc (cpus s2 d) = cpu_proc (cpus s d)" for d
    using e(5,6) by (simp_all add: intr_on_def upd_cpu_def)
  have ex: "state (procs s' j) = (if j = x then RUNNING else state (procs s j))"
      "p_lock (procs s' j) = (if j = x then (p_lock (procs s x))\<lparr>locked := 1, lk_cpu := Some c\<rparr> else p_lock (procs s j))"
      "cpu_proc (cpus s' c) = Some x" "noff (cpus s' c) = 1" "\<not> intr (cpus s' c)" "rbTree s' = rbTree s2" "wait_lock s' = wait_lock s2" for j
    unfolding s' by (auto simp: swtch_in_def held_def proc_L_def upd_proc_def upd_cpu_def push_off_upd st cp mo)
  show "rq_inv s' ys"
  proof -
    have "rq_inv (upd_proc x (\<lambda>p. p\<lparr>state := RUNNING\<rparr>) (held c (proc_L x) s2)) ys"
      using rq_ok_held [OF s2(1), of x] by (subst rq_inv_payload) (simp_all add: rq_ok_def)
    then show ?thesis unfolding s' by (subst rq_inv_cong) (simp_all add: swtch_in_def upd_cpu_def)
  qed
  show "lock_free (rb_lock (rbTree s'))" using s2(1) ex(6) by (simp add: rq_ok_def)
  show "lock_free (wait_lock s')"
    using ex(7) more_wait_lock [OF rq_env_more [OF s2(2)]] inv by (simp add: sched_inv_def intr_on_def upd_cpu_def)
  show "cpu_proc (cpus s' d) = cpu_proc (cpus s d) \<and> noff (cpus s' d) = noff (cpus s d) \<and> intr (cpus s' d) = intr (cpus s d)" if "d \<noteq> c" for d
    using that cp e(7) [of d]
    by (simp add: s' swtch_in_def held_def proc_L_def upd_proc_def upd_cpu_def push_off_upd intr_on_def)
  show "state (procs s' j) = state (procs s j) \<and> p_lock (procs s' j) = p_lock (procs s j)" if "j \<noteq> x" for j using ex that by simp
  show "j \<in> set ys \<longleftrightarrow> state (procs s' j) = RUNNABLE" if "j < NPROC" for j
    using that inv xs ex(1) unfolding sched_inv_def by auto
  show "mode_ok c (Entering x) s'" using x ex by (simp add: held_by_def)
  show "j = x" if "with_proc (Entering x) j" for j using that by (auto simp: with_proc_def)
  show "j = x" if "with_proc (m c) j" for j using that m by (auto simp: with_proc_def)
  show "\<not> with_proc (m d) x" if "d \<noteq> c" for d
    using sched_inv_mode [OF inv, of d] x(2) free by (cases "m d") (auto simp: with_proc_def held_by_def lock_free_def)
  show "lock_free (p_lock (procs s' x)) \<or> Entering x = Entering x \<or> Entering x = Leaving x" by simp
  show "Entering x = Entering x \<or> Entering x = Executing x" by simp
qed

lemma sched_inv_intr_on: "sched_inv s m xs \<Longrightarrow> m c = Idle \<Longrightarrow> sched_inv (intr_on c s) m xs"
proof -
  assume inv: "sched_inv s m xs" and m: "m c = Idle"
  have "mode_ok d (m d) (intr_on c s)" for d
    using sched_inv_mode [OF inv, of d] m by (cases "d = c"; cases "m d") (auto simp: intr_on_def upd_cpu_def)
  moreover have "rq_inv (intr_on c s) xs = rq_inv s xs" by (rule rq_inv_cong) (simp_all add: intr_on_def upd_cpu_def)
  ultimately show ?thesis using inv unfolding sched_inv_def by (simp add: intr_on_def upd_cpu_def)
qed

lemma pick_inv:
  assumes inv: "sched_inv s m xs" and m: "m c = Idle" and run: "scheduler_pick c s = Ok (s', r)"
  shows "\<exists>ys. sched_inv s' (m(c := (case r of None \<Rightarrow> Idle | Some i \<Rightarrow> Entering i))) ys \<and>
    (case xs of [] \<Rightarrow> r = None | x # zs \<Rightarrow> r = Some x \<and> ys = zs)"
proof -
  have inv1: "sched_inv (intr_on c s) m xs" by (rule sched_inv_intr_on [OF inv m])
  have ok: "rq_ok c (intr_on c s) xs" by (rule sched_inv_rq_ok [OF inv1])
  show ?thesis
  proof (cases xs)
    case Nil
    then obtain s2 where s2: "retrieveProcess c (intr_on c s) = Ok (s2, None)" "rq_ok c s2 []" "rq_env c (procs (intr_on c s)) (intr_on c s) s2"
      using retrieveProcess_empty ok by blast
    have "s' = s2" "r = None" using run s2(1) by (simp_all add: scheduler_pick_def Let_def)
    moreover have "sched_inv s2 m []"
      by (rule sched_inv_env [OF inv1 s2(3)]) (use s2(2) inv1 Nil in \<open>auto simp: rq_ok_def sched_inv_def\<close>)
    moreover have "m(c := Idle) = m" using m by auto
    ultimately show ?thesis using Nil by auto
  next
    case (Cons x zs)
    have x: "x < NPROC" "state (procs (intr_on c s) x) = RUNNABLE" using sched_inv_queued [OF inv1, of x] Cons by auto
    obtain s2 where s2: "retrieveProcess c (intr_on c s) = Ok (s2, Some x)" "rq_ok c s2 zs"
      "rq_env c ((procs (intr_on c s))(x := (procs (intr_on c s) x)\<lparr>maximumExecutiontime := slice (intr_on c s) x\<rparr>)) (intr_on c s) s2"
      using retrieveProcess_ok [of c "intr_on c s" x zs] ok x(2) Cons by blast
    have lk: "p_lock (procs s2 x) = p_lock (procs s x)" "state (procs s2 x) = RUNNABLE"
      using rq_env_proc(2,3) [OF s2(3), of x] x(2) by (auto simp: intr_on_def upd_cpu_def)
    have "lk_acquire c (proc_L x) s2 \<noteq> Hang" "lk_acquire c (proc_L x) s2 \<noteq> Fault" "\<And>e. lk_acquire c (proc_L x) s2 \<noteq> Panic e"
      using run s2(1) by (auto simp: scheduler_pick_def Let_def)
    then have free: "lock_free (p_lock (procs s x))"
      using plk.acquire_taken [of x s2 c] sched_inv_locks [OF inv x(1)] lk(1) by (cases "lk_acquire c (proc_L x) s2") auto
    then have "lk_acquire c (proc_L x) s2 = Ok (held c (proc_L x) s2)" using lk(1) by (intro plk.acquire_ok) simp
    then have r: "r = Some x" "s' = swtch_in c x (upd_cpu c (\<lambda>u. u\<lparr>cpu_proc := Some x\<rparr>) (upd_proc x (\<lambda>p. p\<lparr>state := RUNNING\<rparr>) (held c (proc_L x) s2)))"
      using run s2(1) lk(2) by (auto simp: scheduler_pick_def Let_def held_proc)
    have "sched_inv s' (m(c := Entering x)) zs"
      by (rule pick_taken_inv [OF inv [unfolded Cons] m]) (fact s2 free r)+
    then show ?thesis using r(1) Cons by auto
  qed
qed

lemma sched_step_inv: "sched_step a b \<Longrightarrow> \<exists>xs. sched_inv (fst a) (snd a) xs \<Longrightarrow> \<exists>ys. sched_inv (fst b) (snd b) ys"
proof (induction rule: sched_step.induct)
  case (pick m c s s' r)
  then obtain xs where "sched_inv s m xs" by auto
  from pick_inv [OF this pick(1,2)] show ?case unfolding fst_conv snd_conv by blast
next
  case (resume m c i s e s')
  then obtain xs where "sched_inv s m xs" by auto
  from resume_inv [OF this resume(1,2)] show ?case unfolding fst_conv snd_conv by blast
next
  case (tick m c i s)
  then obtain xs where "sched_inv s m xs" by auto
  from sched_inv_upd [OF this, of "\<lambda>p. p\<lparr>currentRuntime := currentRuntime p + 1\<rparr>" i] show ?case by auto
next
  case (yield m c i s s' r)
  then obtain xs where "sched_inv s m xs" by auto
  from yield_inv [OF this yield(1,2)] show ?case unfolding fst_conv snd_conv by blast
next
  case (sleep m c i s s1 ch s' t)
  then obtain xs where "sched_inv s m xs" by auto
  from sleep_inv [OF this sleep(1-3)] show ?case unfolding fst_conv snd_conv by blast
next
  case (wakeup m c i s ch s')
  then obtain xs where "sched_inv s m xs" by auto
  from wakeup_inv [OF this wakeup(2)] show ?case by simp
next
  case (kill m c i s n s' r)
  then obtain xs where "sched_inv s m xs" by auto
  from kill_inv [OF this kill(2) [unfolded kill_def]] show ?case by (simp add: lessThan_atLeast0)
next
  case (go_back m c i s s')
  then obtain xs where "sched_inv s m xs" by auto
  from back_inv [OF this go_back(1,2)] show ?case unfolding fst_conv snd_conv by blast
qed


lemma sched_steps_inv:
  assumes "sched_step\<^sup>*\<^sup>* a b" "sched_inv (fst a) (snd a) xs"
  shows "\<exists>ys. sched_inv (fst b) (snd b) ys"
  using assms
proof (induction rule: rtranclp_induct)
  case base
  then show ?case by (rule exI)
next
  case (step b d)
  show ?case by (rule sched_step_inv [OF step(2) step(3) [OF step(4)]])
qed

lemma sched_inv_set: "sched_inv s m xs \<Longrightarrow> set xs = {i. i < NPROC \<and> state (procs s i) = RUNNABLE}"
proof -
  assume inv: "sched_inv s m xs"
  have "i < NPROC" if "i \<in> set xs" for i using that inv by (auto simp: sched_inv_def rq_inv_def)
  moreover have "i \<in> set xs \<longleftrightarrow> state (procs s i) = RUNNABLE" if "i < NPROC" for i using that inv by (simp add: sched_inv_def)
  ultimately show ?thesis by blast
qed

lemma idle_picks:
  assumes inv: "sched_inv s m xs" and idle: "m c = Idle" and some: "p < NPROC" "state (procs s p) = RUNNABLE"
    and quiet: "\<forall>d i. m d \<noteq> Entering i \<and> m d \<noteq> Leaving i"
  shows "\<exists>s' x. scheduler_pick c s = Ok (s', Some x) \<and> sched_step (s, m) (s', m(c := Entering x)) \<and>
    x < NPROC \<and> state (procs s x) = RUNNABLE \<and> state (procs s' x) = RUNNING \<and> cpu_proc (cpus s' c) = Some x \<and>
    vr s x = Min (vr s ` {i. i < NPROC \<and> state (procs s i) = RUNNABLE})"
proof -
  have "p \<in> set xs" using some sched_inv_set [OF inv] by simp
  then obtain x zs where xs: "xs = x # zs" by (cases xs) auto
  have inv1: "sched_inv (intr_on c s) m (x # zs)" using sched_inv_intr_on [OF inv idle] xs by simp
  have x: "x < NPROC" "state (procs s x) = RUNNABLE" using sched_inv_queued [OF inv, of x] xs by auto
  have free: "lock_free (p_lock (procs s x))" using inv x(1) quiet unfolding sched_inv_def by blast
  obtain s2 where s2: "retrieveProcess c (intr_on c s) = Ok (s2, Some x)"
    "rq_env c ((procs (intr_on c s))(x := (procs (intr_on c s) x)\<lparr>maximumExecutiontime := slice (intr_on c s) x\<rparr>)) (intr_on c s) s2"
    using retrieveProcess_ok [OF sched_inv_rq_ok [OF inv1]] sched_inv_queued [OF inv1, of x] by auto
  have "p_lock (procs s2 x) = p_lock (procs s x)" "state (procs s2 x) = RUNNABLE"
    using rq_env_proc(2,3) [OF s2(2), of x] x(2) by (auto simp: intr_on_def upd_cpu_def)
  then obtain s' where s': "scheduler_pick c s = Ok (s', Some x)"
    using s2(1) free by (auto simp: scheduler_pick_def Let_def plk.acquire_ok held_proc)
  obtain ys where "sched_inv s' (m(c := Entering x)) ys" using pick_inv [OF inv idle s'] by auto
  then have "mode_ok c (Entering x) s'" using sched_inv_mode [of s' "m(c := Entering x)" ys c] by simp
  moreover have "sched_step (s, m) (s', m(c := Entering x))" using sched_step.pick [of m c s s' "Some x"] idle s' by simp
  moreover have "vr s x = Min (vr s ` {i. i < NPROC \<and> state (procs s i) = RUNNABLE})"
  proof -
    have "sorted (map (vr s) (x # zs))" using inv xs by (simp add: sched_inv_def rq_inv_def)
    then have "Min (vr s ` set (x # zs)) = vr s x" by (intro Min_eqI) auto
    then show ?thesis using sched_inv_set [OF inv] unfolding xs by metis
  qed
  ultimately show ?thesis using s' x by auto
qed


section \<open>Properties\<close>



section \<open>Witnesses\<close>

definition demo_p :: pstate where
  "demo_p = io_state.extend
     (rq_state.extend (demo_rq\<lparr>procs := (\<lambda>i. zero_proc)(2 := zero_proc\<lparr>state := RUNNABLE\<rparr>)\<rparr>)
       (io_state.fields \<lparr>u_ier = 0, u_lcr = 0, u_fcr = 0, u_dll = 0, u_dlm = 0, tx_room = 0, thr_out = [], rx_in = []\<rparr>
          zero_lock [] 0 0 zero_lock False False))
     (pstate.fields zero_lock 1 zero_lock None 0 0 (\<lambda>_. 0) 0)"

lemma demo_p_simps:
  "rbTree demo_p = rbTree demo_rq" "cpus demo_p = cpus demo_rq" "wait_lock demo_p = zero_lock"
  "procs demo_p = (\<lambda>i. zero_proc)(2 := zero_proc\<lparr>state := RUNNABLE\<rparr>)"
  by (simp_all add: demo_p_def rq_state.defs io_state.defs pstate.defs)

lemma demo_p_ok: "rq_ok 0 demo_p []"
  by (simp add: rq_ok_def rq_inv_def demo_p_simps demo_rq_def rbinit_def zero_tree_def zero_lock_def zero_cpu_def
      zero_proc_def initlock_def lock_free_def cpu_ok_def rep_def latency_def NPROC_def
      exI [of _ Leaf] rbtree_inv_def)

text \<open>A machine whose four CPUs are all in the scheduler and whose process 2 waits to run.\<close>

lemma demo_sched: "\<exists>s :: pstate. sched_inv s (\<lambda>_. Idle) [2]"
proof -
  obtain s' where s': "rq_ok 0 s' (enq (vr demo_p) [] 2)"
    "rq_env 0 ((procs demo_p)(2 := with_weight (procs demo_p 2))) demo_p s'"
    using insertProcess_ok [OF demo_p_ok, of 2] by (auto simp: NPROC_def)
  have st: "state (procs s' i) = (if i = 2 then RUNNABLE else UNUSED)" "lock_free (p_lock (procs s' i))" for i
    using rq_env_proc(2,3) [OF s'(2), of i] by (auto simp: with_weight_def demo_p_simps zero_proc_def zero_lock_def lock_free_def)
  have "lock_free (wait_lock s')" using more_wait_lock [OF rq_env_more [OF s'(2)]] by (simp add: demo_p_simps zero_lock_def lock_free_def)
  moreover have "mode_ok c Idle s'" for c
    using rq_env_proc(5-7) [OF s'(2), of c] by (simp add: demo_p_simps demo_rq_def zero_cpu_def)
  ultimately show ?thesis using s'(1) st by (intro exI [of _ s']) (auto simp: sched_inv_def rq_ok_def enq_def with_proc_def)
qed

lemma demo_run: "\<exists>s s' :: pstate. sched_inv s (\<lambda>_. Idle) [2] \<and> sched_step (s, \<lambda>_. Idle) (s', (\<lambda>_. Idle)(0 := Entering 2))"
proof -
  obtain s :: pstate where s: "sched_inv s (\<lambda>_. Idle) [2]" using demo_sched by auto
  obtain s' x where "sched_step (s, \<lambda>_. Idle) (s', (\<lambda>_. Idle)(0 := Entering x))" "x < NPROC" "state (procs s x) = RUNNABLE"
    using idle_picks [OF s, where c = 0 and p = 2] sched_inv_queued [OF s, of 2] by (auto simp del: fun_upd_apply)
  moreover from this have "x = 2" using sched_inv_set [OF s] by auto
  ultimately show ?thesis using s by blast
qed



end
