(* ===== verification/Kill_Props.thy ===== *)
theory Kill_Props
  imports Sched_Props
begin

text \<open>What \<^verbatim>\<open>kill\<close> of \<^verbatim>\<open>kernel/proc.c\<close> does, on every branch.\<close>

lemma kill_loop_skip:
  assumes "cpu_ok (cpus s c)" "\<forall>i \<in> set ps. lock_free (p_lock (procs s i)) \<and> pid (procs s i) \<noteq> n"
  shows "kill_loop c s n (ps @ qs) = kill_loop c (if ps = [] then s else after_lock c s) n qs"
  using assms
proof (induction ps arbitrary: s)
  case (Cons i ps)
  have "kill_loop c s n (i # ps @ qs) = kill_loop c (after_lock c s) n (ps @ qs)"
    using Cons.prems by (simp add: plk.acquire_ok plk.release_ok held_proc)
  also have "\<dots> = kill_loop c (if ps = [] then after_lock c s else after_lock c (after_lock c s)) n qs"
    using Cons.prems by (intro Cons.IH) simp_all
  finally show ?case by simp
qed simp

text \<open>The process that is found, seen from a state in which the earlier slots have been passed.\<close>

lemma kill_loop_found:
  assumes "cpu_ok (cpus s c)" "lock_free (p_lock (procs s i))" "pid (procs s i) = n" "state (procs s i) \<noteq> SLEEPING"
  shows "kill_loop c s n (i # is) = Ok (after_lock c (upd_proc i (\<lambda>p. p\<lparr>killed := 1\<rparr>) s), 0)"
proof -
  let ?k = "upd_proc i (\<lambda>p. p\<lparr>killed := 1\<rparr>) s"
  have h: "upd_proc i (\<lambda>p. p\<lparr>killed := 1\<rparr>) (held c (proc_L i) s) = held c (proc_L i) ?k" by (rule held_upd_proc) simp_all
  have "cpus ?k = cpus s" "p_lock (procs ?k i) = p_lock (procs s i)" "state (procs ?k i) = state (procs s i)" by (simp_all add: upd_proc_def)
  then show ?thesis using assms plk.release_ok [of ?k c i]
    by (simp add: plk.acquire_ok held_proc h Let_def)
qed

lemma kill_loop_sleeper:
  assumes "rq_ok c s xs" "i \<notin> set xs" "i < NPROC" "lock_free (p_lock (procs s i))" "pid (procs s i) = n" "state (procs s i) = SLEEPING"
  shows "\<exists>s'. kill_loop c s n (i # is) = Ok (s', 0) \<and> rq_ok c s' (enq (vr s') xs i) \<and>
    rq_env c ((procs s)(i := wake ((procs s i)\<lparr>killed := 1\<rparr>))) s s'"
proof -
  let ?k = "upd_proc i (\<lambda>p. p\<lparr>killed := 1\<rparr>) s"
  have h: "upd_proc i (\<lambda>p. p\<lparr>killed := 1\<rparr>) (held c (proc_L i) s) = held c (proc_L i) ?k" by (rule held_upd_proc) simp_all
  have k: "cpus ?k = cpus s" "procs ?k = (procs s)(i := (procs s i)\<lparr>killed := 1\<rparr>)" "rbTree ?k = rbTree s" by (simp_all add: upd_proc_def)
  have "rq_ok c ?k xs" using assms(1,2) unfolding rq_ok_def k(1,3) by (auto intro: rq_inv_outside)
  then obtain t where t: "requeue c (held c (proc_L i) ?k) i = Ok (held c (proc_L i) t)" "rq_ok c t (enq (vr t) xs i)"
    "rq_env c ((procs ?k)(i := wake (procs ?k i))) ?k t" using requeue_held [of c ?k xs i] assms(2-4) k by auto
  have tl: "lock_free (p_lock (procs t i))" "cpu_ok (cpus t c)"
    using rq_env_proc(2) [OF t(3), of i] assms(4) t(2) by (simp_all add: wake_def k rq_ok_def)
  have "kill_loop c s n (i # is) = Ok (t, 0)"
    using assms(4-6) t(1) plk.release_ok [of t c i] tl rq_env_stable [OF t(3)] by (simp add: plk.acquire_ok held_proc h k Let_def)
  moreover have "rq_env c ((procs s)(i := wake ((procs s i)\<lparr>killed := 1\<rparr>))) s t"
    using t(3) by (auto simp: rq_env_def k upd_proc_def after_lock_upd)
  ultimately show ?thesis using t(2) by blast
qed

lemma rq_env_after_lock: "rq_env c G (after_lock c s) s' = rq_env c G s s'"
proof -
  have "after_lock c ((after_lock c s)\<lparr>procs := P, rbTree := T\<rparr>) = after_lock c (s\<lparr>procs := P, rbTree := T\<rparr>)" for P T
    by (simp add: after_lock_upd)
  moreover have "rbTree (after_lock c s) = rbTree s" by (simp add: after_lock_upd)
  ultimately show ?thesis by (simp add: rq_env_def)
qed

lemma find_upt_Some:
  assumes "find P [0..<n] = Some i"
  shows "i < n" "P i" "[0..<n] = [0..<i] @ i # [Suc i..<n]" "\<forall>j \<in> set [0..<i]. \<not> P j"
proof -
  show i: "i < n" "P i" "\<forall>j \<in> set [0..<i]. \<not> P j" using assms by (auto simp: find_Some_iff)
  have "[0..<n] = [0..<i] @ [i..<n]" using i(1) by (metis less_imp_le_nat upt_add_eq_append le_add_diff_inverse zero_le)
  then show "[0..<n] = [0..<i] @ i # [Suc i..<n]" using i(1) by (simp add: upt_conv_Cons)
qed

text \<open>The state after \<^verbatim>\<open>kill\<close> has found the slot \<open>i\<close>.\<close>

lemma kill_found:
  assumes ok: "rq_ok c s xs" and free: "\<forall>i < NPROC. lock_free (p_lock (procs s i))"
    and q: "\<forall>i \<in> set xs. state (procs s i) = RUNNABLE" and i: "find (\<lambda>i. pid (procs s i) = n) [0..<NPROC] = Some i"
  shows "\<exists>s'. kill c s n = Ok (s', 0) \<and> rq_ok c s' (if state (procs s i) = SLEEPING then enq (vr s') xs i else xs) \<and>
    rq_env c ((procs s)(i := (if state (procs s i) = SLEEPING then wake else id) ((procs s i)\<lparr>killed := 1\<rparr>))) s s'"
proof -
  note f = find_upt_Some [OF i]
  have cpu: "cpu_ok (cpus s c)" using ok by (simp add: rq_ok_def)
  define t where "t = (if [0..<i] = [] then s else after_lock c s)"
  have t: "t = s \<or> t = after_lock c s" by (auto simp: t_def)
  have run: "kill c s n = kill_loop c t n (i # [Suc i..<NPROC])" unfolding kill_def f(3) t_def
    by (rule kill_loop_skip [OF cpu]) (use free f(1,4) in \<open>auto\<close>)
  have tp: "procs t = procs s" "rq_ok c t xs" "after_lock c t = after_lock c s" "rbTree t = rbTree s"
    using t ok rq_ok_after_lock by auto
  show ?thesis
  proof (cases "state (procs s i) = SLEEPING")
    case True
    then have "i \<notin> set xs" using q by auto
    then obtain s' where s': "kill_loop c t n (i # [Suc i..<NPROC]) = Ok (s', 0)" "rq_ok c s' (enq (vr s') xs i)"
      "rq_env c ((procs t)(i := wake ((procs t i)\<lparr>killed := 1\<rparr>))) t s'"
      using kill_loop_sleeper [OF tp(2), of i n] True f(1,2) free tp(1) by auto
    moreover have "rq_env c G s s'" if "rq_env c G t s'" for G
      using that t by (auto simp: rq_env_after_lock)
    ultimately show ?thesis using True run tp(1) by auto
  next
    case False
    let ?k = "upd_proc i (\<lambda>p. p\<lparr>killed := 1\<rparr>)"
    have "kill c s n = Ok (after_lock c (?k t), 0)"
      unfolding run using tp False free f(1,2) by (intro kill_loop_found) (auto simp: rq_ok_def)
    moreover have "after_lock c (?k t) = after_lock c (?k s)" using t by (auto simp: upd_proc_def after_lock_upd)
    moreover have "rq_inv (?k s) xs = rq_inv s xs" by (rule rq_inv_payload) (simp_all add: upd_proc_def)
    then have "rq_ok c (after_lock c (?k s)) xs" using ok rq_ok_after_lock [of c "?k s" xs] by (simp add: rq_ok_def upd_proc_def)
    moreover have "rq_env c ((procs s)(i := (procs s i)\<lparr>killed := 1\<rparr>)) s (after_lock c (?k s))"
      unfolding rq_env_def by (intro conjI exI [of _ "(procs s)(i := (procs s i)\<lparr>killed := 1\<rparr>)"] exI [of _ "rbTree s"]) (simp_all add: upd_proc_def)
    ultimately show ?thesis using False by auto
  qed
qed

section \<open>Properties\<close>

text \<open>
  C29. \<^verbatim>\<open>kill\<close>, on a machine with no process lock held: with no slot of the given pid it returns -1 and changes nothing;
  otherwise it returns 0, marks the first such slot killed whatever its state, makes a sleeping process
  RUNNABLE and queues it with its run time accounted, and changes no other process. A slot that is
  UNUSED has pid 0, so \<^verbatim>\<open>kill(0)\<close> marks a slot that no process has.
\<close>

theorem kill_correct:
  assumes "rq_ok c s xs" "\<forall>i < NPROC. lock_free (p_lock (procs s i))" "\<forall>i \<in> set xs. state (procs s i) = RUNNABLE"
  shows "case find (\<lambda>i. pid (procs s i) = n) [0..<NPROC] of
      None \<Rightarrow> kill c s n = Ok (after_lock c s, -1)
    | Some i \<Rightarrow> \<exists>s'. kill c s n = Ok (s', 0) \<and> killed (procs s' i) = 1 \<and>
        state (procs s' i) = (if state (procs s i) = SLEEPING then RUNNABLE else state (procs s i)) \<and>
        rq_ok c s' (if state (procs s i) = SLEEPING then enq (vr s') xs i else xs) \<and>
        (\<forall>j. j \<noteq> i \<longrightarrow> payload (procs s' j) = payload (procs s j))"
proof (cases "find (\<lambda>i. pid (procs s i) = n) [0..<NPROC]")
  case None
  then have "\<forall>i \<in> set [0..<NPROC]. lock_free (p_lock (procs s i)) \<and> pid (procs s i) \<noteq> n" using assms(2) by (auto simp: find_None_iff)
  then have "kill c s n = kill_loop c (after_lock c s) n []"
    using kill_loop_skip [of s c "[0..<NPROC]" n "[]"] assms(1) by (simp add: kill_def rq_ok_def NPROC_def)
  then show ?thesis using None by simp
next
  case (Some i)
  obtain s' where s': "kill c s n = Ok (s', 0)" "rq_ok c s' (if state (procs s i) = SLEEPING then enq (vr s') xs i else xs)"
    "rq_env c ((procs s)(i := (if state (procs s i) = SLEEPING then wake else id) ((procs s i)\<lparr>killed := 1\<rparr>))) s s'"
    using kill_found [OF assms Some] by blast
  have k: "killed (procs s' i) = 1"
  proof -
    have "killed (payload (procs s' i)) = 1" using rq_env_proc(1) [OF s'(3), of i] by (simp add: wake_def payload_def split: if_splits)
    then show ?thesis by (simp add: payload_def)
  qed
  show ?thesis using Some s'(1,2) k rq_env_proc(1,3) [OF s'(3)] by (auto simp: wake_def)
qed

theorem kill_correct_witness:
  "\<exists>s s' :: pstate. state (procs s 0) = UNUSED \<and> kill 0 s 0 = Ok (s', 0) \<and> killed (procs s' 0) = 1 \<and> state (procs s' 0) = UNUSED"
proof -
  have d: "find (\<lambda>i. pid (procs demo_p i) = 0) [0..<NPROC] = Some 0" "state (procs demo_p 0) = UNUSED"
    by (simp_all add: demo_p_simps zero_proc_def NPROC_def upt_conv_Cons)
  have "\<forall>i < NPROC. lock_free (p_lock (procs demo_p i))" by (simp add: demo_p_simps zero_proc_def zero_lock_def lock_free_def)
  then show ?thesis using kill_correct [OF demo_p_ok, of 0] d by auto
qed

end
