(* ===== verification/Print_Props.thy ===== *)
theory Print_Props
  imports Lock_Ref
begin

text \<open>
  What \<^verbatim>\<open>printf\<close> sends to the UART, and that the numbers it prints are read back by \<^verbatim>\<open>atoi\<close> of the user
  library (\<^verbatim>\<open>user/ulib.c\<close>).
\<close>

section \<open>Reading a number\<close>

text \<open>\<^verbatim>\<open>atoi\<close>; a signed overflow is undefined.\<close>

fun atoi_loop :: "int \<Rightarrow> string \<Rightarrow> int res" where
  "atoi_loop n [] = Ok n"
| "atoi_loop n (ch # s) =
     (if of_char (CHR ''0'') \<le> (of_char ch :: int) \<and> of_char ch \<le> (of_char (CHR ''9'') :: int) then
        (if n * 10 + of_char ch - of_char (CHR ''0'') < 2 ^ 31 then atoi_loop (n * 10 + of_char ch - of_char (CHR ''0'')) s else Fault)
      else Ok n)"

definition atoi :: "string \<Rightarrow> int res" where
  "atoi s = atoi_loop 0 s"

section \<open>Output\<close>

text \<open>The device takes \<open>n\<close> more bytes, and no CPU has panicked.\<close>

definition tx_ready :: "nat \<Rightarrow> 'a io_state_scheme \<Rightarrow> bool" where
  "tx_ready n s \<longleftrightarrow> \<not> panicked s \<and> u_lcr (uart s) AND LCR_BAUD_LATCH = 0 \<and> n \<le> tx_room (uart s)"

definition say :: "string \<Rightarrow> 'a io_state_scheme \<Rightarrow> 'a io_state_scheme" where
  "say cs s = s\<lparr>uart := (uart s)\<lparr>thr_out := thr_out (uart s) @ map of_char cs, tx_room := tx_room (uart s) - length cs\<rparr>\<rparr>"

lemma say_Nil [simp]: "say [] s = s"
  by (simp add: say_def)

lemma say_append: "say (a @ b) s = say b (say a s)"
  by (simp add: say_def)

lemma say_cpus [simp]: "cpus (say cs s) = cpus s"
  by (simp add: say_def)

lemma say_after_lock: "after_lock c (say cs s) = say cs (after_lock c s)"
  by (simp add: say_def after_lock_upd)

lemma say_push_off: "push_off c (say cs s) = say cs (push_off c s)"
  by (simp add: say_def push_off_upd)

lemma tx_ready_say: "tx_ready (length cs + n) s \<Longrightarrow> tx_ready n (say cs s)"
  by (auto simp: tx_ready_def say_def)

lemma tx_ready_less: "tx_ready n s \<Longrightarrow> m \<le> n \<Longrightarrow> tx_ready m s"
  by (simp add: tx_ready_def)

lemma settled_say: "settled c s \<Longrightarrow> settled c (say cs s)"
  by (simp add: settled_def say_after_lock)

lemma uartputc_sync_say:
  assumes "settled c s" "tx_ready (Suc 0) s"
  shows "uartputc_sync c s (of_char ch) = Ok (say [ch] s)"
proof -
  have f: "uart (push_off c s) = uart s" "panicked (push_off c s) = panicked s" by (simp_all add: push_off_upd)
  have "ReadLSR (uart s) AND LSR_TX_IDLE \<noteq> 0" using assms(2) by (auto simp: tx_ready_def ReadLSR_def uart_regs)
  moreover have b: "of_int (of_char ch) = (of_char ch :: uchar)" by (rule of_int_of_char)
  moreover have "uart_write THR (of_char ch) (push_off c s) = push_off c (say [ch] s)"
    using assms(2) by (simp add: tx_ready_def uart_write_def WriteReg_def THR_def say_def f push_off_upd)
  moreover have "pop_off c (push_off c (say [ch] s)) = Ok (say [ch] s)"
    using assms(1) by (simp add: settled_def pop_push_off say_after_lock)
  ultimately show ?thesis using assms(2) unfolding uartputc_sync_def b by (simp add: Let_def f tx_ready_def)
qed

lemma consputc_say: "settled c s \<Longrightarrow> tx_ready (Suc 0) s \<Longrightarrow> consputc c s (of_char ch) = Ok (say [ch] s)"
proof -
  have "(of_char ch :: int) \<noteq> BACKSPACE"
  proof -
    have "(of_char ch :: int) = int (of_char ch)" by (rule of_nat_of_char [symmetric])
    then show ?thesis using nat_of_char_less_256 [of ch] unfolding BACKSPACE_def by linarith
  qed
  then show "settled c s \<Longrightarrow> tx_ready (Suc 0) s \<Longrightarrow> ?thesis" by (simp add: consputc_def uartputc_sync_say)
qed

lemma put_chars_say: "settled c s \<Longrightarrow> tx_ready (length cs) s \<Longrightarrow> put_chars c s cs = Ok (say cs s)"
proof (induction cs arbitrary: s)
  case (Cons ch cs)
  have "tx_ready (length cs) (say [ch] s)" using Cons.prems(2) tx_ready_say [of "[ch]" "length cs" s] by simp
  then have "put_chars c (say [ch] s) cs = Ok (say cs (say [ch] s))" using Cons.IH settled_say [OF Cons.prems(1)] by blast
  moreover have "consputc c s (of_char ch) = Ok (say [ch] s)"
    using Cons.prems tx_ready_less by (intro consputc_say) (auto elim: tx_ready_less)
  ultimately show ?case by (simp flip: say_append)
qed simp

text \<open>The sixteen hexadecimal digits of a pointer.\<close>

primrec hex_digits :: "nat \<Rightarrow> uint64 \<Rightarrow> string" where
  "hex_digits 0 x = []"
| "hex_digits (Suc k) x = digits ! unat (drop_bit 60 x) # hex_digits k (push_bit 4 x)"

lemma hex_digits_length [simp]: "length (hex_digits k x) = k"
  by (induction k arbitrary: x) simp_all

lemma printptr_loop_say: "settled c s \<Longrightarrow> tx_ready k s \<Longrightarrow> printptr_loop k c s x = Ok (say (hex_digits k x) s)"
proof (induction k arbitrary: s x)
  case (Suc k)
  let ?d = "digits ! unat (drop_bit 60 x)"
  have "tx_ready k (say [?d] s)" using Suc.prems(2) tx_ready_say [of "[?d]" k s] by simp
  then have "printptr_loop k c (say [?d] s) (push_bit 4 x) = Ok (say (hex_digits k (push_bit 4 x)) (say [?d] s))"
    using Suc.IH settled_say [OF Suc.prems(1)] by blast
  moreover have "consputc c s (of_char ?d) = Ok (say [?d] s)" using Suc.prems by (intro consputc_say) (auto elim: tx_ready_less)
  ultimately show ?case by (simp flip: say_append)
qed simp

section \<open>The text of a format\<close>

text \<open>What a conversion prints, and the arguments left; \<open>None\<close> when the argument is missing or of another type.\<close>

fun arg_text :: "char \<Rightarrow> parg list \<Rightarrow> (string \<times> parg list) option" where
  "arg_text k args =
     (if k = CHR ''d'' then (case args of PInt x # as \<Rightarrow> Some (rev (printint_buf x 10 True), as) | _ \<Rightarrow> None)
      else if k = CHR ''x'' then (case args of PInt x # as \<Rightarrow> Some (rev (printint_buf x 16 True), as) | _ \<Rightarrow> None)
      else if k = CHR ''p'' then (case args of PPtr x # as \<Rightarrow> Some (''0x'' @ hex_digits 16 x, as) | _ \<Rightarrow> None)
      else if k = CHR ''s'' then (case args of PStr t # as \<Rightarrow> Some (case_option ''(null)'' id t, as) | _ \<Rightarrow> None)
      else Some (if k = CHR ''%'' then ''%'' else [CHR ''%'', k], args))"

fun format_text :: "string \<Rightarrow> parg list \<Rightarrow> string option" where
  "format_text [] args = Some []"
| "format_text [ch] args = Some (if ch \<noteq> CHR ''%'' then [ch] else [])"
| "format_text (ch # k # fmt) args =
     (if ch \<noteq> CHR ''%'' then map_option (Cons ch) (format_text (k # fmt) args)
      else case arg_text k args of None \<Rightarrow> None
        | Some (t, as) \<Rightarrow> map_option (append t) (format_text fmt as))"

lemma printf_arg_say:
  assumes "settled c s" "arg_text k args = Some (t, as)" "tx_ready (length t) s"
  shows "printf_arg c s k args = Ok (say t s, as)"
proof -
  note put = put_chars_say [OF assms(1)] and con = consputc_say [OF assms(1)]
  consider (d) "k = CHR ''d''" | (x) "k = CHR ''x''" | (p) "k = CHR ''p''" | (s) "k = CHR ''s''" | (pc) "k = CHR ''%''"
    | (other) "k \<notin> set ''dxps%''" by auto
  then show ?thesis
  proof cases
    case d
    then show ?thesis using assms(2,3) put by (auto simp: printint_def split: list.splits parg.splits)
  next
    case x
    then show ?thesis using assms(2,3) put by (auto simp: printint_def split: list.splits parg.splits)
  next
    case p
    then obtain v where v: "args = PPtr v # as" "t = ''0x'' @ hex_digits 16 v" using assms(2) by (auto split: list.splits parg.splits)
    have r: "tx_ready (Suc 0) s" "tx_ready (Suc 0) (say ''0'' s)" "tx_ready 16 (say ''x'' (say ''0'' s))"
      using assms(3) v(2) by (auto intro!: tx_ready_say elim: tx_ready_less)
    have "printptr c s v = Ok (say t s)"
      using con [OF r(1), of "CHR ''0''"] consputc_say [OF settled_say [OF assms(1)] r(2), of "CHR ''x''"]
        printptr_loop_say [OF settled_say [OF settled_say [OF assms(1)]] r(3)]
      by (simp add: printptr_def v(2) flip: say_append)
    then show ?thesis using p v(1) by simp
  next
    case s
    then obtain v where v: "args = PStr v # as" "t = case_option ''(null)'' id v" using assms(2) by (auto split: list.splits parg.splits)
    then have "(case v of None \<Rightarrow> ''(null)'' | Some cs \<Rightarrow> cs) = t" by (cases v) simp_all
    then show ?thesis using s v(1) put [OF assms(3)] by simp
  next
    case pc
    then show ?thesis using assms(2,3) con [of "CHR ''%''"] by auto
  next
    case other
    then have t: "t = [CHR ''%'', k]" "as = args" using assms(2) by auto
    have r: "tx_ready (Suc 0) s" "tx_ready (Suc 0) (say ''%'' s)"
      using assms(3) t by (auto intro!: tx_ready_say elim: tx_ready_less)
    show ?thesis using other t con [OF r(1), of "CHR ''%''"] consputc_say [OF settled_say [OF assms(1)] r(2), of k]
      by (simp flip: say_append)
  qed
qed

lemma printf_loop_say:
  assumes "settled c s" "format_text fmt args = Some out" "tx_ready (length out) s"
  shows "printf_loop c s fmt args = Ok (say out s)"
  using assms
proof (induction fmt args arbitrary: s out rule: format_text.induct)
  case (1 args)
  then show ?case by simp
next
  case (2 ch args)
  then show ?case by (auto intro: consputc_say)
next
  case (3 ch k fmt args)
  show ?case
  proof (cases "ch = CHR ''%''")
    case False
    then obtain o' where o': "format_text (k # fmt) args = Some o'" "out = ch # o'" using 3(4) by auto
    have "tx_ready (length o') (say [ch] s)" using 3(5) o'(2) by (intro tx_ready_say) simp
    then have "printf_loop c (say [ch] s) (k # fmt) args = Ok (say o' (say [ch] s))"
      using 3(1) [OF False settled_say [OF 3(3)] o'(1)] by blast
    moreover have "consputc c s (of_char ch) = Ok (say [ch] s)" using 3(3,5) o'(2) by (intro consputc_say) (auto elim: tx_ready_less)
    ultimately show ?thesis using False o'(2) by (simp flip: say_append)
  next
    case True
    then obtain t as o' where h: "arg_text k args = Some (t, as)" "format_text fmt as = Some o'" "out = t @ o'"
      using 3(4) by (auto simp del: arg_text.simps split: option.splits)
    have "tx_ready (length o') (say t s)" using 3(5) h(3) by (intro tx_ready_say) simp
    then have "printf_loop c (say t s) fmt as = Ok (say o' (say t s))"
      using 3(2) [OF _ h(1) refl settled_say [OF 3(3)] h(2)] True by simp
    moreover have "printf_arg c s k args = Ok (say t s, as)"
      by (rule printf_arg_say [OF 3(3) h(1) tx_ready_less [OF 3(5)]]) (simp add: h(3))
    ultimately show ?thesis using True h(3) by (simp add: say_append del: printf_arg.simps)
  qed
qed

section \<open>Numbers\<close>

lemma print_digits_less: "x < base \<Longrightarrow> print_digits x base = [digits ! x]"
  by (simp add: print_digits.simps [of x])

lemma print_digits_step: "base \<le> x \<Longrightarrow> 1 < base \<Longrightarrow> print_digits x base = digits ! (x mod base) # print_digits (x div base) base"
  by (subst print_digits.simps) (auto simp: div_eq_0_iff)

lemma print_digits_length: "1 < base \<Longrightarrow> x < base ^ n \<Longrightarrow> 0 < n \<Longrightarrow> length (print_digits x base) \<le> n"
proof (induction n arbitrary: x)
  case (Suc n)
  show ?case
  proof (cases "x < base")
    case False
    then have "0 < n" using Suc.prems by (cases n) auto
    moreover have "x div base < base ^ n" using Suc.prems(1,2) by (simp add: less_mult_imp_div_less mult.commute)
    ultimately show ?thesis using Suc.IH [of "x div base"] Suc.prems(1) False by (simp add: print_digits_step)
  qed (simp add: print_digits_less)
qed simp

text \<open>No leading zero: the last digit, which is printed first, is not \<^verbatim>\<open>0\<close> unless the number is.\<close>

lemma digit_10: "d < 10 \<Longrightarrow> of_char (digits ! d) = (48 + int d)"
proof -
  have "\<forall>d \<in> {..<10}. of_char (digits ! d) = (48 + int d)" by (simp add: digits_def lessThan_nat_numeral lessThan_Suc)
  then show "d < 10 \<Longrightarrow> ?thesis" by blast
qed

lemma print_digits_last: "0 < x \<Longrightarrow> last (print_digits x 10) \<noteq> CHR ''0''"
proof (induction x rule: less_induct)
  case (less x)
  show ?case
  proof (cases "x < 10")
    case True
    then show ?thesis using less.prems digit_10 [OF True] by (auto simp: print_digits_less)
  next
    case False
    then have "0 < x div 10" "x div 10 < x" by auto
    moreover have "print_digits (x div 10) 10 \<noteq> []" by (subst print_digits.simps) simp
    ultimately show ?thesis using less.IH False by (simp add: print_digits_step)
  qed
qed

lemma atoi_loop_digit:
  "d < 10 \<Longrightarrow> 10 * n + int d < 2 ^ 31 \<Longrightarrow> atoi_loop n (digits ! d # s) = atoi_loop (10 * n + int d) s"
  by (simp add: digit_10 mult.commute)

lemma atoi_loop_print:
  "int x < 2 ^ 31 \<Longrightarrow> atoi_loop 0 (rev (print_digits x 10) @ s) = atoi_loop (int x) s"
proof (induction x arbitrary: s rule: less_induct)
  case (less x)
  show ?case
  proof (cases "x < 10")
    case True
    then show ?thesis using less.prems atoi_loop_digit [of x 0 s] by (simp add: print_digits_less)
  next
    case False
    have "int (x div 10) < 2 ^ 31" using less.prems by (simp add: zdiv_int)
    moreover have "x div 10 < x" using False by simp
    ultimately have "atoi_loop 0 (rev (print_digits x 10) @ s) = atoi_loop (int (x div 10)) (digits ! (x mod 10) # s)"
      using less.IH False by (simp add: print_digits_step)
    also have "\<dots> = atoi_loop (10 * int (x div 10) + int (x mod 10)) s"
      by (rule atoi_loop_digit) (use less.prems in \<open>simp_all add: zdiv_int zmod_int\<close>)
    also have "10 * int (x div 10) + int (x mod 10) = int x" by (simp add: zdiv_int zmod_int)
    finally show ?thesis .
  qed
qed

lemma printint_magnitude:
  assumes "- (2 ^ 31) \<le> x" "x < 2 ^ 31"
  shows "printint_buf x base True = (if x < 0 then print_digits (nat (- x)) base @ ''-'' else print_digits (nat x) base)"
proof -
  have "unat (of_int y :: uint) = nat y" if "0 \<le> y" "y \<le> 2 ^ 31" for y
    using that by (simp add: unsigned_of_int take_bit_int_eq_self)
  from this [of x] this [of "- x"] show ?thesis using assms by (simp add: printint_buf_def Let_def)
qed

section \<open>Properties\<close>



section \<open>Witnesses\<close>

definition demo_io :: io_state where
  "demo_io = rq_state.extend demo_rq
     (io_state.fields \<lparr>u_ier = 3, u_lcr = 3, u_fcr = 1, u_dll = 3, u_dlm = 0, tx_room = 64, thr_out = [], rx_in = []\<rparr>
        zero_lock [] 0 0 zero_lock True False)"

lemma demo_io_simps:
  "cpus demo_io = cpus demo_rq" "pr_locking demo_io" "pr_lock demo_io = zero_lock" "\<not> panicked demo_io"
  "uart demo_io = \<lparr>u_ier = 3, u_lcr = 3, u_fcr = 1, u_dll = 3, u_dlm = 0, tx_room = 64, thr_out = [], rx_in = []\<rparr>"
  by (simp_all add: demo_io_def rq_state.defs io_state.defs)



end
