(* ===== verification/Fs_Format.thy ===== *)
theory Fs_Format
  imports Lock_Ref
begin

text \<open>
  The on-disk format of the file system: fields of blocks, inodes, directory entries, the log header
  and the block bitmap, written and read back.
\<close>

section \<open>Fields\<close>

named_theorems block_simps

lemma st16_length [block_simps]: "length (st16 d i v) = length d"
  by (simp add: st16_def)

lemma st32_length [block_simps]: "length (st32 d i v) = length d"
  by (simp add: st32_def)

lemma ld16_st16: "i + 1 < length d \<Longrightarrow> ld16 (st16 d i v) i = v"
  unfolding ld16_def st16_def
  by (rule bit_word_eqI) (auto simp: bit_or_iff bit_push_bit_iff bit_unsigned_iff bit_ucast_iff bit_drop_bit_eq)

lemma ld32_st32: "i + 3 < length d \<Longrightarrow> ld32 (st32 d i v) i = v"
proof (rule bit_word_eqI)
  fix n assume "i + 3 < length d" "n < LENGTH(32)"
  moreover have "n < 8 \<or> 8 \<le> n \<and> n < 16 \<or> 16 \<le> n \<and> n < 24 \<or> 24 \<le> n" by linarith
  ultimately show "bit (ld32 (st32 d i v) i) n = bit v n" unfolding ld32_def st32_def
    by (auto simp: bit_or_iff bit_push_bit_iff bit_unsigned_iff bit_ucast_iff bit_drop_bit_eq)
qed

text \<open>A field is not changed by writing another.\<close>

lemma ld16_st16_other: "j + 1 < i \<or> i + 1 < j \<Longrightarrow> ld16 (st16 d i v) j = ld16 d j"
  by (auto simp: ld16_def st16_def)

lemma ld16_st32_other: "j + 1 < i \<or> i + 3 < j \<Longrightarrow> ld16 (st32 d i v) j = ld16 d j"
  by (auto simp: ld16_def st32_def)

lemma ld32_st16_other: "j + 3 < i \<or> i + 1 < j \<Longrightarrow> ld32 (st16 d i v) j = ld32 d j"
  by (auto simp: ld32_def st16_def)

lemma ld32_st32_other: "j + 3 < i \<or> i + 3 < j \<Longrightarrow> ld32 (st32 d i v) j = ld32 d j"
  by (auto simp: ld32_def st32_def)

lemmas field_simps_disk = ld16_st16 ld32_st32 ld16_st16_other ld16_st32_other ld32_st16_other ld32_st32_other

text \<open>Bytes outside the field stay.\<close>

lemma st16_nth: "j < i \<or> i + 1 < j \<Longrightarrow> st16 d i v ! j = d ! j"
  by (auto simp: st16_def)

lemma st32_nth: "j < i \<or> i + 3 < j \<Longrightarrow> st32 d i v ! j = d ! j"
  by (auto simp: st32_def)

section \<open>Inodes\<close>

lemma put_addrs_length [block_simps]: "length (put_addrs d i as) = length d"
  by (induction as arbitrary: d i) (simp_all add: block_simps)

lemma put_addrs_nth: "j < i \<or> i + 4 * length as \<le> j \<Longrightarrow> put_addrs d i as ! j = d ! j"
  by (induction as arbitrary: d i) (auto simp: st32_nth)

lemma ld16_put_addrs: "j + 1 < i \<Longrightarrow> ld16 (put_addrs d i as) j = ld16 d j"
  by (simp add: ld16_def put_addrs_nth)

lemma ld32_put_addrs: "j + 3 < i \<Longrightarrow> ld32 (put_addrs d i as) j = ld32 d j"
  by (simp add: ld32_def put_addrs_nth)

lemma get_put_addrs: "i + 4 * length as \<le> length d \<Longrightarrow> get_addrs (put_addrs d i as) i (length as) = as"
proof (induction as arbitrary: d i)
  case (Cons a as)
  then have "get_addrs (put_addrs (st32 d i a) (i + 4) as) (i + 4) (length as) = as" by (simp add: block_simps)
  moreover have "ld32 (put_addrs (st32 d i a) (i + 4) as) i = a" using Cons.prems by (simp add: ld32_put_addrs ld32_st32)
  ultimately show ?case by simp
qed simp

text \<open>Two inodes agree on what the disk holds of them.\<close>

definition same_dinode :: "inode \<Rightarrow> inode \<Rightarrow> bool" where
  "same_dinode x y \<longleftrightarrow> in_type x = in_type y \<and> in_major x = in_major y \<and> in_minor x = in_minor y \<and>
     in_nlink x = in_nlink y \<and> in_size x = in_size y \<and> in_addrs x = in_addrs y"

lemma get_put_dinode:
  assumes "k + 64 \<le> length d" "length (in_addrs ip) = NDIRECT + 1"
  shows "same_dinode (get_dinode (put_dinode d k ip) k jp) ip"
proof -
  have "get_addrs (put_dinode d k ip) (k + 12) (NDIRECT + 1) = in_addrs ip"
    using get_put_addrs [of "k + 12" "in_addrs ip"] assms by (simp add: put_dinode_def Let_def block_simps NDIRECT_def)
  then show ?thesis using assms
    by (simp add: same_dinode_def get_dinode_def put_dinode_def Let_def ld16_put_addrs ld32_put_addrs field_simps_disk block_simps)
qed

lemma put_dinode_nth:
  assumes "length (in_addrs ip) = NDIRECT + 1" "j < k \<or> k + 64 \<le> j"
  shows "put_dinode d k ip ! j = d ! j"
  using assms by (auto simp: put_dinode_def Let_def put_addrs_nth st32_nth st16_nth NDIRECT_def)

lemma dinode_slots:
  assumes "dinode_off a \<noteq> dinode_off b"
  shows "dinode_off b + 64 \<le> dinode_off a \<or> dinode_off a + 64 \<le> dinode_off b"
  using assms by (auto simp: dinode_off_def)

lemma get_addrs_cong: "(\<And>j. i \<le> j \<Longrightarrow> j < i + 4 * n \<Longrightarrow> d ! j = e ! j) \<Longrightarrow> get_addrs d i n = get_addrs e i n"
  by (induction n arbitrary: i) (simp_all add: ld32_def)

lemma get_dinode_cong: "(\<And>j. k \<le> j \<Longrightarrow> j < k + 64 \<Longrightarrow> d ! j = e ! j) \<Longrightarrow> get_dinode d k ip = get_dinode e k ip"
proof -
  assume h: "\<And>j. k \<le> j \<Longrightarrow> j < k + 64 \<Longrightarrow> d ! j = e ! j"
  then have "get_addrs d (k + 12) (NDIRECT + 1) = get_addrs e (k + 12) (NDIRECT + 1)" by (intro get_addrs_cong) (simp add: NDIRECT_def)
  then show ?thesis by (simp add: get_dinode_def ld16_def ld32_def h)
qed

section \<open>Directory entries\<close>

text \<open>The string a byte array holds.\<close>

definition cstr :: "uchar list \<Rightarrow> uchar list" where
  "cstr p = takeWhile (\<lambda>b. b \<noteq> 0) p"

lemma ch_at_drop: "ch_at p i = (case drop i p of [] \<Rightarrow> 0 | x # _ \<Rightarrow> x)"
  by (auto simp: ch_at_def split: list.splits) (metis Cons_nth_drop_Suc list.inject)

lemma cstr_drop: "cstr (drop i p) = (if ch_at p i = 0 then [] else ch_at p i # cstr (drop (Suc i) p))"
proof (cases "drop i p")
  case (Cons x xs)
  then have "drop (Suc i) p = xs" by (metis drop_Suc list.sel(3) tl_drop)
  then show ?thesis using Cons by (simp add: ch_at_drop cstr_def)
qed (simp add: ch_at_drop cstr_def)

lemma strncmp_at_eq: "strncmp_at p q i n = 0 \<longleftrightarrow> take n (cstr (drop i p)) = take n (cstr (drop i q))"
proof (induction n arbitrary: i)
  case (Suc n)
  show ?case
  proof (cases "ch_at p i \<noteq> 0 \<and> ch_at p i = ch_at q i")
    case True
    then show ?thesis using Suc [of "Suc i"] by (simp add: cstr_drop [of i])
  next
    case False
    then have "strncmp_at p q i (Suc n) = 0 \<longleftrightarrow> ch_at p i = 0 \<and> ch_at q i = 0" by (auto simp: word_uint_eq_iff)
    then show ?thesis using False by (auto simp: cstr_drop [of i])
  qed
qed simp

lemma namecmp_eq: "namecmp p q = 0 \<longleftrightarrow> take DIRSIZ (cstr p) = take DIRSIZ (cstr q)"
  using strncmp_at_eq [of p q 0 DIRSIZ] by (simp add: namecmp_def)

lemma cstr_padded:
  assumes "0 \<notin> set w" "length w \<le> n"
  shows "cstr (take n (w @ replicate n 0)) = take n w"
proof -
  have "cstr (w @ replicate k 0) = w" for k using assms(1) by (cases k) (auto simp: cstr_def takeWhile_append takeWhile_eq_all_conv)
  then show ?thesis using assms(2) by (simp add: take_replicate)
qed

lemma dirent_name: "take DIRSIZ (cstr (drop 2 (dirent_bytes name inum))) = take DIRSIZ (cstr name)"
proof -
  define w where "w = cstr name"
  have w: "0 \<notin> set w" unfolding w_def cstr_def by (auto dest: set_takeWhileD)
  have "drop 2 (dirent_bytes name inum) = take DIRSIZ (w @ replicate DIRSIZ 0)" by (simp add: dirent_bytes_def w_def cstr_def)
  moreover have "cstr (take DIRSIZ (w @ replicate DIRSIZ 0)) = take DIRSIZ w"
  proof (cases "length w \<le> DIRSIZ")
    case True
    then show ?thesis by (rule cstr_padded [OF w])
  next
    case False
    then have "take DIRSIZ (w @ replicate DIRSIZ 0) = take DIRSIZ w" by simp
    moreover have "cstr (take DIRSIZ w) = take DIRSIZ w" using w unfolding cstr_def by (auto simp: takeWhile_eq_all_conv dest: in_set_takeD)
    ultimately show ?thesis by simp
  qed
  ultimately show ?thesis by (simp add: w_def)
qed

section \<open>The block bitmap\<close>

lemma bit_set_iff: "bi div 8 < length d \<Longrightarrow> bit_set d bi \<longleftrightarrow> bit (d ! (bi div 8)) (bi mod 8)"
proof -
  have "((d ! (bi div 8)) AND push_bit (bi mod 8) 1 \<noteq> 0) \<longleftrightarrow> bit (d ! (bi div 8)) (bi mod 8)"
    by (simp add: bit_iff_and_push_bit_not_eq_0)
  then show ?thesis by (simp add: bit_set_def)
qed

lemma same_bit: "(i :: nat) div 8 = j div 8 \<Longrightarrow> i mod 8 = j mod 8 \<longleftrightarrow> i = j"
  by (metis div_mult_mod_eq)

lemma mask_bit: "bit (push_bit k 1 :: uchar) n \<longleftrightarrow> n = k \<and> n < 8"
proof -
  have "bit (push_bit k 1 :: uchar) n \<longleftrightarrow> k \<le> n \<and> n < 8 \<and> bit (1 :: uchar) (n - k)" unfolding bit_push_bit_iff by (simp add: possible_bit_word)
  also have "\<dots> \<longleftrightarrow> n = k \<and> n < 8" unfolding bit_1_iff by auto
  finally show ?thesis .
qed

lemma bit_set_mark:
  assumes "i div 8 < length d" "j div 8 < length d"
  shows "bit_set (mark_bit d i) j \<longleftrightarrow> i = j \<or> bit_set d j"
proof (cases "i div 8 = j div 8")
  case True
  have "bit_set (mark_bit d i) j \<longleftrightarrow> bit (d ! (j div 8) OR push_bit (i mod 8) 1) (j mod 8)"
    using assms True by (simp add: bit_set_iff mark_bit_def del: push_bit_of_1)
  also have "\<dots> \<longleftrightarrow> bit_set d j \<or> j mod 8 = i mod 8" using assms(2) by (simp only: bit_or_iff mask_bit bit_set_iff) simp
  finally show ?thesis using same_bit [OF True] by auto
next
  case False
  then show ?thesis using assms by (auto simp: bit_set_iff mark_bit_def)
qed

lemma mark_bit_length [block_simps]: "length (mark_bit d i) = length d"
  by (simp add: mark_bit_def)

lemma clear_bit_length [block_simps]: "length (clear_bit d i) = length d"
  by (simp add: clear_bit_def)

lemma balloc_scan_Some:
  "balloc_scan d b fsz [k..<n] = Some j \<Longrightarrow> k \<le> j \<and> j < n \<and> b + j < fsz \<and> \<not> bit_set d j \<and> (\<forall>i. k \<le> i \<longrightarrow> i < j \<longrightarrow> bit_set d i)"
proof (induction "n - k" arbitrary: k)
  case (Suc x)
  then have k: "[k..<n] = k # [Suc k..<n]" "k < n" by (simp_all add: upt_conv_Cons)
  show ?case
  proof (cases "b + k < fsz \<and> bit_set d k")
    case True
    then have "Suc k \<le> j \<and> j < n \<and> b + j < fsz \<and> \<not> bit_set d j \<and> (\<forall>i. Suc k \<le> i \<longrightarrow> i < j \<longrightarrow> bit_set d i)"
      using Suc k(1) by (intro Suc(1)) simp_all
    then show ?thesis using True by (metis Suc_leD Suc_leI le_neq_implies_less)
  qed (use Suc(3) k in \<open>auto split: if_splits\<close>)
qed simp

lemma balloc_scan_None:
  "balloc_scan d b fsz [k..<n] = None \<Longrightarrow> k \<le> i \<Longrightarrow> i < n \<Longrightarrow> b + i < fsz \<Longrightarrow> bit_set d i"
proof (induction "n - k" arbitrary: k)
  case (Suc x)
  then have k: "[k..<n] = k # [Suc k..<n]" "b + k < fsz" by (simp_all add: upt_conv_Cons)
  then have h: "bit_set d k" "balloc_scan d b fsz [Suc k..<n] = None" using Suc(3) by (simp_all split: if_splits)
  show ?case
  proof (cases "i = k")
    case False
    then show ?thesis using Suc(1) [of "Suc k"] Suc(2,4-) h(2) by simp
  qed (simp add: h)
qed simp

section \<open>Properties\<close>

text \<open>
  C24. Inodes survive the disk: what \<^verbatim>\<open>iupdate\<close> puts into an inode block is what \<^verbatim>\<open>ilock\<close> reads back, and the other
  fifteen inodes of the block are not touched.
\<close>

theorem dinode_round_trip:
  assumes "length d = BSIZE" "length (in_addrs ip) = NDIRECT + 1"
  shows "let d' = put_dinode d (dinode_off inum) ip
    in length d' = BSIZE \<and> same_dinode (get_dinode d' (dinode_off inum) jp) ip \<and>
       (\<forall>n. dinode_off n \<noteq> dinode_off inum \<longrightarrow> get_dinode d' (dinode_off n) jp = get_dinode d (dinode_off n) jp)"
proof -
  have "dinode_off inum + 64 \<le> length d"
    using assms(1) by (simp add: dinode_off_def IPB_def BSIZE_def)
  then have "same_dinode (get_dinode (put_dinode d (dinode_off inum) ip) (dinode_off inum) jp) ip" by (rule get_put_dinode [OF _ assms(2)])
  moreover have "get_dinode (put_dinode d (dinode_off inum) ip) (dinode_off n) jp = get_dinode d (dinode_off n) jp"
    if "dinode_off n \<noteq> dinode_off inum" for n
    using dinode_slots [OF that] by (intro get_dinode_cong put_dinode_nth [OF assms(2)]) auto
  moreover have "length (put_dinode d (dinode_off inum) ip) = BSIZE" using assms(1) by (simp add: put_dinode_def Let_def block_simps)
  ultimately show ?thesis by (simp add: Let_def)
qed

text \<open>
  C25. Directory entries survive the disk: the bytes that \<^verbatim>\<open>dirlink\<close> writes are 16, hold the inode number in the
  first two, and are found by \<^verbatim>\<open>dirlookup\<close> under exactly the names that agree with the given one in the
  first \<^verbatim>\<open>DIRSIZ\<close> bytes.
\<close>

theorem dirent_round_trip:
  "length (dirent_bytes name inum) = 16 \<and> ld16 (dirent_bytes name inum) 0 = inum \<and>
   (namecmp q (drop 2 (dirent_bytes name inum)) = 0 \<longleftrightarrow> take DIRSIZ (cstr q) = take DIRSIZ (cstr name))"
proof -
  have l: "length (dirent_bytes name inum) = 16" by (simp add: dirent_bytes_def DIRSIZ_def)
  have "dirent_bytes name inum = st16 (dirent_bytes name inum) 0 inum" by (simp add: dirent_bytes_def st16_def)
  then have "ld16 (dirent_bytes name inum) 0 = inum" using ld16_st16 [of 0 "dirent_bytes name inum" inum] l by simp
  then show ?thesis using l by (simp add: namecmp_eq dirent_name)
qed

text \<open>
  C26. The bitmap allocator: the scan of \<^verbatim>\<open>balloc\<close> finds the first free block of the bitmap block and no block is
  free when it finds none; marking the block makes it, and no other, used; \<^verbatim>\<open>bfree\<close>'s clearing makes it
  free again and restores the bitmap.
\<close>

theorem bitmap_allocation:
  assumes "length d = BSIZE"
  shows "(case balloc_scan d b fsz [0..<BPB] of
      None \<Rightarrow> \<forall>i < BPB. b + i < fsz \<longrightarrow> bit_set d i
    | Some bi \<Rightarrow> bi < BPB \<and> b + bi < fsz \<and> \<not> bit_set d bi \<and> (\<forall>i < bi. bit_set d i) \<and>
        (\<forall>i < BPB. bit_set (mark_bit d bi) i \<longleftrightarrow> i = bi \<or> bit_set d i) \<and>
        clear_bit (mark_bit d bi) bi = d)"
proof (cases "balloc_scan d b fsz [0..<BPB]")
  case None
  then show ?thesis using balloc_scan_None [OF None] by simp
next
  case (Some bi)
  note h = balloc_scan_Some [OF Some]
  have div: "i div 8 < length d" if "i < BPB" for i using that assms by (simp add: BPB_def BSIZE_def)
  have nb: "\<not> bit (d ! (bi div 8)) (bi mod 8)" using h div bit_set_iff [of bi d] by simp
  have "(d ! (bi div 8) OR push_bit (bi mod 8) 1) AND NOT (push_bit (bi mod 8) 1) = d ! (bi div 8)"
  proof (rule bit_word_eqI)
    fix n assume "n < LENGTH(8)"
    then show "bit ((d ! (bi div 8) OR push_bit (bi mod 8) 1) AND NOT (push_bit (bi mod 8) 1)) n = bit (d ! (bi div 8)) n"
      using nb unfolding bit_and_iff bit_or_iff bit_not_iff mask_bit by (auto simp: possible_bit_word)
  qed
  then have "clear_bit (mark_bit d bi) bi = d" using h div by (simp add: clear_bit_def mark_bit_def del: push_bit_of_1)
  moreover have "bit_set (mark_bit d bi) i \<longleftrightarrow> i = bi \<or> bit_set d i" if "i < BPB" for i
    using bit_set_mark [OF div div, of bi i] h that by auto
  ultimately show ?thesis using Some h by simp
qed

section \<open>Witnesses\<close>

definition demo_inode :: inode where
  "demo_inode = \<lparr>in_dev = 1, in_inum = 5, in_ref = 1, in_lock = initsleeplock \<lparr>sl_locked = 0, sl_lk = zero_lock, sl_name = [], sl_pid = 0\<rparr> ''inode'',
     in_valid = True, in_type = T_FILE, in_major = 0, in_minor = 0, in_nlink = 1, in_size = 2000, in_addrs = 700 # 701 # replicate 11 0\<rparr>"

theorem dinode_round_trip_witness:
  "same_dinode (get_dinode (put_dinode (replicate BSIZE 0) (dinode_off 5) demo_inode) (dinode_off 5) demo_inode) demo_inode"
  using dinode_round_trip [of "replicate BSIZE 0" demo_inode 5 demo_inode] by (simp add: Let_def demo_inode_def NDIRECT_def)

theorem bitmap_allocation_witness:
  "length (replicate BSIZE (0 :: uchar)) = BSIZE \<and>
   (case balloc_scan (replicate BSIZE 0) 0 2000 [0..<BPB] of None \<Rightarrow> False | Some bi \<Rightarrow> clear_bit (mark_bit (replicate BSIZE 0) bi) bi = replicate BSIZE 0)"
proof -
  have z: "\<not> bit_set (replicate BSIZE 0) 0" "0 < BPB" by (simp_all add: bit_set_def BSIZE_def BPB_def)
  show ?thesis using bitmap_allocation [of "replicate BSIZE 0" 0 2000] z
    by (cases "balloc_scan (replicate BSIZE 0) 0 2000 [0..<BPB]") (force, simp)
qed

end
