(* ===== verification/Path_Props.thy ===== *)
theory Path_Props
  imports Lock_Ref
begin

text \<open>Path names (\<^verbatim>\<open>skipelem\<close> and \<^verbatim>\<open>namex\<close> of \<^verbatim>\<open>kernel/fs.c\<close>): how a path is cut into elements, and that the walk along it ends.\<close>

section \<open>The elements of a path\<close>

lemma skipelem_shorter: "skipelem p = Some (name, rest) \<Longrightarrow> length rest < length p"
proof -
  assume h: "skipelem p = Some (name, rest)"
  define q where "q = dropWhile (\<lambda>b. b = slash) p"
  have q: "q \<noteq> []" "rest = dropWhile (\<lambda>b. b = slash) (dropWhile (\<lambda>b. b \<noteq> slash) q)"
    using h by (auto simp: skipelem_def Let_def q_def split: if_splits)
  have "hd q \<noteq> slash" using hd_dropWhile [of "\<lambda>b. b = slash" p] q(1) unfolding q_def by blast
  then have "dropWhile (\<lambda>b. b \<noteq> slash) q = dropWhile (\<lambda>b. b \<noteq> slash) (tl q)" using q(1) by (cases q) auto
  then have "length rest \<le> length (tl q)" using q(2) by (metis length_dropWhile_le le_trans)
  moreover have "length q \<le> length p" by (simp add: q_def length_dropWhile_le)
  ultimately show ?thesis using q(1) by (cases q) auto
qed

text \<open>All elements, by calling \<^verbatim>\<open>skipelem\<close> until it finds none.\<close>

function path_elems :: "uchar list \<Rightarrow> uchar list list" where
  "path_elems p = (case skipelem p of None \<Rightarrow> [] | Some (name, rest) \<Rightarrow> name # path_elems rest)"
  by pat_completeness auto
termination
  by (relation "measure length") (auto intro: skipelem_shorter)

declare path_elems.simps [simp del]

text \<open>The reference: cut the path at every slash and drop the empty pieces.\<close>

fun split_slash :: "uchar list \<Rightarrow> uchar list list" where
  "split_slash [] = [[]]"
| "split_slash (b # bs) =
     (if b = slash then [] # split_slash bs
      else case split_slash bs of [] \<Rightarrow> [[b]] | w # ws \<Rightarrow> (b # w) # ws)"

definition components :: "uchar list \<Rightarrow> uchar list list" where
  "components p = filter (\<lambda>w. w \<noteq> []) (split_slash p)"

lemma split_slash_ne: "split_slash p \<noteq> []"
  by (induction p) (auto split: list.splits)

lemma components_Nil [simp]: "components [] = []"
  by (simp add: components_def)

lemma components_slash: "components (slash # p) = components p"
  by (simp add: components_def)

lemma components_strip: "components (dropWhile (\<lambda>b. b = slash) p) = components p"
  by (induction p) (auto simp: components_slash)

lemma split_slash_elem: "slash \<notin> set e \<Longrightarrow> split_slash (e @ slash # r) = e # split_slash r"
  by (induction e) auto

lemma split_slash_last: "slash \<notin> set e \<Longrightarrow> split_slash e = [e]"
  by (induction e) auto

lemma components_elem:
  assumes "p \<noteq> []" "hd p \<noteq> slash"
  shows "components p = takeWhile (\<lambda>b. b \<noteq> slash) p # components (dropWhile (\<lambda>b. b \<noteq> slash) p)"
proof -
  define e r where "e = takeWhile (\<lambda>b. b \<noteq> slash) p" and "r = dropWhile (\<lambda>b. b \<noteq> slash) p"
  have p: "p = e @ r" by (simp add: e_def r_def)
  have e: "slash \<notin> set e" "e \<noteq> []" using assms unfolding e_def by (auto dest: set_takeWhileD simp: takeWhile_eq_Nil_iff)
  have "components p = e # components r"
  proof (cases r)
    case Nil
    then show ?thesis using p e split_slash_last [OF e(1)] by (simp add: components_def)
  next
    case (Cons x xs)
    then have x: "x = slash" using hd_dropWhile [of "\<lambda>b. b \<noteq> slash" p] unfolding r_def by simp
    then show ?thesis using p Cons e split_slash_elem [OF e(1), of xs] by (simp add: components_def)
  qed
  then show ?thesis by (simp add: e_def r_def)
qed

lemma path_elems_components: "path_elems p = map (take DIRSIZ) (components p)"
proof (induction p rule: path_elems.induct)
  case (1 p)
  define q where "q = dropWhile (\<lambda>b. b = slash) p"
  have cq: "components p = components q" by (simp add: q_def components_strip)
  show ?case
  proof (cases "q = []")
    case True
    then have "skipelem p = None" by (simp add: skipelem_def Let_def q_def)
    then show ?thesis using True cq by (simp add: path_elems.simps)
  next
    case False
    let ?rest = "dropWhile (\<lambda>b. b = slash) (dropWhile (\<lambda>b. b \<noteq> slash) q)"
    have s: "skipelem p = Some (take DIRSIZ (takeWhile (\<lambda>b. b \<noteq> slash) q), ?rest)"
      using False by (simp add: skipelem_def Let_def q_def)
    have "hd q \<noteq> slash" using hd_dropWhile [of "\<lambda>b. b = slash" p] False unfolding q_def by blast
    then have "components p = takeWhile (\<lambda>b. b \<noteq> slash) q # components ?rest"
      using components_elem [OF False] cq by (simp add: components_strip)
    then show ?thesis using 1 [OF s refl] s by (subst path_elems.simps) simp
  qed
qed

section \<open>The walk ends\<close>

lemma namex_loop_fuel:
  fixes s :: "'a fstate_scheme"
  shows "length p < j \<Longrightarrow> length p < k \<Longrightarrow> namex_loop j c s ip p par nm = namex_loop k c s ip p par nm"
proof (induction j arbitrary: k s ip p nm)
  case (Suc j)
  then obtain k' where k: "k = Suc k'" by (cases k) auto
  show ?case
  proof (cases "skipelem p")
    case (Some er)
    then obtain e r where er: "skipelem p = Some (e, r)" by (cases er) auto
    have "length r < j" "length r < k'" using skipelem_shorter [OF er] Suc.prems k by auto
    then have "namex_loop j c s' i r par e = namex_loop k' c s' i r par e" for s' :: "'a fstate_scheme" and i by (rule Suc.IH)
    then show ?thesis using er k by (simp cong: if_cong option.case_cong)
  qed (simp add: k)
qed simp

section \<open>Properties\<close>

text \<open>
  C27. A path names its elements: calling \<^verbatim>\<open>skipelem\<close> until it finds no element yields the pieces of the path
  between slashes, without the empty ones, in order, each cut to \<^verbatim>\<open>DIRSIZ\<close> bytes. Leading, repeated and
  trailing slashes make no difference.
\<close>

theorem skipelem_splits: "path_elems p = map (take DIRSIZ) (components p)"
  by (rule path_elems_components)

text \<open>
  C28. The walk of \<^verbatim>\<open>namex\<close> ends: every round of its loop leaves a shorter path, so a number of rounds that exceeds
  the length of the path is never used up, and more rounds would give the same result; the walk that
  finds no further element returns.
\<close>

theorem namex_terminates:
  "(\<forall>name rest. skipelem p = Some (name, rest) \<longrightarrow> length rest < length p) \<and>
   (\<forall>k > length p. namex_loop k c s ip p par nm = namex_loop (length p + 2) c s ip p par nm) \<and>
   (components p = [] \<longrightarrow> namex_loop (length p + 2) c s ip p False nm = Ok (s, Some (ip, nm)))"
proof -
  have "skipelem p = None" if "components p = []"
    using path_elems_components [of p] that by (simp add: path_elems.simps [of p] split: option.splits prod.splits)
  then have "namex_loop (length p + 2) c s ip p False nm = Ok (s, Some (ip, nm))" if "components p = []" using that by simp
  moreover have "namex_loop k c s ip p par nm = namex_loop (length p + 2) c s ip p par nm" if "length p < k" for k
    using that by (intro namex_loop_fuel) simp_all
  ultimately show ?thesis using skipelem_shorter by blast
qed

theorem namex_terminates_witness:
  "\<forall>s :: fstate. namex_loop 9 0 s 3 [slash, slash] False [] = Ok (s, Some (3, []))"
proof
  fix s :: fstate
  have "components [slash, slash] = []" by (simp add: components_def)
  then have "namex_loop (length [slash, slash] + 2) 0 s 3 [slash, slash] False [] = Ok (s, Some (3, []))"
    "namex_loop 9 0 s 3 [slash, slash] False [] = namex_loop (length [slash, slash] + 2) 0 s 3 [slash, slash] False []"
    using namex_terminates [of "[slash, slash]" 0 s 3 False "[]"] by (simp_all del: namex_loop.simps)
  then show "namex_loop 9 0 s 3 [slash, slash] False [] = Ok (s, Some (3, []))" by (rule trans [rotated])
qed

end
