(* ===== verification/Grep.thy ===== *)
theory Grep
  imports Main
begin

text \<open>
  The user program \<^verbatim>\<open>user/grep.c\<close>: the regular expression matcher and the loop that cuts the input into
  lines. Strings are the bytes before their terminator.
\<close>

section \<open>The matcher\<close>

function (sequential) matchhere :: "string \<Rightarrow> string \<Rightarrow> bool" and matchstar :: "char \<Rightarrow> string \<Rightarrow> string \<Rightarrow> bool" where
  "matchhere [] tx = True"
| "matchhere (c # re) tx =
     (if re \<noteq> [] \<and> hd re = CHR ''*'' then matchstar c (tl re) tx
      else if c = CHR ''$'' \<and> re = [] then tx = []
      else if tx \<noteq> [] \<and> (c = CHR ''.'' \<or> c = hd tx) then matchhere re (tl tx)
      else False)"
| "matchstar c re tx =
     (if matchhere re tx then True
      else if tx \<noteq> [] \<and> (hd tx = c \<or> c = CHR ''.'') then matchstar c re (tl tx)
      else False)"
  by pat_completeness auto

termination
  by (relation "measures [\<lambda>x. case x of Inl (re, tx) \<Rightarrow> 2 * length re | Inr (c, re, tx) \<Rightarrow> Suc (2 * length re),
       \<lambda>x. case x of Inl (re, tx) \<Rightarrow> length tx | Inr (c, re, tx) \<Rightarrow> length tx]")
    (auto simp: neq_Nil_conv)

declare matchhere.simps(2) [simp del] matchstar.simps [simp del]

fun match_from :: "string \<Rightarrow> string \<Rightarrow> bool" where
  "match_from re [] = matchhere re []"
| "match_from re (x # tx) = (if matchhere re (x # tx) then True else match_from re tx)"

definition match :: "string \<Rightarrow> string \<Rightarrow> bool" where
  "match re tx = (if re \<noteq> [] \<and> hd re = CHR ''^'' then matchhere (tl re) tx else match_from re tx)"

section \<open>The reader of lines\<close>

text \<open>
  The inner loop on the bytes in the buffer: for each complete line, what is written to the standard
  output; and the bytes left when there is no further newline before a zero byte.
\<close>

function grep_lines :: "string \<Rightarrow> string \<Rightarrow> string \<times> string" where
  "grep_lines pattern p =
     (let line = takeWhile (\<lambda>x. x \<noteq> CHR 0x0A \<and> x \<noteq> CHR 0x00) p; q = dropWhile (\<lambda>x. x \<noteq> CHR 0x0A \<and> x \<noteq> CHR 0x00) p
      in if q = [] \<or> hd q = CHR 0x00 then ([], p)
         else case grep_lines pattern (tl q) of (out, rest) \<Rightarrow>
           (if match pattern line then line @ [CHR 0x0A] @ out else out, rest))"
  by pat_completeness auto

termination
proof (relation "measure (\<lambda>(_, p). length p)")
  fix pattern p x and q :: string
  assume "q = dropWhile (\<lambda>x. x \<noteq> CHR 0x0A \<and> x \<noteq> CHR 0x00) p" "\<not> (q = [] \<or> hd q = CHR 0x00)"
  then have "length (tl q) < length q" "length q \<le> length p" by (simp_all add: length_dropWhile_le)
  then show "((pattern, tl q), (pattern, p)) \<in> measure (\<lambda>(_, p). length p)" by simp
qed simp

declare grep_lines.simps [simp del]

definition bufsize :: nat where "bufsize = 1024"

text \<open>
  The outer loop. \<open>chunks\<close> is what the calls of \<^verbatim>\<open>read\<close> would return if the buffer had room; a call with
  room for fewer bytes leaves the others for the next. The loop ends when \<^verbatim>\<open>read\<close> returns 0, which it
  does at the end of the file and when there is no room.
\<close>

function grep_loop :: "string \<Rightarrow> string \<Rightarrow> string list \<Rightarrow> string" where
  "grep_loop pattern held [] = []"
| "grep_loop pattern held (chunk # chunks) =
     (let room = bufsize - length held - 1; got = take room chunk; left = drop room chunk
      in if got = [] then []
         else case grep_lines pattern (held @ got) of (out, rest) \<Rightarrow>
           out @ grep_loop pattern rest (if left = [] then chunks else left # chunks))"
  by pat_completeness auto

termination
  by (relation "measure (\<lambda>(_, _, cs). sum_list (map length cs) + length cs)") (auto simp: neq_Nil_conv Let_def)

definition grep :: "string \<Rightarrow> string list \<Rightarrow> string" where
  "grep pattern chunks = grep_loop pattern [] chunks"

section \<open>The language of a pattern\<close>

text \<open>A pattern as a sequence of atoms, and whether it ends in the anchor \<^verbatim>\<open>$\<close>.\<close>

datatype atom = One char | Star char

definition accepts :: "char \<Rightarrow> char \<Rightarrow> bool" where
  "accepts c x \<longleftrightarrow> c = CHR ''.'' \<or> c = x"

fun parse_re :: "string \<Rightarrow> atom list \<times> bool" where
  "parse_re [] = ([], False)"
| "parse_re [c] = (if c = CHR ''$'' then ([], True) else ([One c], False))"
| "parse_re (c # d # re) =
     (if d = CHR ''*'' then apfst (Cons (Star c)) (parse_re re) else apfst (Cons (One c)) (parse_re (d # re)))"

fun lang :: "atom list \<Rightarrow> string set" where
  "lang [] = {[]}"
| "lang (One c # as) = {x # w | x w. accepts c x \<and> w \<in> lang as}"
| "lang (Star c # as) = {u @ w | u w. (\<forall>x \<in> set u. accepts c x) \<and> w \<in> lang as}"

text \<open>The tx begins with a word of the pattern, and ends there when the pattern says so.\<close>

definition begins :: "string \<Rightarrow> string \<Rightarrow> bool" where
  "begins re tx \<longleftrightarrow> (\<exists>u v. tx = u @ v \<and> u \<in> lang (fst (parse_re re)) \<and> (snd (parse_re re) \<longrightarrow> v = []))"

lemma begins_Nil: "begins [] tx"
  by (simp add: begins_def)

lemma begins_star_iff:
  "begins (c # CHR ''*'' # re) tx \<longleftrightarrow> (\<exists>u t. tx = u @ t \<and> (\<forall>x \<in> set u. accepts c x) \<and> begins re t)" (is "?l \<longleftrightarrow> ?r")
proof
  assume ?l
  then obtain u' v where h: "tx = u' @ v" "u' \<in> lang (fst (parse_re (c # CHR ''*'' # re)))"
    "snd (parse_re (c # CHR ''*'' # re)) \<longrightarrow> v = []"
    unfolding begins_def by blast
  then obtain u w where "u' = u @ w" "\<forall>x \<in> set u. accepts c x" "w \<in> lang (fst (parse_re re))" by auto
  then show ?r using h unfolding begins_def by (intro exI [of _ u] exI [of _ "w @ v"]) auto
next
  assume ?r
  then obtain u w v where "tx = u @ w @ v" "\<forall>x \<in> set u. accepts c x" "w \<in> lang (fst (parse_re re))" "snd (parse_re re) \<longrightarrow> v = []"
    unfolding begins_def by blast
  then show ?l unfolding begins_def by (intro exI [of _ "u @ w"] exI [of _ v]) auto
qed

lemma begins_star: "begins (c # CHR ''*'' # re) tx \<longleftrightarrow>
    begins re tx \<or> (\<exists>x t. tx = x # t \<and> accepts c x \<and> begins (c # CHR ''*'' # re) t)" (is "?l \<longleftrightarrow> ?r")
proof
  assume ?l
  then obtain u t where h: "tx = u @ t" "\<forall>x \<in> set u. accepts c x" "begins re t" unfolding begins_star_iff by blast
  show ?r
  proof (cases u)
    case (Cons x u')
    then have "begins (c # CHR ''*'' # re) (u' @ t)" using h unfolding begins_star_iff by auto
    then show ?thesis using Cons h(1,2) by auto
  qed (simp add: h)
next
  assume ?r
  then show ?l
  proof
    assume "begins re tx"
    then show ?l unfolding begins_star_iff by (intro exI [of _ "[]"] exI [of _ tx]) simp
  next
    assume "\<exists>x t. tx = x # t \<and> accepts c x \<and> begins (c # CHR ''*'' # re) t"
    then obtain x u t where "tx = x # u @ t" "accepts c x" "\<forall>x \<in> set u. accepts c x" "begins re t"
      unfolding begins_star_iff by blast
    then show ?l unfolding begins_star_iff by (intro exI [of _ "x # u"] exI [of _ t]) simp
  qed
qed

lemma begins_dollar: "begins ''$'' tx \<longleftrightarrow> tx = []"
  by (auto simp: begins_def)

lemma begins_one:
  assumes "re = [] \<or> hd re \<noteq> CHR ''*''" "\<not> (c = CHR ''$'' \<and> re = [])"
  shows "begins (c # re) tx \<longleftrightarrow> (\<exists>x t. tx = x # t \<and> accepts c x \<and> begins re t)"
proof -
  have "parse_re (c # re) = apfst (Cons (One c)) (parse_re re)" using assms by (cases re) auto
  then have p: "fst (parse_re (c # re)) = One c # fst (parse_re re)" "snd (parse_re (c # re)) = snd (parse_re re)" by simp_all
  show ?thesis
  proof
    assume "begins (c # re) tx"
    then obtain u v where h: "tx = u @ v" "u \<in> lang (One c # fst (parse_re re))" "snd (parse_re re) \<longrightarrow> v = []"
      unfolding begins_def p by blast
    then obtain x w where "u = x # w" "accepts c x" "w \<in> lang (fst (parse_re re))" by auto
    then show "\<exists>x t. tx = x # t \<and> accepts c x \<and> begins re t" using h(1,3) unfolding begins_def by auto
  next
    assume "\<exists>x t. tx = x # t \<and> accepts c x \<and> begins re t"
    then obtain x u v where "tx = x # u @ v" "accepts c x" "u \<in> lang (fst (parse_re re))" "snd (parse_re re) \<longrightarrow> v = []"
      unfolding begins_def by blast
    then show "begins (c # re) tx" unfolding begins_def p by (intro exI [of _ "x # u"] exI [of _ v]) simp
  qed
qed

lemma matchhere_matchstar_begins:
  "matchhere re tx = begins re tx" "matchstar c re tx = begins (c # CHR ''*'' # re) tx"
proof (induction re tx and c re tx rule: matchhere_matchstar.induct)
  case (1 tx)
  then show ?case by (simp add: begins_Nil)
next
  case (2 c re tx)
  consider (star) r where "re = CHR ''*'' # r" | (dollar) "c = CHR ''$''" "re = []" | (one) "re = [] \<or> hd re \<noteq> CHR ''*''" "\<not> (c = CHR ''$'' \<and> re = [])"
    by (cases re) auto
  then show ?case
  proof cases
    case star
    then show ?thesis using 2(1) by (simp add: matchhere.simps(2))
  next
    case dollar
    then show ?thesis by (simp add: matchhere.simps(2) begins_dollar)
  next
    case one
    then show ?thesis using 2(2) by (cases tx) (auto simp: matchhere.simps(2) begins_one accepts_def)
  qed
next
  case (3 c re tx)
  then show ?case using begins_star [of c re tx] by (cases tx) (auto simp: matchstar.simps accepts_def)
qed

lemma match_from_iff: "match_from re tx \<longleftrightarrow> (\<exists>a b. tx = a @ b \<and> matchhere re b)"
proof (induction tx)
  case (Cons x tx)
  have "(\<exists>a b. x # tx = a @ b \<and> matchhere re b) \<longleftrightarrow> matchhere re (x # tx) \<or> (\<exists>a b. tx = a @ b \<and> matchhere re b)"
    by (auto simp: Cons_eq_append_conv)
  then show ?case using Cons by simp
qed auto

section \<open>Lines\<close>

text \<open>The complete lines of a text, and what follows the last newline.\<close>

fun cut :: "string \<Rightarrow> string list \<times> string" where
  "cut [] = ([], [])"
| "cut (x # xs) =
     (case cut xs of (ls, r) \<Rightarrow>
        if x = CHR 0x0A then ([] # ls, r)
        else case ls of [] \<Rightarrow> ([], x # r) | l # ls' \<Rightarrow> ((x # l) # ls', r))"

definition show_lines :: "string \<Rightarrow> string list \<Rightarrow> string" where
  "show_lines pattern ls = concat (map (\<lambda>l. l @ [CHR 0x0A]) (filter (match pattern) ls))"

lemma cut_none: "CHR 0x0A \<notin> set p \<Longrightarrow> cut p = ([], p)"
  by (induction p) auto

lemma cut_tail: "CHR 0x0A \<notin> set (snd (cut p))"
  by (induction p) (auto split: prod.splits list.splits)

lemma cut_line: "CHR 0x0A \<notin> set l \<Longrightarrow> cut (l @ CHR 0x0A # p) = (l # fst (cut p), snd (cut p))"
  by (induction l) (auto split: prod.splits)

lemma cut_append: "cut (p @ q) = (fst (cut p) @ fst (cut (snd (cut p) @ q)), snd (cut (snd (cut p) @ q)))"
proof (induction p)
  case (Cons x p)
  then show ?case by (auto split: prod.splits list.splits)
qed simp

lemma set_snd_cut: "set (snd (cut p)) \<subseteq> set p"
  by (induction p) (auto split: prod.splits list.splits)

lemma grep_lines_cut: "CHR 0x00 \<notin> set p \<Longrightarrow> grep_lines pattern p = (show_lines pattern (fst (cut p)), snd (cut p))"
proof (induction pattern p rule: grep_lines.induct)
  case (1 pattern p)
  define line where "line = takeWhile (\<lambda>x. x \<noteq> CHR 0x0A \<and> x \<noteq> CHR 0x00) p"
  define q where "q = dropWhile (\<lambda>x. x \<noteq> CHR 0x0A \<and> x \<noteq> CHR 0x00) p"
  have p: "p = line @ q" by (simp add: line_def q_def)
  have l: "CHR 0x0A \<notin> set line" unfolding line_def by (auto dest: set_takeWhileD)
  have g: "grep_lines pattern p = (if q = [] \<or> hd q = CHR 0x00 then ([], p)
      else case grep_lines pattern (tl q) of (out, rest) \<Rightarrow> (if match pattern line then line @ [CHR 0x0A] @ out else out, rest))"
    unfolding q_def line_def by (subst grep_lines.simps) (simp add: Let_def)
  show ?case
  proof (cases "q = []")
    case True
    then show ?thesis using p l g by (simp add: cut_none show_lines_def)
  next
    case False
    have "hd q = CHR 0x0A \<or> hd q = CHR 0x00"
      using hd_dropWhile [of "\<lambda>x. x \<noteq> CHR 0x0A \<and> x \<noteq> CHR 0x00" p] False unfolding q_def by blast
    moreover have "hd q \<in> set p" using False p by (metis Un_iff hd_in_set set_append)
    ultimately have hd: "hd q = CHR 0x0A" using 1(2) by auto
    then have q: "q = CHR 0x0A # tl q" using False by (metis list.collapse)
    have "CHR 0x00 \<notin> set (tl q)" using 1(2) p q by (metis Un_iff list.set_intros(2) set_append)
    then have "grep_lines pattern (tl q) = (show_lines pattern (fst (cut (tl q))), snd (cut (tl q)))"
      using 1(1) [OF line_def q_def] False hd by simp
    moreover have "cut p = (line # fst (cut (tl q)), snd (cut (tl q)))" using cut_line [OF l, of "tl q"] p q by simp
    ultimately show ?thesis using False hd by (simp add: g show_lines_def)
  qed
qed

text \<open>The bytes kept for the next round are part of a line.\<close>

lemma held_short:
  assumes "CHR 0x0A \<notin> set p" "\<forall>l \<in> set (fst (cut (p @ q))). length l \<le> n" "length (snd (cut (p @ q))) \<le> n"
  shows "length p \<le> n"
proof (cases "fst (cut q)")
  case Nil
  then obtain r where r: "cut q = ([], r)" by (cases "cut q") auto
  have "cut (p @ q) = ([], p @ r)" using assms(1) by (induction p) (auto simp: r)
  then show ?thesis using assms(3) by simp
next
  case (Cons l ls)
  then obtain r where r: "cut q = (l # ls, r)" by (cases "cut q") auto
  have "cut (p @ q) = ((p @ l) # ls, r)" using assms(1) by (induction p) (auto simp: r)
  then show ?thesis using assms(2) by simp
qed

lemma show_lines_append: "show_lines pattern (xs @ ys) = show_lines pattern xs @ show_lines pattern ys"
  by (simp add: show_lines_def)

lemma grep_loop_cut:
  assumes "CHR 0x0A \<notin> set held" "CHR 0x00 \<notin> set (held @ concat chunks)" "[] \<notin> set chunks"
    "\<forall>l \<in> set (fst (cut (held @ concat chunks))). length l \<le> bufsize - 2" "length (snd (cut (held @ concat chunks))) \<le> bufsize - 2"
  shows "grep_loop pattern held chunks = show_lines pattern (fst (cut (held @ concat chunks)))"
  using assms
proof (induction pattern held chunks rule: grep_loop.induct)
  case (1 pattern held)
  then show ?case by (simp add: cut_none show_lines_def)
next
  case (2 pattern held chunk chunks)
  define room where "room = bufsize - length held - 1"
  define rest where "rest = snd (cut (held @ take room chunk))"
  define chunks' where "chunks' = (if drop room chunk = [] then chunks else drop room chunk # chunks)"
  have "length held \<le> bufsize - 2" by (rule held_short [OF 2(2) 2(5,6)])
  then have got: "take room chunk \<noteq> []" using 2(4) by (auto simp: room_def bufsize_def)
  have eq: "(held @ take room chunk) @ concat chunks' = held @ concat (chunk # chunks)"
  proof -
    have "concat chunks' = drop room chunk @ concat chunks" unfolding chunks'_def by (cases "drop room chunk = []") simp_all
    then have "take room chunk @ concat chunks' = chunk @ concat chunks" by (metis append.assoc append_take_drop_id)
    then show ?thesis by simp
  qed
  have c: "cut (held @ concat (chunk # chunks)) =
      (fst (cut (held @ take room chunk)) @ fst (cut (rest @ concat chunks')), snd (cut (rest @ concat chunks')))"
    unfolding eq [symmetric] rest_def by (rule cut_append)
  have gl: "grep_lines pattern (held @ take room chunk) = (show_lines pattern (fst (cut (held @ take room chunk))), rest)"
    unfolding rest_def using 2(3) by (intro grep_lines_cut) (auto dest: in_set_takeD)
  have "grep_loop pattern rest chunks' = show_lines pattern (fst (cut (rest @ concat chunks')))"
  proof (rule 2(1) [OF room_def refl refl got gl [symmetric], folded chunks'_def])
    show "CHR 0x0A \<notin> set rest" by (simp add: rest_def cut_tail)
    have "set rest \<subseteq> set (held @ take room chunk)" unfolding rest_def by (rule set_snd_cut)
    moreover have "CHR 0x00 \<notin> set ((held @ take room chunk) @ concat chunks')" unfolding eq using 2(3) by simp
    ultimately show "CHR 0x00 \<notin> set (rest @ concat chunks')" by auto
    show "[] \<notin> set chunks'" using 2(4) by (simp add: chunks'_def)
    show "\<forall>l \<in> set (fst (cut (rest @ concat chunks'))). length l \<le> bufsize - 2" using 2(5) unfolding c by simp
    show "length (snd (cut (rest @ concat chunks'))) \<le> bufsize - 2" using 2(6) unfolding c by simp
  qed
  moreover have "grep_loop pattern held (chunk # chunks) = show_lines pattern (fst (cut (held @ take room chunk))) @ grep_loop pattern rest chunks'"
    using got gl unfolding room_def chunks'_def by (subst grep_loop.simps) (simp add: Let_def)
  ultimately show ?case unfolding c by (simp add: show_lines_append)
qed

section \<open>Properties\<close>

text \<open>
  C32. The matcher decides the language of its pattern: \<^verbatim>\<open>match\<close> returns 1 exactly when some part of the text is a
  word of the pattern, at the beginning of the text if the pattern starts with \<^verbatim>\<open>^\<close> and at its end if
  the pattern ends with \<^verbatim>\<open>$\<close>.
\<close>

theorem match_correct:
  "match re tx \<longleftrightarrow>
     (let anchored = (re \<noteq> [] \<and> hd re = CHR ''^''); (as, at_end) = parse_re (if anchored then tl re else re)
      in \<exists>a u v. tx = a @ u @ v \<and> u \<in> lang as \<and> (anchored \<longrightarrow> a = []) \<and> (at_end \<longrightarrow> v = []))"
proof (cases "re \<noteq> [] \<and> hd re = CHR ''^''")
  case True
  then show ?thesis
    by (cases "parse_re (tl re)") (auto simp: match_def matchhere_matchstar_begins begins_def)
next
  case False
  then have "match re tx \<longleftrightarrow> (\<exists>a b. tx = a @ b \<and> begins re b)"
    by (auto simp: match_def match_from_iff matchhere_matchstar_begins)
  also have "\<dots> \<longleftrightarrow> (\<exists>a u v. tx = a @ u @ v \<and> u \<in> lang (fst (parse_re re)) \<and> (snd (parse_re re) \<longrightarrow> v = []))"
    unfolding begins_def by blast
  finally have m: "match re tx \<longleftrightarrow> \<dots>" .
  have a: "(re \<noteq> [] \<and> hd re = CHR ''^'') = False" using False by blast
  show ?thesis unfolding m a Let_def by (cases "parse_re re") simp
qed

theorem match_correct_witness: "match ''^a.*d$'' ''abcd'' \<and> \<not> match ''^b'' ''abcd''"
proof -
  have p: "parse_re ''a.*d$'' = ([One CHR ''a'', Star CHR ''.'', One CHR ''d''], True)" "parse_re ''b'' = ([One CHR ''b''], False)"
    by simp_all
  have "''abcd'' \<in> lang [One CHR ''a'', Star CHR ''.'', One CHR ''d'']"
    by (auto simp: accepts_def intro!: exI [of _ "''bc''"])
  then have "match ''^a.*d$'' ''abcd''" using p by (subst match_correct) (simp add: exI [of _ "[]"])
  moreover have "\<not> match ''^b'' ''abcd''" using p by (subst match_correct) (auto simp: accepts_def)
  ultimately show ?thesis ..
qed

text \<open>
  C33. However the input arrives, \<^verbatim>\<open>grep\<close> prints exactly the matching lines, in order: for an input without
  zero bytes whose lines fit in the buffer, the output does not depend on how \<^verbatim>\<open>read\<close> cuts the input
  into pieces. Text after the last newline is not examined.
\<close>

theorem grep_correct:
  assumes "[] \<notin> set chunks" "CHR 0x00 \<notin> set (concat chunks)" "cut (concat chunks) = (ls, rest)"
    "\<forall>l \<in> set (rest # ls). length l \<le> bufsize - 2"
  shows "grep pattern chunks = concat (map (\<lambda>l. l @ [CHR 0x0A]) (filter (match pattern) ls))"
  using grep_loop_cut [of "[]" chunks pattern] assms by (simp add: grep_def show_lines_def)

theorem grep_correct_witness:
  "grep ''b'' [''a'', [CHR ''b'', CHR 0x0A, CHR ''c''], [CHR 0x0A, CHR ''b'']] = [CHR ''a'', CHR ''b'', CHR 0x0A]"
proof -
  have m: "match ''b'' ''ab''" "\<not> match ''b'' ''c''" by (simp_all add: match_def matchhere.simps(2))
  show ?thesis
    using grep_correct [of "[''a'', [CHR ''b'', CHR 0x0A, CHR ''c''], [CHR 0x0A, CHR ''b'']]" "[''ab'', ''c'']" "''b''" "''b''"] m
    by (simp add: bufsize_def)
qed



end
