(* ===== verification/Trampoline.thy ===== *)
theory Trampoline
  imports Lock_Ref
begin

text \<open>
  The assembly that enters and leaves the kernel: \<^verbatim>\<open>uservec\<close> and \<^verbatim>\<open>userret\<close> of \<^verbatim>\<open>kernel/trampoline.S\<close>, and
  \<^verbatim>\<open>kernelvec\<close> and \<^verbatim>\<open>timervec\<close> of \<^verbatim>\<open>kernel/kernelvec.S\<close>, as lists of instructions with a small machine that
  runs them.
\<close>

section \<open>The machine\<close>

datatype reg = RA | SP | GP | TP | T0 | T1 | T2 | S0 | S1 | A0 | A1 | A2 | A3 | A4 | A5 | A6 | A7
  | S2 | S3 | S4 | S5 | S6 | S7 | S8 | S9 | S10 | S11 | T3 | T4 | T5 | T6

datatype csreg = Sscratch | Satp | Mscratch | Sip

datatype instr = Sd reg int reg | Ld reg int reg | Addi reg reg int | Add reg reg reg | Li reg uint64
  | Csrw csreg reg | Csrr reg csreg | Csrrw reg csreg reg | Sfence_vma | Jr reg | Sret | Mret

text \<open>
  \<open>h_next\<close> is where control goes when it leaves the list. Addresses are translated by the page table
  that \<open>satp\<close> selects: \<open>tr\<close>, which the machine provides.
\<close>

record hart =
  h_reg :: "reg \<Rightarrow> uint64"
  h_csr :: "csreg \<Rightarrow> uint64"
  h_mem :: memory
  h_next :: uint64

fun hstep :: "(uint64 \<Rightarrow> uint64 \<Rightarrow> uint64) \<Rightarrow> instr \<Rightarrow> hart \<Rightarrow> hart" where
  "hstep tr (Sd r o' b) h = h\<lparr>h_mem := store64 (h_mem h) (tr (h_csr h Satp) (h_reg h b + of_int o')) (h_reg h r)\<rparr>"
| "hstep tr (Ld r o' b) h = h\<lparr>h_reg := (h_reg h)(r := load64 (h_mem h) (tr (h_csr h Satp) (h_reg h b + of_int o')))\<rparr>"
| "hstep tr (Addi r b i) h = h\<lparr>h_reg := (h_reg h)(r := h_reg h b + of_int i)\<rparr>"
| "hstep tr (Add r a b) h = h\<lparr>h_reg := (h_reg h)(r := h_reg h a + h_reg h b)\<rparr>"
| "hstep tr (Li r v) h = h\<lparr>h_reg := (h_reg h)(r := v)\<rparr>"
| "hstep tr (Csrw x r) h = h\<lparr>h_csr := (h_csr h)(x := h_reg h r)\<rparr>"
| "hstep tr (Csrr r x) h = h\<lparr>h_reg := (h_reg h)(r := h_csr h x)\<rparr>"
| "hstep tr (Csrrw r x q) h = h\<lparr>h_reg := (h_reg h)(r := h_csr h x), h_csr := (h_csr h)(x := h_reg h q)\<rparr>"
| "hstep tr Sfence_vma h = h"
| "hstep tr (Jr r) h = h\<lparr>h_next := h_reg h r\<rparr>"
| "hstep tr Sret h = h"
| "hstep tr Mret h = h"

fun hrun :: "(uint64 \<Rightarrow> uint64 \<Rightarrow> uint64) \<Rightarrow> instr list \<Rightarrow> hart \<Rightarrow> hart" where
  "hrun tr [] h = h"
| "hrun tr (i # is) h = hrun tr is (hstep tr i h)"

section \<open>The code\<close>

definition uservec :: "instr list" where
  "uservec = [
    Csrw Sscratch A0, Li A0 TRAPFRAME, Sd RA 40 A0, Sd SP 48 A0, Sd GP 56 A0, Sd TP 64 A0, Sd T0 72 A0,
     Sd T1 80 A0, Sd T2 88 A0, Sd S0 96 A0, Sd S1 104 A0, Sd A1 120 A0, Sd A2 128 A0, Sd A3 136 A0,
     Sd A4 144 A0, Sd A5 152 A0, Sd A6 160 A0, Sd A7 168 A0, Sd S2 176 A0, Sd S3 184 A0, Sd S4 192 A0,
     Sd S5 200 A0, Sd S6 208 A0, Sd S7 216 A0, Sd S8 224 A0, Sd S9 232 A0, Sd S10 240 A0, Sd S11 248 A0,
     Sd T3 256 A0, Sd T4 264 A0, Sd T5 272 A0, Sd T6 280 A0, Csrr T0 Sscratch, Sd T0 112 A0, Ld SP 8 A0,
     Ld TP 32 A0, Ld T0 16 A0, Ld T1 0 A0, Sfence_vma, Csrw Satp T1, Sfence_vma, Jr T0]"

definition userret :: "instr list" where
  "userret = [
    Sfence_vma, Csrw Satp A0, Sfence_vma, Li A0 TRAPFRAME, Ld RA 40 A0, Ld SP 48 A0, Ld GP 56 A0,
     Ld TP 64 A0, Ld T0 72 A0, Ld T1 80 A0, Ld T2 88 A0, Ld S0 96 A0, Ld S1 104 A0, Ld A1 120 A0,
     Ld A2 128 A0, Ld A3 136 A0, Ld A4 144 A0, Ld A5 152 A0, Ld A6 160 A0, Ld A7 168 A0, Ld S2 176 A0,
     Ld S3 184 A0, Ld S4 192 A0, Ld S5 200 A0, Ld S6 208 A0, Ld S7 216 A0, Ld S8 224 A0, Ld S9 232 A0,
     Ld S10 240 A0, Ld S11 248 A0, Ld T3 256 A0, Ld T4 264 A0, Ld T5 272 A0, Ld T6 280 A0, Ld A0 112 A0,
     Sret]"

text \<open>\<^verbatim>\<open>kernelvec\<close> before and after its call of \<^verbatim>\<open>kerneltrap\<close>.\<close>

definition kernelvec_save :: "instr list" where
  "kernelvec_save = [
    Addi SP SP (-256), Sd RA 0 SP, Sd SP 8 SP, Sd GP 16 SP, Sd TP 24 SP, Sd T0 32 SP, Sd T1 40 SP,
     Sd T2 48 SP, Sd S0 56 SP, Sd S1 64 SP, Sd A0 72 SP, Sd A1 80 SP, Sd A2 88 SP, Sd A3 96 SP,
     Sd A4 104 SP, Sd A5 112 SP, Sd A6 120 SP, Sd A7 128 SP, Sd S2 136 SP, Sd S3 144 SP, Sd S4 152 SP,
     Sd S5 160 SP, Sd S6 168 SP, Sd S7 176 SP, Sd S8 184 SP, Sd S9 192 SP, Sd S10 200 SP, Sd S11 208 SP,
     Sd T3 216 SP, Sd T4 224 SP, Sd T5 232 SP, Sd T6 240 SP]"

definition kernelvec_restore :: "instr list" where
  "kernelvec_restore = [
    Ld RA 0 SP, Ld SP 8 SP, Ld GP 16 SP, Ld T0 32 SP, Ld T1 40 SP, Ld T2 48 SP, Ld S0 56 SP, Ld S1 64 SP,
     Ld A0 72 SP, Ld A1 80 SP, Ld A2 88 SP, Ld A3 96 SP, Ld A4 104 SP, Ld A5 112 SP, Ld A6 120 SP,
     Ld A7 128 SP, Ld S2 136 SP, Ld S3 144 SP, Ld S4 152 SP, Ld S5 160 SP, Ld S6 168 SP, Ld S7 176 SP,
     Ld S8 184 SP, Ld S9 192 SP, Ld S10 200 SP, Ld S11 208 SP, Ld T3 216 SP, Ld T4 224 SP, Ld T5 232 SP,
     Ld T6 240 SP, Addi SP SP (256), Sret]"

definition timervec :: "instr list" where
  "timervec = [
    Csrrw A0 Mscratch A0, Sd A1 0 A0, Sd A2 8 A0, Sd A3 16 A0, Ld A1 24 A0, Ld A2 32 A0, Ld A3 0 A1,
     Add A3 A3 A2, Sd A3 0 A1, Li A1 2, Csrw Sip A1, Ld A3 16 A0, Ld A2 8 A0, Ld A1 0 A0,
     Csrrw A0 Mscratch A0, Mret]"

section \<open>Loads and stores in a save area\<close>

text \<open>Offsets in a save area: multiples of 8 below a page.\<close>

definition slot_ok :: "uint64 \<Rightarrow> bool" where
  "slot_ok a \<longleftrightarrow> a mod 8 = 0 \<and> a < 4096"

lemma slots_apart:
  assumes "slot_ok a" "slot_ok b" "a \<noteq> b" "i < 8"
  shows "8 \<le> off (base + b + of_nat i) (base + a)"
proof (rule ccontr)
  assume "\<not> 8 \<le> off (base + b + of_nat i) (base + a)"
  moreover define d where "d = off (base + b + of_nat i) (base + a)"
  ultimately have d: "d < 8" "of_nat d = b + of_nat i - a" by (simp_all add: off_def algebra_simps)
  have lt: "unat a < 4096" "unat b < 4096" using assms(1,2) by (simp_all add: slot_ok_def word_less_nat_alt)
  have "a + of_nat d = b + of_nat i" using d(2) by simp
  then have "unat (a + of_nat d) = unat (b + of_nat i)" by simp
  then have "unat a + d = unat b + i" using lt d(1) assms(4) by (simp add: unat_word_ariths unat_of_nat)
  moreover have "unat x mod 8 = 0" if "slot_ok x" for x
  proof -
    have "unat (x mod 8) = 0" using that by (simp add: slot_ok_def)
    then show ?thesis by (simp only: unat_mod) simp
  qed
  from this [OF assms(1)] this [OF assms(2)] have "unat a mod 8 = 0" "unat b mod 8 = 0" .
  ultimately have "unat a = unat b" using d(1) assms(4) by presburger
  then show False using assms(3) by (simp add: word_unat_eq_iff)
qed

lemma load_store_slot:
  assumes "slot_ok a" "slot_ok b"
  shows "load64 (store64 m (base + a) v) (base + b) = (if a = b then v else load64 m (base + b))"
  using load_store_other [OF slots_apart [OF assms]] by (simp add: load_store)

text \<open>A run of stores to, and of loads from, an area whose address is in a register.\<close>

definition stores :: "uint64 \<Rightarrow> (reg \<Rightarrow> uint64) \<Rightarrow> (reg \<times> int) list \<Rightarrow> memory \<Rightarrow> memory" where
  "stores base R L m = fold (\<lambda>(r, o') m. store64 m (base + of_int o') (R r)) L m"

abbreviation sds :: "reg \<Rightarrow> (reg \<times> int) list \<Rightarrow> instr list" where
  "sds b L \<equiv> map (\<lambda>(r, o'). Sd r o' b) L"

abbreviation lds :: "reg \<Rightarrow> (reg \<times> int) list \<Rightarrow> instr list" where
  "lds b L \<equiv> map (\<lambda>(r, o'). Ld r o' b) L"

definition area :: "(uint64 \<Rightarrow> uint64) \<Rightarrow> uint64 \<Rightarrow> uint64 \<Rightarrow> bool" where
  "area f va pa \<longleftrightarrow> (\<forall>x < 4096. f (va + x) = pa + x)"

definition slots_ok :: "(reg \<times> int) list \<Rightarrow> bool" where
  "slots_ok L \<longleftrightarrow> distinct (map (\<lambda>x. of_int (snd x) :: uint64) L) \<and> (\<forall>x \<in> set L. slot_ok (of_int (snd x)))"

lemma hrun_append: "hrun tr (xs @ ys) h = hrun tr ys (hrun tr xs h)"
  by (induction xs arbitrary: h) simp_all

lemma hrun_sds:
  "area (tr (h_csr h Satp)) (h_reg h b) pa \<Longrightarrow> \<forall>x \<in> set L. slot_ok (of_int (snd x)) \<Longrightarrow>
     hrun tr (sds b L) h = h\<lparr>h_mem := stores pa (h_reg h) L (h_mem h)\<rparr>"
proof (induction L arbitrary: h)
  case (Cons x L)
  obtain r o' where x: "x = (r, o')" by (cases x)
  have "tr (h_csr h Satp) (h_reg h b + of_int o') = pa + of_int o'" using Cons.prems x by (simp add: area_def slot_ok_def)
  then show ?case using Cons x by (simp add: stores_def)
qed (simp add: stores_def)

lemma hrun_lds:
  "area (tr (h_csr h Satp)) (h_reg h b) pa \<Longrightarrow> \<forall>x \<in> set L. slot_ok (of_int (snd x)) \<and> fst x \<noteq> b \<Longrightarrow> distinct (map fst L) \<Longrightarrow>
     hrun tr (lds b L) h = h\<lparr>h_reg := (\<lambda>r. case map_of L r of None \<Rightarrow> h_reg h r | Some o' \<Rightarrow> load64 (h_mem h) (pa + of_int o'))\<rparr>"
proof (induction L arbitrary: h)
  case (Cons x L)
  obtain r o' where x: "x = (r, o')" by (cases x)
  let ?h = "h\<lparr>h_reg := (h_reg h)(r := load64 (h_mem h) (pa + of_int o'))\<rparr>"
  have "tr (h_csr h Satp) (h_reg h b + of_int o') = pa + of_int o'" using Cons.prems x by (simp add: area_def slot_ok_def)
  then have "hrun tr (lds b (x # L)) h = hrun tr (lds b L) ?h" by (simp add: x)
  also have "\<dots> = ?h\<lparr>h_reg := (\<lambda>q. case map_of L q of None \<Rightarrow> h_reg ?h q | Some o' \<Rightarrow> load64 (h_mem ?h) (pa + of_int o'))\<rparr>"
    using Cons.prems x by (intro Cons.IH) auto
  also have "\<dots> = h\<lparr>h_reg := (\<lambda>q. case map_of (x # L) q of None \<Rightarrow> h_reg h q | Some o' \<Rightarrow> load64 (h_mem h) (pa + of_int o'))\<rparr>"
  proof -
    have "map_of L r = None" using Cons.prems(3) x by (simp add: map_of_eq_None_iff)
    then have "(\<lambda>q. case map_of L q of None \<Rightarrow> h_reg ?h q | Some o' \<Rightarrow> load64 (h_mem ?h) (pa + of_int o')) =
      (\<lambda>q. case map_of (x # L) q of None \<Rightarrow> h_reg h q | Some o' \<Rightarrow> load64 (h_mem h) (pa + of_int o'))" by (auto simp: x fun_eq_iff split: option.splits)
    then show ?thesis by simp
  qed
  finally show ?case .
qed simp

lemma load_stores_other:
  "\<forall>x \<in> set L. slot_ok (of_int (snd x)) \<and> of_int (snd x) \<noteq> b \<Longrightarrow> slot_ok b \<Longrightarrow>
     load64 (stores base R L m) (base + b) = load64 m (base + b)"
  by (induction L arbitrary: m) (auto simp: stores_def load_store_slot)

lemma load_stores:
  "slots_ok L \<Longrightarrow> (r, o') \<in> set L \<Longrightarrow> load64 (stores base R L m) (base + of_int o') = R r"
proof (induction L arbitrary: m)
  case (Cons x L)
  obtain q p where x: "x = (q, p)" by (cases x)
  show ?case
  proof (cases "x = (r, o')")
    case True
    have "load64 (stores base R L (store64 m (base + of_int o') (R r))) (base + of_int o') = R r"
      using Cons.prems(1) True by (subst load_stores_other) (force simp: slots_ok_def load_store)+
    then show ?thesis using True by (simp add: stores_def)
  next
    case False
    then have "(r, o') \<in> set L" "slots_ok L" using Cons.prems by (auto simp: slots_ok_def)
    then show ?thesis using Cons.IH by (simp add: stores_def x)
  qed
qed simp

lemma stores_outside: "\<forall>x \<in> set L. 8 \<le> off a (base + of_int (snd x)) \<Longrightarrow> stores base R L m a = m a"
  by (induction L arbitrary: m) (auto simp: stores_def store64_def leD)

section \<open>From user space and back\<close>

text \<open>Where the trapframe keeps the registers, in the order of the code; \<open>a0\<close> is handled apart.\<close>

definition tf_regs :: "(reg \<times> int) list" where
  "tf_regs = [(RA, 40), (SP, 48), (GP, 56), (TP, 64), (T0, 72), (T1, 80), (T2, 88), (S0, 96), (S1, 104), (A1, 120), (A2, 128),
     (A3, 136), (A4, 144), (A5, 152), (A6, 160), (A7, 168), (S2, 176), (S3, 184), (S4, 192), (S5, 200), (S6, 208), (S7, 216),
     (S8, 224), (S9, 232), (S10, 240), (S11, 248), (T3, 256), (T4, 264), (T5, 272), (T6, 280)]"

lemma tf_regs_ok: "slots_ok ((A0, 112) # tf_regs)" "distinct (map fst tf_regs)" "A0 \<notin> set (map fst tf_regs)"
  by (simp_all add: tf_regs_def slots_ok_def slot_ok_def)

lemma tf_regs_all: "r = A0 \<or> r \<in> set (map fst tf_regs)"
  by (cases r) (simp_all add: tf_regs_def)

lemma uservec_split:
  "uservec = [Csrw Sscratch A0, Li A0 TRAPFRAME] @ sds A0 tf_regs @ [Csrr T0 Sscratch, Sd T0 112 A0, Ld SP 8 A0, Ld TP 32 A0,
     Ld T0 16 A0, Ld T1 0 A0, Sfence_vma, Csrw Satp T1, Sfence_vma, Jr T0]"
  by (simp add: uservec_def tf_regs_def)

lemma userret_split:
  "userret = [Sfence_vma, Csrw Satp A0, Sfence_vma, Li A0 TRAPFRAME] @ lds A0 tf_regs @ [Ld A0 112 A0, Sret]"
  by (simp add: userret_def tf_regs_def)

lemma area_at: "area f va pa \<Longrightarrow> x < 4096 \<Longrightarrow> f (va + x) = pa + x"
  by (simp add: area_def)

lemma area_0: "area f va pa \<Longrightarrow> f va = pa"
  using area_at [of f va pa 0] by simp

lemma uservec_run:
  assumes "area (tr (h_csr h Satp)) TRAPFRAME tf"
  shows "h_mem (hrun tr uservec h) = stores tf (h_reg h) (tf_regs @ [(A0, 112)]) (h_mem h)"
    "h_reg (hrun tr uservec h) SP = load64 (h_mem h) (tf + 8)" "h_reg (hrun tr uservec h) TP = load64 (h_mem h) (tf + 32)"
    "h_csr (hrun tr uservec h) Satp = load64 (h_mem h) tf" "h_next (hrun tr uservec h) = load64 (h_mem h) (tf + 16)"
proof -
  define h1 where "h1 = h\<lparr>h_csr := (h_csr h)(Sscratch := h_reg h A0), h_reg := (h_reg h)(A0 := TRAPFRAME)\<rparr>"
  define h2 where "h2 = h1\<lparr>h_mem := stores tf (h_reg h) tf_regs (h_mem h)\<rparr>"
  have "stores tf (h_reg h1) tf_regs m = stores tf (h_reg h) tf_regs m" for m by (simp add: stores_def tf_regs_def h1_def)
  moreover have "hrun tr (sds A0 tf_regs) h1 = h1\<lparr>h_mem := stores tf (h_reg h1) tf_regs (h_mem h1)\<rparr>"
    using assms tf_regs_ok(1) by (intro hrun_sds) (simp_all add: h1_def slots_ok_def)
  ultimately have run: "hrun tr uservec h = hrun tr [Csrr T0 Sscratch, Sd T0 112 A0, Ld SP 8 A0, Ld TP 32 A0,
     Ld T0 16 A0, Ld T1 0 A0, Sfence_vma, Csrw Satp T1, Sfence_vma, Jr T0] h2"
    by (simp add: uservec_split hrun_append h2_def) (simp add: h1_def)
  have m: "load64 (store64 (h_mem h2) (tf + 112) v) (tf + b) = load64 (h_mem h) (tf + b)" if "b \<in> {0, 8, 16, 32}" for b v
  proof -
    have "load64 (h_mem h2) (tf + b) = load64 (h_mem h) (tf + b)"
      unfolding h2_def using that tf_regs_ok(1) by (simp, intro load_stores_other) (auto simp: slots_ok_def slot_ok_def tf_regs_def)
    moreover have "slot_ok b" "b \<noteq> 112" "slot_ok 112" using that by (auto simp: slot_ok_def)
    ultimately show ?thesis by (simp add: load_store_slot)
  qed
  have s: "h_csr h2 Sscratch = h_reg h A0" "h_reg h2 A0 = TRAPFRAME" "h_csr h2 Satp = h_csr h Satp" by (simp_all add: h1_def h2_def)
  note [simp] = s m area_at [OF assms] area_0 [OF assms] m [of 0, simplified]
  show "h_mem (hrun tr uservec h) = stores tf (h_reg h) (tf_regs @ [(A0, 112)]) (h_mem h)"
    unfolding run by simp (simp add: h2_def h1_def stores_def)
  show "h_reg (hrun tr uservec h) SP = load64 (h_mem h) (tf + 8)" "h_reg (hrun tr uservec h) TP = load64 (h_mem h) (tf + 32)"
    "h_csr (hrun tr uservec h) Satp = load64 (h_mem h) tf" "h_next (hrun tr uservec h) = load64 (h_mem h) (tf + 16)"
    unfolding run by simp_all
qed

lemma userret_run:
  assumes "area (tr (h_reg h A0)) TRAPFRAME tf" "\<forall>(r, x) \<in> set (tf_regs @ [(A0, 112)]). load64 (h_mem h) (tf + of_int x) = R r"
  shows "h_reg (hrun tr userret h) = R" "h_csr (hrun tr userret h) Satp = h_reg h A0" "h_mem (hrun tr userret h) = h_mem h"
proof -
  define h1 where "h1 = h\<lparr>h_csr := (h_csr h)(Satp := h_reg h A0), h_reg := (h_reg h)(A0 := TRAPFRAME)\<rparr>"
  define h2 where "h2 = h1\<lparr>h_reg := (\<lambda>r. case map_of tf_regs r of None \<Rightarrow> h_reg h1 r | Some x \<Rightarrow> load64 (h_mem h1) (tf + of_int x))\<rparr>"
  have "hrun tr (lds A0 tf_regs) h1 = h2"
    unfolding h2_def by (rule hrun_lds) (use assms(1) in \<open>simp add: h1_def\<close>, simp_all add: tf_regs_def slot_ok_def)
  then have run: "hrun tr userret h = hrun tr [Ld A0 112 A0, Sret] h2" by (simp add: userret_split hrun_append) (simp add: h1_def)
  have a0: "h_reg h2 A0 = TRAPFRAME" "h_csr h2 Satp = h_reg h A0" "h_mem h2 = h_mem h"
    using tf_regs_ok(3) by (simp_all add: h2_def h1_def map_of_eq_None_iff [THEN iffD2])
  show "h_csr (hrun tr userret h) Satp = h_reg h A0" "h_mem (hrun tr userret h) = h_mem h" using a0 by (simp_all add: run)
  show "h_reg (hrun tr userret h) = R"
  proof
    fix r
    show "h_reg (hrun tr userret h) r = R r"
    proof (cases "r = A0")
      case True
      then show ?thesis using a0 area_at [OF assms(1), of 112] assms(2) by (simp add: run)
    next
      case False
      then obtain x where x: "map_of tf_regs r = Some x" using tf_regs_all [of r] by (metis map_of_eq_None_iff not_None_eq set_map)
      then have "load64 (h_mem h) (tf + of_int x) = R r" using assms(2) by (auto dest!: map_of_SomeD)
      then show ?thesis using False x by (simp add: run h2_def h1_def)
    qed
  qed
qed

section \<open>Traps in the kernel\<close>

definition kv_regs :: "(reg \<times> int) list" where
  "kv_regs = [(GP, 16), (TP, 24), (T0, 32), (T1, 40), (T2, 48), (S0, 56), (S1, 64), (A0, 72), (A1, 80), (A2, 88), (A3, 96), (A4, 104),
     (A5, 112), (A6, 120), (A7, 128), (S2, 136), (S3, 144), (S4, 152), (S5, 160), (S6, 168), (S7, 176), (S8, 184), (S9, 192),
     (S10, 200), (S11, 208), (T3, 216), (T4, 224), (T5, 232), (T6, 240)]"

abbreviation kv_saved :: "(reg \<times> int) list" where
  "kv_saved \<equiv> (RA, 0) # (SP, 8) # kv_regs"

abbreviation kv_loaded :: "(reg \<times> int) list" where
  "kv_loaded \<equiv> filter (\<lambda>x. fst x \<noteq> TP) kv_regs"

lemma kv_regs_ok: "slots_ok kv_saved" "distinct (map fst kv_regs)" "SP \<notin> set (map fst kv_regs)" "RA \<notin> set (map fst kv_regs)"
  by (simp_all add: kv_regs_def slots_ok_def slot_ok_def)

lemma kv_regs_all: "r = RA \<or> r = SP \<or> r \<in> set (map fst kv_regs)"
  by (cases r) (simp_all add: kv_regs_def)

lemma kv_loaded_none: "map_of kv_loaded SP = None" "map_of kv_loaded RA = None" "map_of kv_loaded TP = None"
  by (simp_all add: kv_regs_def)

lemma kernelvec_save_split: "kernelvec_save = Addi SP SP (-256) # sds SP kv_saved"
  by (simp add: kernelvec_save_def kv_regs_def)

lemma kernelvec_restore_split:
  "kernelvec_restore = [Ld RA 0 SP, Ld SP 8 SP] @ lds SP kv_loaded @ [Addi SP SP 256, Sret]"
  by (simp add: kernelvec_restore_def kv_regs_def)

lemma kernelvec_save_run:
  assumes "area (tr (h_csr h Satp)) (h_reg h SP - 256) pa"
  shows "hrun tr kernelvec_save h = h\<lparr>h_reg := (h_reg h)(SP := h_reg h SP - 256),
    h_mem := stores pa ((h_reg h)(SP := h_reg h SP - 256)) kv_saved (h_mem h)\<rparr>"
proof -
  let ?h = "h\<lparr>h_reg := (h_reg h)(SP := h_reg h SP - 256)\<rparr>"
  have "hrun tr (sds SP kv_saved) ?h = ?h\<lparr>h_mem := stores pa (h_reg ?h) kv_saved (h_mem ?h)\<rparr>"
    using assms kv_regs_ok(1) by (intro hrun_sds) (simp_all add: slots_ok_def)
  then show ?thesis by (simp add: kernelvec_save_split)
qed

lemma kernelvec_restore_run:
  assumes "area (tr (h_csr h Satp)) (h_reg h SP) pa" "\<forall>(r, x) \<in> set kv_saved. load64 (h_mem h) (pa + of_int x) = R r" "R SP = h_reg h SP"
  shows "h_reg (hrun tr kernelvec_restore h) = R(SP := R SP + 256, TP := h_reg h TP)"
proof -
  define h1 where "h1 = h\<lparr>h_reg := (h_reg h)(RA := R RA)\<rparr>"
  define h2 where "h2 = h1\<lparr>h_reg := (\<lambda>r. case map_of kv_loaded r of None \<Rightarrow> h_reg h1 r | Some x \<Rightarrow> load64 (h_mem h1) (pa + of_int x))\<rparr>"
  have sp: "load64 (h_mem h) pa = R RA" "load64 (h_mem h) (pa + 8) = h_reg h SP" using assms(2,3) by auto
  have "(h_reg h)(RA := R RA, SP := h_reg h SP) = (h_reg h)(RA := R RA)" by (auto simp: fun_eq_iff)
  then have "hrun tr [Ld RA 0 SP, Ld SP 8 SP] h = h1"
    using sp area_0 [OF assms(1)] area_at [OF assms(1), of 8] by (simp add: h1_def)
  moreover have "hrun tr (lds SP kv_loaded) h1 = h2"
    unfolding h2_def by (rule hrun_lds) (use assms(1) in \<open>simp add: h1_def\<close>, simp_all add: kv_regs_def slot_ok_def)
  ultimately have run: "hrun tr kernelvec_restore h = hrun tr [Addi SP SP 256, Sret] h2" by (simp add: kernelvec_restore_split hrun_append)
  have sp2: "h_reg h2 SP = R SP"
    using assms(3) by (simp add: h2_def h1_def kv_loaded_none)
  show ?thesis
  proof
    fix r
    consider (sp) "r = SP" | (tp) "r = TP" | (ra) "r = RA" | (other) "r \<in> set (map fst kv_loaded)" "r \<noteq> SP" "r \<noteq> TP"
      using kv_regs_all [of r] kv_regs_ok(3) by auto
    then show "h_reg (hrun tr kernelvec_restore h) r = (R(SP := R SP + 256, TP := h_reg h TP)) r"
    proof cases
      case sp
      then show ?thesis using sp2 by (simp add: run)
    next
      case tp
      then show ?thesis by (simp add: run h2_def h1_def kv_loaded_none)
    next
      case ra
      then show ?thesis by (simp add: run h2_def h1_def kv_loaded_none)
    next
      case other
      then obtain x where x: "map_of kv_loaded r = Some x" by (metis map_of_eq_None_iff not_None_eq set_map)
      then have "(r, x) \<in> set kv_saved" by (auto dest!: map_of_SomeD)
      then have "load64 (h_mem h) (pa + of_int x) = R r" using assms(2) by blast
      then show ?thesis using other x by (simp add: run h2_def h1_def)
    qed
  qed
qed

section \<open>Properties\<close>

text \<open>What is saved is found again in a memory that agrees on the saved area.\<close>

lemma saved_found:
  assumes "slots_ok L" "(r, x) \<in> set L" "0 \<le> lo" "lo \<le> x" "x + 8 \<le> hi" "hi < 4096"
    and "\<forall>a. nat lo \<le> off a pa \<longrightarrow> off a pa < nat hi \<longrightarrow> m a = stores pa R L m0 a"
  shows "load64 m (pa + of_int x) = R r"
proof -
  have "load64 m (pa + of_int x) = load64 (stores pa R L m0) (pa + of_int x)"
  proof (rule load64_cong)
    fix i :: nat assume "i < 8"
    have "of_int x + of_nat i = (of_nat (nat x + i) :: uint64)" using assms(3,4) by (simp flip: of_nat_nat)
    then have "off (pa + of_int x + of_nat i) pa = unat (of_nat (nat x + i) :: uint64)" by (simp add: off_def algebra_simps)
    also have "\<dots> = nat x + i" using assms(3-6) \<open>i < 8\<close> by (simp only: unat_of_nat) (simp add: take_bit_nat_eq_self)
    finally show "m (pa + of_int x + of_nat i) = stores pa R L m0 (pa + of_int x + of_nat i)" using assms(3-7) \<open>i < 8\<close> by simp
  qed
  also have "\<dots> = R r" by (rule load_stores [OF assms(1,2)])
  finally show ?thesis .
qed

text \<open>
  C19. A trap from user space loses nothing: \<^verbatim>\<open>uservec\<close> enters the kernel with the kernel's stack pointer, hart id, page
  table and entry point from the trapframe, and whatever the kernel does as long as it leaves the saved
  registers in the trapframe alone, \<^verbatim>\<open>userret\<close> gives the process back every register and its page table.
\<close>

theorem user_trap_round_trip:
  assumes "area (tr (h_csr h Satp)) TRAPFRAME tf" "h_reg h2 A0 = h_csr h Satp"
    "\<forall>a. 40 \<le> off a tf \<longrightarrow> off a tf < 288 \<longrightarrow> h_mem h2 a = h_mem (hrun tr uservec h) a"
  shows "h_reg (hrun tr userret h2) = h_reg h \<and> h_csr (hrun tr userret h2) Satp = h_csr h Satp \<and>
    h_reg (hrun tr uservec h) SP = load64 (h_mem h) (tf + 8) \<and> h_reg (hrun tr uservec h) TP = load64 (h_mem h) (tf + 32) \<and>
    h_csr (hrun tr uservec h) Satp = load64 (h_mem h) tf \<and> h_next (hrun tr uservec h) = load64 (h_mem h) (tf + 16)"
proof -
  note run = uservec_run [where tr = tr and h = h, OF assms(1)]
  let ?L = "tf_regs @ [(A0, 112)]"
  have L: "slots_ok ?L" "\<forall>(r, x) \<in> set ?L. 40 \<le> x \<and> x + 8 \<le> 288"
    using tf_regs_ok(1) by (auto simp: slots_ok_def) (auto simp: tf_regs_def)
  have "load64 (h_mem h2) (tf + of_int x) = h_reg h r" if "(r, x) \<in> set ?L" for r x
    by (rule saved_found [OF L(1) that, of 40 288]) (use L(2) that assms(3) in \<open>auto simp: run(1)\<close>)
  then have "\<forall>(r, x) \<in> set ?L. load64 (h_mem h2) (tf + of_int x) = h_reg h r" by blast
  from userret_run [where tr = tr and h = h2, OF _ this] assms(1,2) show ?thesis using run by simp
qed

text \<open>
  C20. A trap in the kernel loses nothing: after \<^verbatim>\<open>kernelvec\<close> has saved the registers and \<^verbatim>\<open>kerneltrap\<close> has returned with the stack
  pointer and the saved area as they were, every register is restored but \<^verbatim>\<open>tp\<close>, which stays that of the
  CPU the code runs on then.
\<close>

theorem kernel_trap_round_trip:
  assumes "area (tr (h_csr h Satp)) (h_reg h SP - 256) pa" "h_csr h2 Satp = h_csr h Satp" "h_reg h2 SP = h_reg h SP - 256"
    "\<forall>a. off a pa < 256 \<longrightarrow> h_mem h2 a = h_mem (hrun tr kernelvec_save h) a"
  shows "h_reg (hrun tr kernelvec_restore h2) = (h_reg h)(TP := h_reg h2 TP)"
proof -
  let ?R = "(h_reg h)(SP := h_reg h SP - 256)"
  have L: "\<forall>(r, x) \<in> set kv_saved. 0 \<le> x \<and> x + 8 \<le> 256" by (auto simp: kv_regs_def)
  have m: "\<forall>a. nat 0 \<le> off a pa \<longrightarrow> off a pa < nat 256 \<longrightarrow> h_mem h2 a = stores pa ?R kv_saved (h_mem h) a"
    using assms(4) unfolding kernelvec_save_run [where tr = tr and h = h, OF assms(1)] by simp
  have "load64 (h_mem h2) (pa + of_int x) = ?R r" if "(r, x) \<in> set kv_saved" for r x
    by (rule saved_found [OF kv_regs_ok(1) that _ _ _ _ m]) (use L that in \<open>auto\<close>)
  then have "\<forall>(r, x) \<in> set kv_saved. load64 (h_mem h2) (pa + of_int x) = ?R r" by blast
  from kernelvec_restore_run [where tr = tr and h = h2, OF _ this] assms(1-3) show ?thesis by (simp add: fun_eq_iff)
qed

text \<open>
  C30. The timer interrupt is invisible: \<^verbatim>\<open>timervec\<close> leaves every register and \<^verbatim>\<open>mscratch\<close> as they were, adds the interval to
  the CPU's compare register, and raises a supervisor software interrupt.
\<close>

theorem timervec_schedules:
  assumes sc: "h_csr h Mscratch = sc" and cmp: "load64 (h_mem h) (sc + 24) = cmp" "\<forall>x < 40. \<forall>i < 8. sc + of_nat x \<noteq> cmp + of_nat i"
  shows "let h' = hrun (\<lambda>_ a. a) timervec h
    in h_reg h' = h_reg h \<and> h_csr h' = (h_csr h)(Sip := 2) \<and>
       load64 (h_mem h') cmp = load64 (h_mem h) cmp + load64 (h_mem h) (sc + 32)"
proof -
  have away: "8 \<le> off (sc + a + of_nat i) cmp" if "a \<in> {0, 8, 16, 24, 32}" "i < 8" for a i
  proof (rule ccontr)
    assume "\<not> ?thesis"
    moreover have "sc + a + of_nat i = cmp + of_nat (off (sc + a + of_nat i) cmp)" by (simp add: off_def)
    moreover have "sc + a + of_nat i = sc + of_nat (unat a + i)" by simp
    moreover have "unat a + i < 40" using that by auto
    ultimately show False using cmp(2) by (metis not_le)
  qed
  have away': "8 \<le> off (cmp + of_nat i) (sc + a)" if "a \<in> {0, 8, 16}" "i < 8" for a i
  proof (rule ccontr)
    assume "\<not> ?thesis"
    moreover have "cmp + of_nat i = sc + a + of_nat (off (cmp + of_nat i) (sc + a))" by (simp add: off_def)
    moreover have "sc + a + of_nat j = sc + of_nat (unat a + j)" for j by simp
    moreover have "unat a + off (cmp + of_nat i) (sc + a) < 40" using that calculation(1) by auto
    ultimately show False using cmp(2) that(2) by (metis not_le)
  qed
  have o1: "load64 (store64 m cmp v) (sc + a) = load64 m (sc + a)" if "a \<in> {0, 8, 16, 24, 32}" for m v a
    by (rule load_store_other) (use away that in blast)
  have o2: "load64 (store64 m (sc + a) v) cmp = load64 m cmp" if "a \<in> {0, 8, 16}" for m v a
    by (rule load_store_other) (use away' that in blast)
  note [simp] = load_store_slot load_store_slot [of _ 0 _ sc, simplified] load_store_slot [of 0 _ _ sc, simplified] slot_ok_def
    o1 o1 [of 0, simplified] o2 o2 [of 0, simplified] load_store sc cmp(1)
  show ?thesis unfolding timervec_def Let_def by (auto simp: fun_eq_iff)
qed

section \<open>Witnesses\<close>

definition demo_hart :: hart where
  "demo_hart = \<lparr>h_reg = (\<lambda>r. if r = SP then 0x3fffffd000 else 7), h_csr = (\<lambda>x. if x = Mscratch then 0x80009000 else 5),
     h_mem = store64 (\<lambda>_. 0) 0x80009018 0x2004000, h_next = 0\<rparr>"

theorem user_trap_round_trip_witness:
  "h_reg (hrun (\<lambda>_ a. a) userret ((hrun (\<lambda>_ a. a) uservec demo_hart)\<lparr>h_reg := \<lambda>_. 5\<rparr>)) = h_reg demo_hart"
  using user_trap_round_trip [of "\<lambda>_ a. a" demo_hart TRAPFRAME "(hrun (\<lambda>_ a. a) uservec demo_hart)\<lparr>h_reg := \<lambda>_. 5\<rparr>"]
  by (simp add: area_def demo_hart_def)

theorem kernel_trap_round_trip_witness:
  "h_reg (hrun (\<lambda>_ a. a) kernelvec_restore ((hrun (\<lambda>_ a. a) kernelvec_save demo_hart)\<lparr>h_reg := (\<lambda>_. 0)(SP := 0x3fffffcf00, TP := 1)\<rparr>)) =
     (h_reg demo_hart)(TP := 1)"
proof -
  have "h_csr (hrun (\<lambda>_ a. a) kernelvec_save demo_hart) Satp = h_csr demo_hart Satp"
    using kernelvec_save_run [of "\<lambda>_ a. a" demo_hart "h_reg demo_hart SP - 256"] by (simp add: area_def)
  then show ?thesis
    using kernel_trap_round_trip [of "\<lambda>_ a. a" demo_hart "0x3fffffcf00"
      "(hrun (\<lambda>_ a. a) kernelvec_save demo_hart)\<lparr>h_reg := (\<lambda>_. 0)(SP := 0x3fffffcf00, TP := 1)\<rparr>"]
    by (simp add: area_def demo_hart_def)
qed

theorem timervec_schedules_witness:
  "h_reg (hrun (\<lambda>_ a. a) timervec demo_hart) = h_reg demo_hart \<and> h_csr (hrun (\<lambda>_ a. a) timervec demo_hart) Sip = 2"
proof -
  have "(0x80009000 :: uint64) + of_nat x \<noteq> 0x2004000 + of_nat i" if "x < 40" "i < 8" for x i
  proof
    assume "(0x80009000 :: uint64) + of_nat x = 0x2004000 + of_nat i"
    then have "unat ((0x80009000 :: uint64) + of_nat x) = unat ((0x2004000 :: uint64) + of_nat i)" by (rule arg_cong)
    then show False using that by (simp add: unat_word_ariths unat_of_nat)
  qed
  then show ?thesis
    using timervec_schedules [of demo_hart "0x80009000" "0x2004000"] by (simp add: Let_def demo_hart_def load_store)
qed

end
