(* ===== verification/Disk_Base.thy ===== *)
theory Disk_Base
  imports Sched_Base
begin

text \<open>
  The disk driver \<^verbatim>\<open>kernel/virtio_disk.c\<close> at rest and at work: the contract of the device, the driver's locks as
  instances of \<open>lock_ref\<close>, and what a transfer of one block does.
\<close>

section \<open>Locks\<close>

interpretation vlk: lock_ref vdisk_L
  by unfold_locales (simp_all add: vdisk_L_def upd_vd_def)

interpretation blk: lock_ref bcache_L
  by unfold_locales (simp_all add: bcache_L_def)

interpretation slk: lock_ref "sl_L (buf_S b)"
  by unfold_locales (simp_all add: sl_L_def buf_S_def upd_buf_def)

lemma lock_get [simp]:
  "fst vdisk_L s = vdisk_lock (vdisk s)" "fst bcache_L s = bcache_lock s" "fst (sl_L (buf_S b)) s = sl_lk (b_lock (bufs s b))"
  by (simp_all add: vdisk_L_def bcache_L_def sl_L_def buf_S_def)

section \<open>A machine at rest\<close>

text \<open>The channels that processes waiting for disk blocks sleep on.\<close>

fun disk_chan :: "channel \<Rightarrow> bool" where
  "disk_chan (ChanBuf b) = True"
| "disk_chan (ChanBufLock b) = True"
| "disk_chan ChanDisk = True"
| "disk_chan ChanLog = True"
| "disk_chan (ChanInodeLock i) = True"
| "disk_chan _ = False"

text \<open>CPU \<open>c\<close> runs process \<open>p\<close>, no process lock is held and nobody waits for the disk.\<close>

definition quiet :: "nat \<Rightarrow> nat \<Rightarrow> 'a rq_state_scheme \<Rightarrow> bool" where
  "quiet c p s \<longleftrightarrow> cpu_ok (cpus s c) \<and> cpu_proc (cpus s c) = Some p \<and>
     (\<forall>i < NPROC. lock_free (p_lock (procs s i)) \<and> (\<forall>ch. disk_chan ch \<longrightarrow> \<not> sleeps_on ch (procs s i)))"

lemma quiet_wakeup:
  assumes "quiet c p s" "disk_chan ch"
  shows "wakeup c s ch = Ok (after_lock c s)"
  using assms by (intro wakeup_idle) (auto simp: quiet_def)

text \<open>The same inside a critical section: a wakeup changes nothing at all.\<close>

definition hot :: "nat \<Rightarrow> nat \<Rightarrow> 'a rq_state_scheme \<Rightarrow> bool" where
  "hot c p s \<longleftrightarrow> quiet c p s \<and> 0 < noff (cpus s c)"

lemma hot_wakeup: "hot c p s \<Longrightarrow> disk_chan ch \<Longrightarrow> wakeup c s ch = Ok s"
  using quiet_wakeup [of c p s ch] after_lock_nested [of s c] by (simp add: hot_def)

lemma hot_myproc: "hot c p s \<Longrightarrow> myproc c s = Ok (s, Some p)"
  by (simp add: hot_def quiet_def myproc_ok after_lock_nested)

lemma quiet_cong:
  "cpus s' c = cpus s c \<Longrightarrow> procs s' = procs s \<Longrightarrow> quiet c p s' = quiet c p s"
  by (simp add: quiet_def)

lemma hot_cong:
  "cpus s' c = cpus s c \<Longrightarrow> procs s' = procs s \<Longrightarrow> hot c p s' = hot c p s"
  by (simp add: hot_def quiet_cong [of s' c s])

lemma quiet_upd [simp]:
  "quiet c p (s\<lparr>vdisk := v\<rparr>) = quiet c p s" "quiet c p (s\<lparr>bufs := B\<rparr>) = quiet c p s" "quiet c p (s\<lparr>platter := P\<rparr>) = quiet c p s"
  "quiet c p (s\<lparr>bcache_lock := l\<rparr>) = quiet c p s" "quiet c p (upd_vd f s) = quiet c p s" "quiet c p (upd_buf b g s) = quiet c p s"
  by (simp_all add: quiet_def upd_vd_def upd_buf_def)

lemma hot_upd [simp]:
  "hot c p (s\<lparr>vdisk := v\<rparr>) = hot c p s" "hot c p (s\<lparr>bufs := B\<rparr>) = hot c p s" "hot c p (s\<lparr>platter := P\<rparr>) = hot c p s"
  "hot c p (s\<lparr>bcache_lock := l\<rparr>) = hot c p s" "hot c p (upd_vd f s) = hot c p s" "hot c p (upd_buf b g s) = hot c p s"
  by (simp_all add: hot_def upd_vd_def upd_buf_def)

lemma push_off_hot: "quiet c p s \<Longrightarrow> hot c p (push_off c s)"
  by (auto simp: hot_def quiet_def push_off_cpu cpu_ok_def push_off_upd)

section \<open>The device\<close>

text \<open>The driver at rest: every descriptor free, the device idle and caught up with.\<close>

definition disk_idle :: "vdisk \<Rightarrow> bool" where
  "disk_idle d \<longleftrightarrow> (\<forall>i < NUM. vd_free d i) \<and> us_idx (vd_used d) = vd_used_idx d \<and> av_idx (vd_avail d) = vd_used_idx d \<and>
     lock_free (vdisk_lock d)"

text \<open>The queue holds one request, in the format that the virtio specification asks for.\<close>

definition request :: "vdisk \<Rightarrow> nat \<Rightarrow> bool \<Rightarrow> nat \<Rightarrow> nat \<Rightarrow> nat \<Rightarrow> uint64 \<Rightarrow> bool" where
  "request d b wr i0 i1 i2 sector \<longleftrightarrow>
     av_idx (vd_avail d) = us_idx (vd_used d) + 1 \<and> av_ring (vd_avail d) (unat (us_idx (vd_used d)) mod NUM) = of_nat i0 \<and>
     distinct [i0, i1, i2] \<and> i0 < NUM \<and> i1 < NUM \<and> i2 < NUM \<and>
     vd_desc d i0 = \<lparr>d_addr = DOp i0, d_len = 16, d_flags = VRING_DESC_F_NEXT, d_next = of_nat i1\<rparr> \<and>
     vd_desc d i1 = \<lparr>d_addr = DData b, d_len = of_nat BSIZE, d_flags = (if wr then 0 else VRING_DESC_F_WRITE) OR VRING_DESC_F_NEXT, d_next = of_nat i2\<rparr> \<and>
     vd_desc d i2 = \<lparr>d_addr = DStatus i0, d_len = 1, d_flags = VRING_DESC_F_WRITE, d_next = 0\<rparr> \<and>
     vd_ops d i0 = \<lparr>rq_type = (if wr then VIRTIO_BLK_T_OUT else VIRTIO_BLK_T_IN), rq_reserved = 0, rq_sector = sector\<rparr>"

definition serve :: "vdisk \<Rightarrow> nat \<Rightarrow> vdisk" where
  "serve d i0 = d\<lparr>vd_info := (vd_info d)(i0 := (vd_info d i0)\<lparr>i_status := 0\<rparr>),
     vd_used := (vd_used d)\<lparr>us_ring := (us_ring (vd_used d))(unat (us_idx (vd_used d)) mod NUM := of_nat i0), us_idx := us_idx (vd_used d) + 1\<rparr>\<rparr>"

text \<open>What the virtio specification promises of a block device that gets one request.\<close>

definition conforms :: "(vdisk \<times> (nat \<Rightarrow> uchar list) \<times> platter \<Rightarrow> vdisk \<times> (nat \<Rightarrow> uchar list) \<times> platter) \<Rightarrow> bool" where
  "conforms dev \<longleftrightarrow> (\<forall>d bd pl b wr i0 i1 i2 sector. request d b wr i0 i1 i2 sector \<longrightarrow>
     dev (d, bd, pl) = (serve d i0, if wr then bd else bd(b := pl (unat sector div 2)), if wr then pl(unat sector div 2 := bd b) else pl))"

text \<open>A device that conforms.\<close>

definition virtio_dev :: "vdisk \<times> (nat \<Rightarrow> uchar list) \<times> platter \<Rightarrow> vdisk \<times> (nat \<Rightarrow> uchar list) \<times> platter" where
  "virtio_dev x =
     (case x of (d, bd, pl) \<Rightarrow>
        let i0 = unat (av_ring (vd_avail d) (unat (us_idx (vd_used d)) mod NUM));
            i1 = unat (d_next (vd_desc d i0));
            b = (case d_addr (vd_desc d i1) of DData b \<Rightarrow> b | _ \<Rightarrow> 0);
            blk = unat (rq_sector (vd_ops d i0)) div 2
        in if av_idx (vd_avail d) = us_idx (vd_used d) + 1 then
             (if rq_type (vd_ops d i0) = VIRTIO_BLK_T_OUT then (serve d i0, bd, pl(blk := bd b)) else (serve d i0, bd(b := pl blk), pl))
           else (d, bd, pl))"

lemma unat_of_nat16: "i < NUM \<Longrightarrow> unat (of_nat i :: ushort) = i"
  by (simp add: NUM_def unat_of_nat take_bit_nat_eq_self)

lemma virtio_dev_conforms: "conforms virtio_dev"
  unfolding conforms_def request_def
  by (auto simp: virtio_dev_def Let_def unat_of_nat16 VIRTIO_BLK_T_OUT_def VIRTIO_BLK_T_IN_def)

section \<open>A transfer\<close>

lemma alloc3_idle:
  assumes "\<forall>i < NUM. vd_free (vdisk s) i"
  shows "alloc3_desc c s = Ok (upd_vd (\<lambda>d. d\<lparr>vd_free := (vd_free d)(0 := False, Suc 0 := False, 2 := False)\<rparr>) s, Some [0, 1, 2])"
proof -
  have "vd_free (vdisk s) 0" "vd_free (vdisk s) (Suc 0)" "vd_free (vdisk s) 2" using assms by (auto simp: NUM_def)
  moreover have "[0..<NUM] = [0, Suc 0, 2, 3, 4, 5, 6, 7]" by (simp add: NUM_def upt_conv_Cons)
  ultimately show ?thesis by (simp add: alloc3_desc_def alloc_desc_def numeral_3_eq_3 upd_vd_def)
qed

text \<open>A change of the driver's data or of a buffer commutes with taking the driver's lock.\<close>

lemma held_upd_vd:
  assumes "\<And>d. vdisk_lock (f d) = vdisk_lock d" "\<And>d l. f (d\<lparr>vdisk_lock := l\<rparr>) = (f d)\<lparr>vdisk_lock := l\<rparr>"
  shows "upd_vd f (held c vdisk_L s) = held c vdisk_L (upd_vd f s)"
  using assms by (simp add: held_def vdisk_L_def upd_vd_def push_off_upd)

lemma held_upd_buf: "upd_buf b f (held c vdisk_L s) = held c vdisk_L (upd_buf b f s)"
  by (simp add: held_def vdisk_L_def upd_vd_def upd_buf_def push_off_upd)

lemma held_vdisk_fields:
  "vdisk (held c vdisk_L s) = (vdisk s)\<lparr>vdisk_lock := (vdisk_lock (vdisk s))\<lparr>locked := 1, lk_cpu := Some c\<rparr>\<rparr>"
  "bufs (held c vdisk_L s) = bufs s" "platter (held c vdisk_L s) = platter s" "vdevice (held c vdisk_L s) = vdevice s"
  by (simp_all add: held_def vdisk_L_def upd_vd_def push_off_upd)

lemma held_vdisk_hot: "quiet c p s \<Longrightarrow> hot c p (held c vdisk_L s)"
  using push_off_hot [of c p s] by (subst hot_cong [of _ c "push_off c s"]) (simp_all add: held_def vdisk_L_def upd_vd_def)

lemma held_submit: "virtio_submit (held c vdisk_L s) b wr idx = held c vdisk_L (virtio_submit s b wr idx)"
  by (simp add: virtio_submit_def Let_def set_desc_def mmio_w_def held_upd_vd held_upd_buf held_vdisk_fields)

text \<open>The request, once it is in the queue.\<close>

definition submitted :: "'a dstate_scheme \<Rightarrow> nat \<Rightarrow> bool \<Rightarrow> 'a dstate_scheme" where
  "submitted s b wr =
     virtio_submit (upd_vd (\<lambda>d. d\<lparr>vd_free := (vd_free d)(0 := False, Suc 0 := False, 2 := False)\<rparr>) s) b wr [0, 1, 2]"

lemma submitted_fields:
  "bufs (submitted s b wr) = (bufs s)(b := (bufs s b)\<lparr>b_disk := True\<rparr>)" "platter (submitted s b wr) = platter s"
  "vdevice (submitted s b wr) = vdevice s" "cpus (submitted s b wr) = cpus s" "procs (submitted s b wr) = procs s"
  "vdisk_lock (vdisk (submitted s b wr)) = vdisk_lock (vdisk s)" "vd_used (vdisk (submitted s b wr)) = vd_used (vdisk s)"
  "vd_used_idx (vdisk (submitted s b wr)) = vd_used_idx (vdisk s)" "i_b (vd_info (vdisk (submitted s b wr)) 0) = Some b"
  "vd_free (vdisk (submitted s b wr)) = (vd_free (vdisk s))(0 := False, Suc 0 := False, 2 := False)"
  "av_idx (vd_avail (vdisk (submitted s b wr))) = av_idx (vd_avail (vdisk s)) + 1"
  by (simp_all add: submitted_def virtio_submit_def Let_def set_desc_def mmio_w_def upd_vd_def upd_buf_def)

lemma submitted_more: "\<exists>v. submitted s b wr = s\<lparr>vdisk := v, bufs := (bufs s)(b := (bufs s b)\<lparr>b_disk := True\<rparr>)\<rparr>"
  by (rule exI [of _ "vdisk (submitted s b wr)"])
    (simp add: submitted_def virtio_submit_def Let_def set_desc_def mmio_w_def upd_vd_def upd_buf_def)

lemma submitted_request:
  assumes "disk_idle (vdisk s)"
  shows "request (vdisk (submitted s b wr)) b wr 0 1 2 (ucast (b_blockno (bufs s b) * 2))"
  using assms
  by (simp add: request_def submitted_def virtio_submit_def Let_def set_desc_def mmio_w_def upd_vd_def upd_buf_def disk_idle_def
      NUM_def BSIZE_def)

lemma submitted_desc:
  "vd_desc (vdisk (submitted s b wr)) 0 = \<lparr>d_addr = DOp 0, d_len = 16, d_flags = VRING_DESC_F_NEXT, d_next = 1\<rparr>"
  "vd_desc (vdisk (submitted s b wr)) 1 = \<lparr>d_addr = DData b, d_len = of_nat BSIZE,
     d_flags = (if wr then 0 else VRING_DESC_F_WRITE) OR VRING_DESC_F_NEXT, d_next = 2\<rparr>"
  "vd_desc (vdisk (submitted s b wr)) 2 = \<lparr>d_addr = DStatus 0, d_len = 1, d_flags = VRING_DESC_F_WRITE, d_next = 0\<rparr>"
  by (simp_all add: submitted_def virtio_submit_def Let_def set_desc_def mmio_w_def upd_vd_def upd_buf_def)

text \<open>The device serves it: block \<open>k\<close> moves between the platter and the buffer.\<close>

definition moved :: "'a dstate_scheme \<Rightarrow> nat \<Rightarrow> bool \<Rightarrow> nat \<Rightarrow> 'a dstate_scheme" where
  "moved s b wr k = (if wr then s\<lparr>platter := (platter s)(k := b_data (bufs s b))\<rparr>
     else upd_buf b (\<lambda>x. x\<lparr>b_data := platter s k\<rparr>) s)"

lemma device_run_request:
  assumes "conforms (vdevice s)" "request (vdisk s) b wr i0 i1 i2 sector"
  shows "device_run s = (moved s b wr (unat sector div 2))\<lparr>vdisk := serve (vdisk s) i0\<rparr>"
proof -
  have "vdevice s (vdisk s, (\<lambda>b. b_data (bufs s b)), platter s) =
      (serve (vdisk s) i0, if wr then (\<lambda>b. b_data (bufs s b)) else (\<lambda>b. b_data (bufs s b))(b := platter s (unat sector div 2)),
       if wr then (platter s)(unat sector div 2 := b_data (bufs s b)) else platter s)"
    using assms unfolding conforms_def by blast
  moreover have "(\<lambda>j. (bufs s j)\<lparr>b_data := ((\<lambda>b. b_data (bufs s b))(b := x)) j\<rparr>) = (bufs s)(b := (bufs s b)\<lparr>b_data := x\<rparr>)" for x
    by (auto simp: fun_eq_iff)
  ultimately show ?thesis by (simp add: device_run_def moved_def upd_buf_def)
qed

text \<open>The interrupt handler takes one finished request off the used ring.\<close>

definition intr_done :: "'a dstate_scheme \<Rightarrow> nat \<Rightarrow> 'a dstate_scheme" where
  "intr_done s b = upd_vd (\<lambda>d. d\<lparr>vd_used_idx := vd_used_idx d + 1\<rparr>) (upd_buf b (\<lambda>x. x\<lparr>b_disk := False\<rparr>)
     (mmio_w VIRTIO_MMIO_INTERRUPT_ACK (vd_mmio (vdisk s) VIRTIO_MMIO_INTERRUPT_STATUS AND 3) s))"

lemma virtio_disk_intr_ok:
  assumes q: "quiet c p s" and free: "lock_free (vdisk_lock (vdisk s))"
    and d: "us_idx (vd_used (vdisk s)) = vd_used_idx (vdisk s) + 1" "us_ring (vd_used (vdisk s)) (unat (vd_used_idx (vdisk s)) mod NUM) = 0"
      "i_status (vd_info (vdisk s) 0) = 0" "i_b (vd_info (vdisk s) 0) = Some b"
  shows "virtio_disk_intr c s = Ok (after_lock c (intr_done s b))"
proof -
  let ?ack = "mmio_w VIRTIO_MMIO_INTERRUPT_ACK (vd_mmio (vdisk s) VIRTIO_MMIO_INTERRUPT_STATUS AND 3)"
  let ?h = "upd_buf b (\<lambda>x. x\<lparr>b_disk := False\<rparr>) (?ack (held c vdisk_L s))"
  have "hot c p ?h" using held_vdisk_hot [OF q] by (simp add: mmio_w_def)
  then have w: "wakeup c ?h (ChanBuf b) = Ok ?h" by (rule hot_wakeup) simp
  have "virtio_intr_loop (unat (us_idx (vd_used (vdisk (?ack (held c vdisk_L s)))) - vd_used_idx (vdisk (?ack (held c vdisk_L s))))) c
      (?ack (held c vdisk_L s)) = Ok (upd_vd (\<lambda>d. d\<lparr>vd_used_idx := vd_used_idx d + 1\<rparr>) ?h)"
    using d w by (simp add: mmio_w_def upd_vd_def held_vdisk_fields NUM_def)
  moreover have "upd_vd (\<lambda>d. d\<lparr>vd_used_idx := vd_used_idx d + 1\<rparr>) ?h = held c vdisk_L (intr_done s b)"
    by (simp add: intr_done_def mmio_w_def held_upd_vd held_upd_buf)
  moreover have "vd_mmio (vdisk (held c vdisk_L s)) = vd_mmio (vdisk s)" by (simp add: held_vdisk_fields)
  moreover have "lk_release c vdisk_L (held c vdisk_L (intr_done s b)) = Ok (after_lock c (intr_done s b))"
    using q free by (intro vlk.release_ok) (simp_all add: intr_done_def mmio_w_def upd_vd_def upd_buf_def quiet_def)
  ultimately show ?thesis using free by (simp add: virtio_disk_intr_def vlk.acquire_ok Let_def)
qed

text \<open>Freeing the chain of the three descriptors.\<close>

definition freed :: "nat \<Rightarrow> vdisk \<Rightarrow> vdisk" where
  "freed i d = d\<lparr>vd_desc := (vd_desc d)(i := zero_desc), vd_free := (vd_free d)(i := True)\<rparr>"

lemma free_desc_ok:
  assumes "hot c p s" "i < NUM" "\<not> vd_free (vdisk s) i"
  shows "free_desc c s i = Ok (upd_vd (freed i) s)"
proof -
  have "hot c p (upd_vd (freed i) s)" using assms(1) by (subst hot_cong [of _ c s]) (simp_all add: upd_vd_def)
  then have "wakeup c (upd_vd (freed i) s) ChanDisk = Ok (upd_vd (freed i) s)" by (rule hot_wakeup) simp
  moreover have "free_desc c s i = wakeup c (upd_vd (freed i) s) ChanDisk" using assms(2,3) by (simp add: free_desc_def freed_def [abs_def])
  ultimately show ?thesis by simp
qed

lemma free_chain_ok:
  assumes h: "hot c p s" and free: "\<not> vd_free (vdisk s) 0" "\<not> vd_free (vdisk s) 1" "\<not> vd_free (vdisk s) 2"
    and next0: "d_flags (vd_desc (vdisk s) 0) AND VRING_DESC_F_NEXT \<noteq> 0" "d_next (vd_desc (vdisk s) 0) = 1"
    and next1: "d_flags (vd_desc (vdisk s) 1) AND VRING_DESC_F_NEXT \<noteq> 0" "d_next (vd_desc (vdisk s) 1) = 2"
    and next2: "d_flags (vd_desc (vdisk s) 2) AND VRING_DESC_F_NEXT = 0"
  shows "free_chain c s 0 = Ok (upd_vd (\<lambda>d. freed 2 (freed 1 (freed 0 d))) s)"
proof -
  let ?s1 = "upd_vd (freed 0) s" and ?s2 = "upd_vd (freed 1) (upd_vd (freed 0) s)"
  have h1: "hot c p ?s1" "hot c p ?s2" using h by simp_all
  have f1: "free_desc c s 0 = Ok ?s1" using h free by (intro free_desc_ok) (simp_all add: NUM_def)
  have f2: "free_desc c ?s1 1 = Ok ?s2" using h1 free by (intro free_desc_ok) (simp_all add: NUM_def upd_vd_def freed_def)
  have f3: "free_desc c ?s2 2 = Ok (upd_vd (freed 2) ?s2)" using h1 free by (intro free_desc_ok) (simp_all add: NUM_def upd_vd_def freed_def)
  have "free_chain_loop (Suc (Suc (Suc n))) c s 0 = Ok (upd_vd (freed 2) ?s2)" for n
    using next0 next1 next2 f1 f2 f3 by (simp add: Let_def upd_vd_def freed_def)
  from this [of 6] show ?thesis by (simp add: free_chain_def NUM_def upd_vd_def)
qed

text \<open>\<^verbatim>\<open>virtio_disk_rw\<close> for a buffer and a driver at rest.\<close>

definition disk_ready :: "nat \<Rightarrow> nat \<Rightarrow> 'a dstate_scheme \<Rightarrow> bool" where
  "disk_ready c p s \<longleftrightarrow> quiet c p s \<and> settled c s \<and> disk_idle (vdisk s) \<and> conforms (vdevice s)"

lemma settled_iff: "settled c s \<longleftrightarrow> cpu_ok (cpus s c) \<and> (noff (cpus s c) = 0 \<longrightarrow> intena (cpus s c) = intr (cpus s c))"
proof -
  have "after_lock c s = s \<longleftrightarrow> (noff (cpus s c) = 0 \<longrightarrow> intena (cpus s c) = intr (cpus s c))"
  proof
    assume "after_lock c s = s"
    then have "intena (cpus (after_lock c s) c) = intena (cpus s c)" by simp
    then show "noff (cpus s c) = 0 \<longrightarrow> intena (cpus s c) = intr (cpus s c)" by (simp add: after_lock_upd split: if_splits)
  next
    assume "noff (cpus s c) = 0 \<longrightarrow> intena (cpus s c) = intr (cpus s c)"
    then have "(cpus s c)\<lparr>intena := (if noff (cpus s c) = 0 then intr (cpus s c) else intena (cpus s c))\<rparr> = cpus s c" by (auto split: if_splits)
    then show "after_lock c s = s" by (simp add: after_lock_upd)
  qed
  then show ?thesis by (simp add: settled_def)
qed

lemma settled_upd [simp]:
  "settled c (s\<lparr>vdisk := v\<rparr>) = settled c s" "settled c (s\<lparr>bufs := B\<rparr>) = settled c s" "settled c (s\<lparr>platter := P\<rparr>) = settled c s"
  "settled c (s\<lparr>bcache_lock := l\<rparr>) = settled c s" "settled c (upd_vd f s) = settled c s" "settled c (upd_buf b g s) = settled c s"
  by (simp_all add: settled_iff upd_vd_def upd_buf_def)

lemma virtio_disk_rw_ok:
  assumes r: "disk_ready c p s" and k: "unat (b_blockno (bufs s b)) < 2 ^ 31"
  shows "\<exists>v. virtio_disk_rw c s b wr = Ok ((moved s b wr (unat (b_blockno (bufs s b))))\<lparr>vdisk := v,
      bufs := (bufs (moved s b wr (unat (b_blockno (bufs s b)))))(b := (bufs (moved s b wr (unat (b_blockno (bufs s b)))) b)\<lparr>b_disk := False\<rparr>)\<rparr>) \<and>
    disk_idle v"
proof -
  let ?k = "unat (b_blockno (bufs s b))"
  have q: "quiet c p s" "after_lock c s = s" "disk_idle (vdisk s)" "conforms (vdevice s)" "cpu_ok (cpus s c)"
    using r by (simp_all add: disk_ready_def settled_def)
  have free: "lock_free (vdisk_lock (vdisk s))" using q(3) by (simp add: disk_idle_def)
  let ?t = "submitted s b wr"
  have al: "alloc3_desc c (held c vdisk_L s) = Ok (upd_vd (\<lambda>d. d\<lparr>vd_free := (vd_free d)(0 := False, Suc 0 := False, 2 := False)\<rparr>) (held c vdisk_L s), Some [0, 1, 2])"
    using q(3) by (intro alloc3_idle) (simp add: held_vdisk_fields disk_idle_def)
  have sub: "virtio_submit (upd_vd (\<lambda>d. d\<lparr>vd_free := (vd_free d)(0 := False, Suc 0 := False, 2 := False)\<rparr>) (held c vdisk_L s)) b wr [0, 1, 2] = held c vdisk_L ?t"
    unfolding submitted_def by (subst held_upd_vd) (simp_all add: held_submit)
  have t: "quiet c p ?t" "settled c ?t"
    using submitted_more [of s b wr] r by (auto simp: disk_ready_def)
  then have rel: "lk_release c vdisk_L (held c vdisk_L ?t) = Ok ?t"
    using vlk.release_ok [of ?t c] q(5) free by (simp add: submitted_fields settled_def)
  let ?sector = "ucast (b_blockno (bufs s b) * 2) :: uint64"
  have sec: "unat ?sector div 2 = ?k"
  proof -
    have "unat (b_blockno (bufs s b) * 2) < 2 ^ 64" using unsigned_less [of "b_blockno (bufs s b) * 2", where 'a = nat] by simp
    then have "unat ?sector = unat (b_blockno (bufs s b) * 2)" by (simp add: unsigned_ucast_eq take_bit_nat_eq_self)
    also have "\<dots> = ?k * 2" using k by (simp add: unat_word_ariths)
    finally show ?thesis by simp
  qed
  define u where "u = (moved ?t b wr ?k)\<lparr>vdisk := serve (vdisk ?t) 0\<rparr>"
  have run: "device_run ?t = u"
    unfolding u_def sec [symmetric] by (rule device_run_request [OF _ submitted_request [OF q(3)]]) (simp add: submitted_fields q(4))
  have u: "quiet c p u" "settled c u" "vdisk u = serve (vdisk ?t) 0"
    using t by (cases wr; simp add: u_def moved_def)+
  have intr: "virtio_disk_intr c u = Ok (intr_done u b)"
    using virtio_disk_intr_ok [OF u(1), of b] u free q(3)
    by (simp add: serve_def submitted_fields disk_idle_def intr_done_def mmio_w_def settledD)
  let ?i = "intr_done u b"
  have i: "quiet c p ?i" "settled c ?i" using u by (simp_all add: intr_done_def mmio_w_def)
  have fi: "lock_free (vdisk_lock (vdisk ?i))" "\<not> b_disk (bufs ?i b)"
    using free u(3) by (simp_all add: intr_done_def mmio_w_def upd_vd_def upd_buf_def serve_def submitted_fields)
  have wait: "virtio_wait c (held c vdisk_L ?t) b = Ok (held c vdisk_L ?i)"
    using rel run intr fi by (simp add: virtio_wait_def held_vdisk_fields submitted_fields vlk.acquire_ok)
  let ?n = "upd_vd (\<lambda>d. d\<lparr>vd_info := (vd_info d)(0 := (vd_info d 0)\<lparr>i_b := None\<rparr>)\<rparr>)"
  have ni: "?n (held c vdisk_L ?i) = held c vdisk_L (?n ?i)" by (rule held_upd_vd) simp_all
  let ?f = "upd_vd (\<lambda>d. freed 2 (freed 1 (freed 0 d)))"
  have "free_chain c (held c vdisk_L (?n ?i)) 0 = Ok (?f (held c vdisk_L (?n ?i)))"
    by (rule free_chain_ok [of c p])
      (use i in \<open>simp_all add: held_vdisk_hot held_vdisk_fields\<close>, simp_all add: intr_done_def mmio_w_def upd_vd_def upd_buf_def u(3) serve_def submitted_fields submitted_desc
       submitted_desc(2) [unfolded One_nat_def] VRING_DESC_F_NEXT_def VRING_DESC_F_WRITE_def)
  moreover have "?f (held c vdisk_L (?n ?i)) = held c vdisk_L (?f (?n ?i))" by (rule held_upd_vd) (simp_all add: freed_def)
  moreover have "lk_release c vdisk_L (held c vdisk_L (?f (?n ?i))) = Ok (?f (?n ?i))"
  proof -
    have "settled c (?f (?n ?i))" using i(2) by simp
    then have "cpu_ok (cpus (?f (?n ?i)) c)" "after_lock c (?f (?n ?i)) = ?f (?n ?i)" unfolding settled_def by simp_all
    moreover have "lock_free (fst vdisk_L (?f (?n ?i)))" using fi(1) by (simp add: upd_vd_def freed_def)
    ultimately show ?thesis using vlk.release_ok [of "?f (?n ?i)" c] by (simp only:)
  qed
  ultimately have res: "virtio_disk_rw c s b wr = Ok (?f (?n ?i))"
    using al sub wait free ni by (simp add: virtio_disk_rw_def vlk.acquire_ok Let_def)
  obtain v1 where v1: "?t = s\<lparr>vdisk := v1, bufs := (bufs s)(b := (bufs s b)\<lparr>b_disk := True\<rparr>)\<rparr>" using submitted_more [of s b wr] by blast
  let ?m = "moved s b wr ?k"
  have "?f (?n ?i) = ?m\<lparr>vdisk := vdisk (?f (?n ?i)), bufs := (bufs ?m)(b := (bufs ?m b)\<lparr>b_disk := False\<rparr>)\<rparr>"
    by (simp add: u_def v1 moved_def intr_done_def mmio_w_def upd_vd_def upd_buf_def)
  moreover have "disk_idle (vdisk (?f (?n ?i)))"
  proof -
    have d: "vdisk (?f (?n ?i)) = freed 2 (freed 1 (freed 0 ((\<lambda>d. d\<lparr>vd_info := (vd_info d)(0 := (vd_info d 0)\<lparr>i_b := None\<rparr>)\<rparr>) (vdisk ?i))))" by (simp add: upd_vd_def)
    have e: "lock_free (vdisk_lock (vdisk ?i))" "vd_used_idx (vdisk ?i) = us_idx (vd_used (vdisk ?i))" "us_idx (vd_used (vdisk ?i)) = av_idx (vd_avail (vdisk ?i))"
        "vd_free (vdisk ?i) = (vd_free (vdisk s))(0 := False, 1 := False, 2 := False)"
      using q(3) fi(1) by (simp_all add: intr_done_def mmio_w_def upd_vd_def upd_buf_def u(3) serve_def submitted_fields disk_idle_def)
    show ?thesis unfolding d using q(3) e by (simp add: disk_idle_def freed_def)
  qed
  ultimately show ?thesis using res by (intro exI [of _ "vdisk (?f (?n ?i))"]) simp
qed

lemma upd_buf_fields [simp]:
  "cpus (upd_buf b f s) = cpus s" "mem (upd_buf b f s) = mem s" "procs (upd_buf b f s) = procs s" "vdisk (upd_buf b f s) = vdisk s"
  "platter (upd_buf b f s) = platter s" "vdevice (upd_buf b f s) = vdevice s" "bcache_lock (upd_buf b f s) = bcache_lock s"
  "bufs (upd_buf b f s) = (bufs s)(b := f (bufs s b))"
  by (simp_all add: upd_buf_def)

end
