(* ===== verification/Demo_State.thy ===== *)
theory Demo_State
  imports Disk_Base
begin

text \<open>
  A machine on which the statements of the development are tried out: CPU 0 runs process 2 with interrupts on, the other CPUs
  are in their scheduler, all locks are free, the disk obeys the virtio specification and block \<open>k\<close> of the platter
  holds 1024 bytes of value \<open>k\<close>.
\<close>

definition demo_dev :: vdisk where
  "demo_dev = \<lparr>vd_desc = (\<lambda>_. zero_desc), vd_avail = \<lparr>av_idx = 0, av_ring = \<lambda>_. 0\<rparr>, vd_used = \<lparr>us_idx = 0, us_ring = \<lambda>_. 0\<rparr>,
     vd_free = (\<lambda>_. True), vd_used_idx = 0, vd_info = (\<lambda>_. \<lparr>i_b = None, i_status = 0\<rparr>),
     vd_ops = (\<lambda>_. \<lparr>rq_type = 0, rq_reserved = 0, rq_sector = 0\<rparr>), vdisk_lock = zero_lock, vd_pages = (0, 0, 0), vd_mmio = (\<lambda>_. 0)\<rparr>"

definition demo_sleep :: sleeplock where
  "demo_sleep = \<lparr>sl_locked = 0, sl_lk = zero_lock, sl_name = [], sl_pid = 0\<rparr>"

definition demo_buf :: "nat \<Rightarrow> buf" where
  "demo_buf i = \<lparr>b_valid = False, b_disk = False, b_dev = 0, b_blockno = 0, b_lock = demo_sleep, b_refcnt = 0,
     b_prev = (i + 1) mod (NBUF + 1), b_next = (i + NBUF) mod (NBUF + 1), b_data = replicate BSIZE 0\<rparr>"

definition demo_io0 :: io_state where
  "demo_io0 = rq_state.extend
     (demo_rq\<lparr>cpus := (cpus demo_rq)(0 := (cpus demo_rq 0)\<lparr>cpu_proc := Some 2, intena := True\<rparr>),
        procs := (\<lambda>i. zero_proc)(2 := zero_proc\<lparr>state := RUNNING, pid := 1, kstack := KSTACK 2, trapframe_pg := 0x87f00000,
          pagetable := 0x87e00000\<rparr>)\<rparr>)
     (io_state.fields \<lparr>u_ier = 3, u_lcr = 3, u_fcr = 1, u_dll = 3, u_dlm = 0, tx_room = 64, thr_out = [], rx_in = []\<rparr>
        zero_lock (replicate 32 0) 0 0 zero_lock True False)"

definition demo_p0 :: pstate where
  "demo_p0 = io_state.extend demo_io0 (pstate.fields zero_lock 2 zero_lock None 0x80007000 0x80001000 (\<lambda>_. 0) 0)"

definition demo_d :: dstate where
  "demo_d = pstate.extend demo_p0
     (dstate.fields demo_dev (\<lambda>k. replicate BSIZE (of_nat k)) virtio_dev (\<lambda>v. v) zero_lock demo_buf 0x80010000)"

definition demo_l :: lstate where
  "demo_l = dstate.extend demo_d
     (lstate.fields \<lparr>l_lock = zero_lock, l_start = 2, l_size = 30, l_outstanding = 0, l_committing = False, l_dev = 1, lh_n = 0,
        lh_block = replicate LOGSIZE 0\<rparr>)"

definition demo_f :: fstate where
  "demo_f = lstate.extend demo_l
     (fstate.fields \<lparr>sb_magic = 0x10203040, sb_size = 2000, sb_nblocks = 1954, sb_ninodes = 200, sb_nlog = 30, sb_logstart = 2, sb_inodestart = 32, sb_bmapstart = 45\<rparr>
        zero_lock (\<lambda>_. \<lparr>in_dev = 0, in_inum = 0, in_ref = 0, in_lock = demo_sleep, in_valid = False, in_type = 0, in_major = 0, in_minor = 0,
           in_nlink = 0, in_size = 0, in_addrs = replicate 13 0\<rparr>))"

definition demo_c :: cstate where
  "demo_c = fstate.extend demo_f
     (cstate.fields \<lparr>cons_lock = zero_lock, cons_buf = replicate 128 0, cons_r = 0, cons_w = 0, cons_e = 0\<rparr>
        (\<lambda>_. \<lparr>dev_read = None, dev_write = None\<rparr>))"

definition demo_o :: ostate where
  "demo_o = cstate.extend demo_c
     (ostate.fields zero_lock
        (\<lambda>_. \<lparr>f_type = FD_NONE, f_ref = 0, readable = False, writable = False, f_pipe = 0, f_ip = None, f_off = 0, f_major = 0\<rparr>)
        (\<lambda>_. \<lparr>pi_lock = zero_lock, pi_data = replicate 512 0, nread = 0, nwrite = 0, readopen = False, writeopen = False\<rparr>))"

definition demo_csr :: "nat \<Rightarrow> csrs" where
  "demo_csr c = \<lparr>mhartid = of_nat c, mstatus = 0, mepc = 0, sstatus_rest = 0x120, sip = 2, sie = 0x222, mie = 0, sepc = 0x80002000,
     medeleg = 0xffff, mideleg = 0xffff, stvec = 0x80005000, mtvec = 0, pmpcfg0 = 0, pmpaddr0 = 0, satp = 0x8000000000087fff, mscratch = 0,
     scause = 0x8000000000000001, stval = 0, tp = of_nat c\<rparr>"

definition demo_k :: kernel where
  "demo_k = ostate.extend demo_o
     (kernel.fields zero_lock 0 demo_csr
        \<lparr>plic_priority = \<lambda>_. 1, plic_enable = \<lambda>_. 0x402, plic_threshold = \<lambda>_. 0, plic_pending = \<lambda>_. [], plic_done = \<lambda>_. []\<rparr>
        \<lparr>a_kernelvec = 0x80005000, a_uservec = 0x80007000, a_userret = 0x8000709c, a_usertrap = 0x80002500, a_timervec = 0x80005080,
           a_main = 0x80000e00, a_initcode = 0x80008800, a_etext = 0x80008000, a_timer_scratch = 0x80009000\<rparr>
        False True 0x87fff000 0 (\<lambda>_. 0))"

lemmas demo_defs = demo_k_def demo_o_def demo_c_def demo_f_def demo_l_def demo_d_def demo_p0_def demo_io0_def
  kernel.defs ostate.defs cstate.defs fstate.defs lstate.defs dstate.defs pstate.defs io_state.defs rq_state.defs

lemma demo_d_simps:
  "cpus demo_d = (\<lambda>_. zero_cpu\<lparr>intr := True\<rparr>)(0 := zero_cpu\<lparr>intr := True, cpu_proc := Some 2, intena := True\<rparr>)"
  "procs demo_d i = (if i = 2 then zero_proc\<lparr>state := RUNNING, pid := 1, kstack := KSTACK 2, trapframe_pg := 0x87f00000,
     pagetable := 0x87e00000\<rparr> else zero_proc)"
  "vdisk demo_d = demo_dev" "platter demo_d = (\<lambda>k. replicate BSIZE (of_nat k))" "vdevice demo_d = virtio_dev" "bufs demo_d = demo_buf"
  "bcache_lock demo_d = zero_lock"
  by (simp_all add: demo_defs demo_rq_def)

lemma demo_d_ready: "disk_ready 0 2 demo_d"
  using virtio_dev_conforms
  by (auto simp: disk_ready_def quiet_def settled_iff demo_d_simps zero_cpu_def cpu_ok_def zero_proc_def zero_lock_def lock_free_def
      sleeps_on_def disk_idle_def demo_dev_def)

lemma demo_k_simps:
  "cpus demo_k = cpus demo_d" "procs demo_k = procs demo_d" "csr demo_k = demo_csr" "trampoline demo_k = 0x80007000"
  "a_uservec (code demo_k) = 0x80007000" "a_userret (code demo_k) = 0x8000709c" "a_usertrap (code demo_k) = 0x80002500"
  by (simp_all add: demo_defs)

end
