(* ===== verification/Trap_Props.thy ===== *)
theory Trap_Props
  imports Trampoline Demo_State
begin

text \<open>
  The trap handlers of \<^verbatim>\<open>kernel/trap.c\<close> and machine-mode start-up of \<^verbatim>\<open>kernel/start.c\<close>: what the control registers and
  the trapframe hold when control leaves the kernel, and how this fits the trampoline.
\<close>

section \<open>Registers\<close>

lemma upd_csr_fields [simp]:
  "csr (upd_csr c f s) d = (if d = c then f (csr s c) else csr s d)" "cpus (upd_csr c f s) = cpus s"
  "mem (upd_csr c f s) = mem s" "procs (upd_csr c f s) = procs s" "code (upd_csr c f s) = code s"
  "trampoline (upd_csr c f s) = trampoline s"
  by (simp_all add: upd_csr_def)

lemma tf_set_fields [simp]:
  "csr (tf_set p f v s) = csr s" "cpus (tf_set p f v s) = cpus s" "procs (tf_set p f v s) = procs s"
  "code (tf_set p f v s) = code s" "trampoline (tf_set p f v s) = trampoline s"
  by (simp_all add: tf_set_def)

lemma upd_cpu_fields [simp]:
  "csr (upd_cpu c f s) = csr s" "mem (upd_cpu c f s) = mem s" "procs (upd_cpu c f s) = procs s" "code (upd_cpu c f s) = code s"
  "trampoline (upd_cpu c f s) = trampoline s"
  by (simp_all add: upd_cpu_def)

lemma after_lock_kernel [simp]:
  "csr (after_lock c s) = csr s" "mem (after_lock c s) = mem s" "procs (after_lock c s) = procs s" "code (after_lock c s) = code s" "trampoline (after_lock c s) = trampoline s"
  by (simp_all add: after_lock_upd)

text \<open>A flag: one bit of a register.\<close>

lemma flag_bit: "k < 64 \<Longrightarrow> bit (push_bit k 1 :: uint64) n \<longleftrightarrow> n = k"
proof -
  assume "k < 64"
  have "bit (push_bit k 1 :: uint64) n \<longleftrightarrow> k \<le> n \<and> n < 64 \<and> bit (1 :: uint64) (n - k)" unfolding bit_push_bit_iff by (simp add: possible_bit_word)
  then show ?thesis using \<open>k < 64\<close> unfolding bit_1_iff by auto
qed

lemma flag_set: "k < 64 \<Longrightarrow> x AND push_bit k 1 \<noteq> 0 \<longleftrightarrow> bit (x :: uint64) k"
proof
  assume k: "k < 64" and "x AND push_bit k 1 \<noteq> 0"
  then have "\<exists>j. bit (x AND push_bit k 1) j" unfolding bit_eq_iff [of "x AND push_bit k 1" 0] by (simp only: bit_0_eq bot_apply bot_bool_def) blast
  then obtain j where "bit (x AND push_bit k 1) j" ..
  then show "bit x k" using k by (auto simp only: bit_and_iff flag_bit)
next
  assume k: "k < 64" and "bit x k"
  then have "bit (x AND push_bit k 1) k" by (simp only: bit_and_iff flag_bit)
  then show "x AND push_bit k 1 \<noteq> 0" by auto
qed

text \<open>Writing \<^verbatim>\<open>sstatus\<close> and reading it back.\<close>

lemma sstatus_round_trip: "r_sstatus c (w_sstatus c x s) = x"
proof (rule bit_word_eqI)
  fix n assume "n < LENGTH(64)"
  have m: "bit SSTATUS_SIE n \<longleftrightarrow> n = 1" for n unfolding SSTATUS_SIE_def by (rule flag_bit) simp
  have b: "x AND SSTATUS_SIE \<noteq> 0 \<longleftrightarrow> bit x 1" unfolding SSTATUS_SIE_def by (rule flag_set) simp
  show "bit (r_sstatus c (w_sstatus c x s)) n = bit x n"
    using \<open>n < LENGTH(64)\<close> b by (auto simp: r_sstatus_def w_sstatus_def upd_cpu_def upd_csr_def bit_or_iff bit_and_iff bit_not_iff m)
qed

lemma sepc_w_sstatus [simp]: "r_sepc c (w_sstatus c x s) = r_sepc c s"
  by (simp add: r_sepc_def w_sstatus_def)

lemma sepc_w_sepc [simp]: "r_sepc c (w_sepc c x s) = x"
  by (simp add: r_sepc_def w_sepc_def)

section \<open>The trapframe\<close>

lemma tf_get_set:
  assumes "slot_ok (tf_off f)" "slot_ok (tf_off g)"
  shows "tf_get (tf_set p f v s) p g = (if tf_off f = tf_off g then v else tf_get s p g)"
  using load_store_slot [OF assms] by (simp add: tf_get_def tf_set_def)

lemma tf_get_cong: "mem s = mem t \<Longrightarrow> procs s = procs t \<Longrightarrow> tf_get s p f = tf_get t p f"
  by (simp add: tf_get_def)

section \<open>Leaving the kernel\<close>

definition ret_frame :: "nat \<Rightarrow> 'a kernel_scheme \<Rightarrow> nat \<Rightarrow> 'a kernel_scheme" where
  "ret_frame c s p =
     tf_set p ''kernel_hartid'' (r_tp c s) (tf_set p ''kernel_trap'' (a_usertrap (code s))
       (tf_set p ''kernel_sp'' (kstack (procs s p) + PGSIZE) (tf_set p ''kernel_satp'' (r_satp c s) s)))"

lemma ret_frame_fields:
  "tf_get (ret_frame c s p) p ''kernel_satp'' = r_satp c s" "tf_get (ret_frame c s p) p ''kernel_sp'' = kstack (procs s p) + PGSIZE"
  "tf_get (ret_frame c s p) p ''kernel_trap'' = a_usertrap (code s)" "tf_get (ret_frame c s p) p ''kernel_hartid'' = r_tp c s"
  "tf_get (ret_frame c s p) p ''epc'' = tf_get s p ''epc''"
  by (simp_all add: ret_frame_def tf_get_set slot_ok_def tf_off_def)

text \<open>Only the kernel's five words of the trapframe are written.\<close>

lemma ret_frame_user:
  "slot_ok x \<Longrightarrow> 40 \<le> x \<Longrightarrow> load64 (mem (ret_frame c s p)) (trapframe_pg (procs s p) + x) = load64 (mem s) (trapframe_pg (procs s p) + x)"
  by (auto simp: ret_frame_def tf_set_def tf_off_def load_store_slot load_store_slot [of 0, simplified] slot_ok_def)

lemma usertrapret_eq:
  assumes "cpu_ok (cpus s c)" "cpu_proc (cpus s c) = Some p"
  shows "\<exists>s'. usertrapret c s = Ok (s', ToUser (TRAMPOLINE + (a_userret (code s) - trampoline s)) (MAKE_SATP (pagetable (procs s p)))) \<and>
    mem s' = mem (ret_frame c s p) \<and> procs s' = procs s \<and> r_sepc c s' = tf_get s p ''epc'' \<and>
    stvec (csr s' c) = TRAMPOLINE + (a_uservec (code s) - trampoline s) \<and>
    (\<exists>x. r_sstatus c s' = (x AND NOT SSTATUS_SPP AND NOT SSTATUS_SIE) OR SSTATUS_SPIE) \<and> \<not> intr (cpus s' c)"
proof -
  define s3 where "s3 = w_stvec c (TRAMPOLINE + (a_uservec (code s) - trampoline s)) (intr_off c (after_lock c s))"
  define x where "x = (r_sstatus c s3 AND NOT SSTATUS_SPP) OR SSTATUS_SPIE"
  define s8 where "s8 = w_sstatus c x (ret_frame c s3 p)"
  have f: "code s3 = code s" "trampoline s3 = trampoline s" "procs s3 = procs s" "mem s3 = mem s"
    "r_tp c s3 = r_tp c s" "r_satp c s3 = r_satp c s" by (simp_all add: s3_def w_stvec_def intr_off_def r_tp_def r_satp_def)
  have m: "mem (ret_frame c s3 p) = mem (ret_frame c s p)" by (simp add: ret_frame_def tf_set_def f)
  have rf: "csr (ret_frame c s3 p) = csr s3" "code (ret_frame c s3 p) = code s" "procs (ret_frame c s3 p) = procs s"
    "trampoline (ret_frame c s3 p) = trampoline s" "r_sstatus c (ret_frame c s3 p) = r_sstatus c s3"
    by (simp_all add: ret_frame_def f r_sstatus_def)
  have s8: "code s8 = code s" "procs s8 = procs s" "trampoline s8 = trampoline s" "mem s8 = mem (ret_frame c s p)"
    by (simp_all add: s8_def w_sstatus_def rf m)
  have epc: "tf_get s8 p ''epc'' = tf_get s p ''epc''"
    using ret_frame_fields(5) [of c s p] tf_get_cong [of s8 "ret_frame c s p" p "''epc''"] s8 by (simp add: ret_frame_def)
  have run: "usertrapret c s = Ok (w_sepc c (tf_get s8 p ''epc'') s8,
      ToUser (TRAMPOLINE + (a_userret (code s8) - trampoline s8)) (MAKE_SATP (pagetable (procs s8 p))))"
    using assms rf s8 by (simp add: usertrapret_def myproc_ok Let_def s8_def x_def s3_def ret_frame_def w_stvec_def intr_off_def
      w_sepc_def w_sstatus_def r_sstatus_def r_satp_def r_tp_def)
  have i: "\<not> intr (cpus s3 c)" by (simp add: s3_def w_stvec_def intr_off_def upd_cpu_def)
  then have x: "x = (sstatus_rest (csr s3 c) AND NOT SSTATUS_SPP AND NOT SSTATUS_SIE) OR SSTATUS_SPIE"
    by (simp add: x_def r_sstatus_def and.assoc and.left_commute and.commute)
  have "\<not> bit x 1"
    unfolding x SSTATUS_SPP_def SSTATUS_SIE_def SSTATUS_SPIE_def bit_or_iff bit_and_iff bit_not_iff by (simp add: flag_bit del: push_bit_of_1)
  then have "x AND SSTATUS_SIE = 0" unfolding SSTATUS_SIE_def using flag_set [of 1 x] by simp
  then have "\<not> intr (cpus s8 c)" by (simp add: s8_def w_sstatus_def upd_cpu_def)
  moreover have "r_sstatus c s8 = x" by (simp add: s8_def sstatus_round_trip)
  moreover have "stvec (csr s8 c) = TRAMPOLINE + (a_uservec (code s) - trampoline s)"
    by (simp add: s8_def w_sstatus_def rf) (simp add: s3_def w_stvec_def)
  ultimately show ?thesis using run s8 epc x
    by (intro exI [of _ "w_sepc c (tf_get s8 p ''epc'') s8"]) (auto simp: w_sepc_def r_sstatus_def r_sepc_def)
qed

section \<open>Properties\<close>

text \<open>
  C17. \<^verbatim>\<open>usertrapret\<close> leaves the kernel safely: it always returns, to \<^verbatim>\<open>userret\<close> in the trampoline with the page table of the running
  process; the \<^verbatim>\<open>sret\<close> that follows goes to user mode with interrupts enabled, to the saved program
  counter, while interrupts stay off until then; traps go to \<^verbatim>\<open>uservec\<close>; and the process's registers in
  the trapframe are not touched.
\<close>

theorem usertrapret_safe:
  assumes "cpu_ok (cpus s c)" "cpu_proc (cpus s c) = Some p"
  shows "\<exists>s'. usertrapret c s = Ok (s', ToUser (TRAMPOLINE + (a_userret (code s) - trampoline s)) (MAKE_SATP (pagetable (procs s p)))) \<and>
    \<not> bit (r_sstatus c s') 8 \<and> bit (r_sstatus c s') 5 \<and> \<not> intr (cpus s' c) \<and> r_sepc c s' = tf_get s p ''epc'' \<and>
    stvec (csr s' c) = TRAMPOLINE + (a_uservec (code s) - trampoline s) \<and>
    (\<forall>x. slot_ok x \<longrightarrow> 40 \<le> x \<longrightarrow> load64 (mem s') (trapframe_pg (procs s p) + x) = load64 (mem s) (trapframe_pg (procs s p) + x))"
proof -
  obtain s' x where s': "usertrapret c s = Ok (s', ToUser (TRAMPOLINE + (a_userret (code s) - trampoline s)) (MAKE_SATP (pagetable (procs s p))))"
    "mem s' = mem (ret_frame c s p)" "r_sepc c s' = tf_get s p ''epc''"
    "stvec (csr s' c) = TRAMPOLINE + (a_uservec (code s) - trampoline s)" "\<not> intr (cpus s' c)"
    "r_sstatus c s' = (x AND NOT SSTATUS_SPP AND NOT SSTATUS_SIE) OR SSTATUS_SPIE"
    using usertrapret_eq [OF assms] by blast
  have "\<not> bit (r_sstatus c s') 8" "bit (r_sstatus c s') 5"
    unfolding s'(6) SSTATUS_SPP_def SSTATUS_SIE_def SSTATUS_SPIE_def bit_or_iff bit_and_iff bit_not_iff
    by (simp_all add: flag_bit del: push_bit_of_1)
  then show ?thesis using s' ret_frame_user [of _ c s p] by auto
qed

text \<open>
  C16. Kernel and trampoline agree on the trapframe: when the process that \<^verbatim>\<open>usertrapret\<close> let go next traps, with the five words that
  the kernel left in its trapframe in place, \<^verbatim>\<open>uservec\<close> enters \<^verbatim>\<open>usertrap\<close> on top of the process's kernel stack,
  with the hart id and the page table of the CPU that let it go.
\<close>

theorem trap_reentry:
  assumes "cpu_ok (cpus s c)" "cpu_proc (cpus s c) = Some p" "usertrapret c s = Ok (s', e)"
    "area (tr (h_csr h Satp)) TRAPFRAME (trapframe_pg (procs s p))"
    "\<forall>a. off a (trapframe_pg (procs s p)) < 40 \<longrightarrow> h_mem h a = mem s' a"
  shows "h_reg (hrun tr uservec h) SP = kstack (procs s p) + PGSIZE \<and> h_reg (hrun tr uservec h) TP = r_tp c s \<and>
    h_csr (hrun tr uservec h) Satp = r_satp c s \<and> h_next (hrun tr uservec h) = a_usertrap (code s)"
proof -
  let ?tf = "trapframe_pg (procs s p)"
  have m: "mem s' = mem (ret_frame c s p)" using usertrapret_eq [OF assms(1,2)] assms(3) by auto
  have "load64 (h_mem h) (?tf + x) = load64 (mem (ret_frame c s p)) (?tf + x)" if "x \<le> 32" for x
  proof (rule load64_cong)
    fix i :: nat assume "i < 8"
    moreover have "unat x \<le> 32" using that by (simp add: word_le_nat_alt)
    ultimately have "off (?tf + x + of_nat i) ?tf < 40" by (simp add: off_def unat_word_ariths unat_of_nat)
    then show "h_mem h (?tf + x + of_nat i) = mem (ret_frame c s p) (?tf + x + of_nat i)" using assms(5) m by simp
  qed
  from this [of 0] this [of 8] this [of 16] this [of 32]
  have "load64 (h_mem h) ?tf = tf_get (ret_frame c s p) p ''kernel_satp''" "load64 (h_mem h) (?tf + 8) = tf_get (ret_frame c s p) p ''kernel_sp''"
    "load64 (h_mem h) (?tf + 16) = tf_get (ret_frame c s p) p ''kernel_trap''" "load64 (h_mem h) (?tf + 32) = tf_get (ret_frame c s p) p ''kernel_hartid''"
    by (simp_all add: tf_get_def tf_off_def ret_frame_def)
  then show ?thesis
    using uservec_run(2-5) [where tr = tr and h = h, OF assms(4)] ret_frame_fields [of c s p] by simp
qed

text \<open>
  C18. \<^verbatim>\<open>kerneltrap\<close> is transparent: when it returns, at once or after giving up the CPU, possibly on another CPU, \<^verbatim>\<open>sepc\<close> and \<^verbatim>\<open>sstatus\<close>
  are what they were at the trap, interrupt enable bit included; and it refuses to run for a trap from
  user mode or with interrupts on.
\<close>

theorem kerneltrap_transparent:
  "(\<forall>s'. kerneltrap c s = Ok (s', None) \<longrightarrow> r_sepc c s' = r_sepc c s \<and> r_sstatus c s' = r_sstatus c s) \<and>
   (\<forall>s' q. kerneltrap c s = Ok (s', Some q) \<longrightarrow>
      (\<forall>d t t'. kerneltrap_yielded d t q = Ok t' \<longrightarrow> r_sepc d t' = r_sepc c s \<and> r_sstatus d t' = r_sstatus c s)) \<and>
   (r_sstatus c s AND SSTATUS_SPP = 0 \<longrightarrow> kerneltrap c s = Panic ''kerneltrap: not from supervisor mode'') \<and>
   (r_sstatus c s AND SSTATUS_SPP \<noteq> 0 \<and> intr (cpus s c) \<longrightarrow> kerneltrap c s = Panic ''kerneltrap: interrupts enabled'')"
proof -
  have n: "All Not = False" by auto
  have A: "r_sepc c s' = r_sepc c s \<and> r_sstatus c s' = r_sstatus c s" if "kerneltrap c s = Ok (s', None)" for s'
    using that by (auto simp: n kerneltrap_def Let_def rbind_Ok_iff sstatus_round_trip split: if_splits option.splits)
  have B: "fst q = r_sepc c s \<and> fst (snd q) = r_sstatus c s" if "kerneltrap c s = Ok (s', Some q)" for s' q
    using that by (auto simp: kerneltrap_def Let_def rbind_Ok_iff split: if_splits option.splits)
  have "r_sepc d t' = fst q \<and> r_sstatus d t' = fst (snd q)" if "kerneltrap_yielded d t q = Ok t'" for d t t' q
    using that by (auto simp: kerneltrap_yielded_def rbind_Ok_iff sstatus_round_trip split: prod.splits)
  with B have C: "r_sepc d t' = r_sepc c s \<and> r_sstatus d t' = r_sstatus c s"
    if "kerneltrap c s = Ok (s', Some q)" "kerneltrap_yielded d t q = Ok t'" for s' q d t t' using that by metis
  show ?thesis
  proof (intro conjI)
    show "r_sstatus c s AND SSTATUS_SPP = 0 \<longrightarrow> kerneltrap c s = Panic ''kerneltrap: not from supervisor mode''"
      "r_sstatus c s AND SSTATUS_SPP \<noteq> 0 \<and> intr (cpus s c) \<longrightarrow> kerneltrap c s = Panic ''kerneltrap: interrupts enabled''"
      by (simp_all add: kerneltrap_def Let_def intr_get_def)
  qed (use A C in \<open>blast+\<close>)
qed


section \<open>Examples\<close>

theorem usertrapret_safe_witness:
  "\<exists>s'. usertrapret 0 demo_k = Ok (s', ToUser (TRAMPOLINE + 156) (MAKE_SATP 0x87e00000)) \<and> \<not> bit (r_sstatus 0 s') 8 \<and> \<not> intr (cpus s' 0)"
  using usertrapret_safe [of demo_k 0 2] by (auto simp: demo_k_simps demo_d_simps zero_cpu_def cpu_ok_def)

theorem trap_reentry_witness:
  "\<exists>s' e h. usertrapret 0 demo_k = Ok (s', e) \<and> h_next (hrun (\<lambda>_ a. a - TRAPFRAME + 0x87f00000) uservec h) = 0x80002500"
proof -
  obtain s' e where s': "usertrapret 0 demo_k = Ok (s', e)"
    using usertrapret_eq [of demo_k 0 2] by (auto simp: demo_k_simps demo_d_simps zero_cpu_def cpu_ok_def)
  let ?h = "demo_hart\<lparr>h_mem := mem s'\<rparr>"
  have "h_next (hrun (\<lambda>_ a. a - TRAPFRAME + 0x87f00000) uservec ?h) = a_usertrap (code demo_k)"
    using trap_reentry [OF _ _ s', of 2 "\<lambda>_ a. a - TRAPFRAME + 0x87f00000" ?h]
    by (simp add: demo_k_simps demo_d_simps zero_cpu_def cpu_ok_def area_def)
  then show ?thesis using s' unfolding demo_k_simps by blast
qed

theorem kerneltrap_transparent_witness:
  "\<exists>s'. kerneltrap 1 (demo_k\<lparr>cpus := (cpus demo_k)(1 := zero_cpu)\<rparr>) = Ok (s', None) \<and> r_sepc 1 s' = 0x80002000"
proof -
  let ?s = "demo_k\<lparr>cpus := (cpus demo_k)(1 := zero_cpu)\<rparr>"
  have "\<exists>s'. kerneltrap 1 ?s = Ok (s', None)"
    by (simp add: kerneltrap_def devintr_def csr_access upd_csr_def Let_def intr_get_def demo_k_simps demo_csr_def zero_cpu_def SSTATUS_SPP_def
       SSTATUS_SIE_def r_sstatus_def myproc_ok cpu_ok_def)
  moreover have "r_sepc 1 ?s = 0x80002000" by (simp add: csr_access demo_k_simps demo_csr_def)
  ultimately show ?thesis using kerneltrap_transparent [of 1 ?s] by metis
qed

end
