(* ===== verification/Disk_Props.thy ===== *)
theory Disk_Props
  imports Demo_State
begin

text \<open>The disk driver of \<^verbatim>\<open>kernel/virtio_disk.c\<close>: a transfer as the rest of the kernel sees it.\<close>



end
