(* ===== verification/Spec2Isabelle.thy ===== *)
theory Spec2Isabelle
  imports RunQueue Vm_Props Sched_Props Kill_Props Print_Props Fs_Format Path_Props Grep Trap_Props Disk_Props
begin

text \<open>
  A verification library for the xv6-riscv kernel with its red-black-tree scheduler.
\<close>

end
